(* ===== verification/Prelude.thy ===== *)
theory Prelude
  imports Main "HOL-Library.Char_ord" "HOL-Library.List_Lexorder" "HOL-Library.Sublist"
begin

text \<open>
  The vocabulary every component of WinInspect shares: C++ exceptions and undefined
  behaviour as values, computations over a mutable object as state passing, \<open>std::map\<close>
  as an association list in key order, and the few \<open>std::string\<close> and \<open><cctype>\<close>
  operations the sources call.

  Everything the program does besides returning a value is explicit here. A C++ call either
  returns (\<open>Ok\<close>), throws (\<open>Throw\<close>, with the exception object) or has no defined
  continuation (\<open>Stuck\<close>: undefined behaviour, or a recursion that never returns).
  Bytes are \<^typ>\<open>char\<close>, so a \<open>std::string\<close> is a \<^typ>\<open>string\<close> of bytes and its
  order is the unsigned lexicographic one of \<open>std::char_traits\<close>.
\<close>

section \<open>Collections of facts\<close>

named_theorems omap_simps \<open>laws of the ordered map that model std::map\<close>
named_theorems comp_simps \<open>how computations run\<close>
named_theorems frame_intros \<open>computations that leave the state alone\<close>
named_theorems answer_intros \<open>calls that return or throw\<close>
named_theorems result_intros \<open>what a computation may return\<close>

section \<open>Exceptions and outcomes\<close>

text \<open>
  The exception classes the sources throw or let through, each with the text of its
  \<open>what()\<close>. For the exceptions thrown by the standard library itself the text is the one
  of libstdc++, the library of the MinGW builds.
\<close>

datatype exn =
    RuntimeError string
  | ParseError string
  | OutOfRange string
  | InvalidArgument string
  | BadVariantAccess string

primrec what :: "exn \<Rightarrow> string" where
  "what (RuntimeError m) = m"
| "what (ParseError m) = m"
| "what (OutOfRange m) = m"
| "what (InvalidArgument m) = m"
| "what (BadVariantAccess m) = m"

datatype 'a res = Ok 'a | Throw exn | Stuck

text \<open>A member function or lambda that may change an object of type \<^typ>\<open>'s\<close>.\<close>

type_synonym ('s, 'a) comp = "'s \<Rightarrow> 'a res \<times> 's"

definition ret :: "'a \<Rightarrow> ('s, 'a) comp" where
  "ret a = (\<lambda>s. (Ok a, s))"

definition throw :: "exn \<Rightarrow> ('s, 'a) comp" where
  "throw e = (\<lambda>s. (Throw e, s))"

definition stuck :: "('s, 'a) comp" where
  "stuck = (\<lambda>s. (Stuck, s))"

definition andThen :: "('s, 'a) comp \<Rightarrow> ('a \<Rightarrow> ('s, 'b) comp) \<Rightarrow> ('s, 'b) comp" where
  "andThen m f = (\<lambda>s. case m s of
     (Ok a, s') \<Rightarrow> f a s' | (Throw e, s') \<Rightarrow> (Throw e, s') | (Stuck, s') \<Rightarrow> (Stuck, s'))"

text \<open>\<open>if (!x) throw std::runtime_error(msg);\<close> followed by a use of \<open>*x\<close>.\<close>

definition need :: "'a option \<Rightarrow> string \<Rightarrow> ('s, 'a) comp" where
  "need x msg = (case x of None \<Rightarrow> throw (RuntimeError msg) | Some a \<Rightarrow> ret a)"

text \<open>A conversion that is undefined behaviour where the option is \<open>None\<close>.\<close>

definition defined :: "'a option \<Rightarrow> ('s, 'a) comp" where
  "defined x = (case x of None \<Rightarrow> stuck | Some a \<Rightarrow> ret a)"

lemma ret_run [comp_simps]: "ret a s = (Ok a, s)"
  by (simp add: ret_def)

lemma throw_run [comp_simps]: "throw e s = (Throw e, s)"
  by (simp add: throw_def)

lemma stuck_run [comp_simps]: "stuck s = (Stuck, s)"
  by (simp add: stuck_def)

lemma need_run [comp_simps]:
  "need None msg s = (Throw (RuntimeError msg), s)"
  "need (Some a) msg s = (Ok a, s)"
  by (simp_all add: need_def throw_def ret_def)

lemma defined_run [comp_simps]:
  "defined None s = (Stuck, s)"
  "defined (Some a) s = (Ok a, s)"
  by (simp_all add: defined_def stuck_def ret_def)

lemma andThen_run [comp_simps]:
  "m s = (Ok a, s') \<Longrightarrow> andThen m f s = f a s'"
  "m s = (Throw e, s') \<Longrightarrow> andThen m f s = (Throw e, s')"
  "m s = (Stuck, s') \<Longrightarrow> andThen m f s = (Stuck, s')"
  by (simp_all add: andThen_def)

lemma andThen_cases:
  assumes "andThen m f s = (r, t)"
  obtains (ok) a s' where "m s = (Ok a, s')" "f a s' = (r, t)"
    | (thrown) e where "m s = (Throw e, t)" "r = Throw e"
    | (stuck) "m s = (Stuck, t)" "r = Stuck"
  using assms by (cases "m s"; cases "fst (m s)") (auto simp: andThen_def)

text \<open>The same sequencing for a call that touches no object.\<close>

definition rthen :: "'a res \<Rightarrow> ('a \<Rightarrow> 'b res) \<Rightarrow> 'b res" where
  "rthen r f = (case r of Ok a \<Rightarrow> f a | Throw e \<Rightarrow> Throw e | Stuck \<Rightarrow> Stuck)"

lemma rthen_simps [simp]:
  "rthen (Ok a) f = f a" "rthen (Throw e) f = Throw e" "rthen Stuck f = Stuck"
  by (simp_all add: rthen_def)

lemma rthen_cong [fundef_cong]:
  "r = r' \<Longrightarrow> (\<And>a. r' = Ok a \<Longrightarrow> f a = g a) \<Longrightarrow> rthen r f = rthen r' g"
  by (cases r') simp_all

lemma rthen_eq_Ok: "rthen r f = Ok b \<longleftrightarrow> (\<exists>a. r = Ok a \<and> f a = Ok b)"
  by (cases r) simp_all

text \<open>A call that returns or throws: no undefined behaviour, no endless recursion.\<close>

definition answers :: "'a res \<Rightarrow> bool" where
  "answers r \<longleftrightarrow> r \<noteq> Stuck"

lemma answers_simps [simp, answer_intros]: "answers (Ok a)" "answers (Throw e)"
  by (simp_all add: answers_def)

lemma answers_rthen [answer_intros]:
  "answers r \<Longrightarrow> (\<And>a. r = Ok a \<Longrightarrow> answers (f a)) \<Longrightarrow> answers (rthen r f)"
  by (cases r) (simp_all add: answers_def)

lemma answers_if [answer_intros]:
  "(b \<Longrightarrow> answers r) \<Longrightarrow> (\<not> b \<Longrightarrow> answers r') \<Longrightarrow> answers (if b then r else r')"
  by simp

lemma answers_prod [answer_intros]:
  "(\<And>a b. p = (a, b) \<Longrightarrow> answers (f a b)) \<Longrightarrow> answers (case p of (a, b) \<Rightarrow> f a b)"
  by (cases p) simp

definition lift_res :: "'a res \<Rightarrow> ('s, 'a) comp" where
  "lift_res r = (\<lambda>s. (r, s))"

lemma lift_res_run [comp_simps]: "lift_res r s = (r, s)"
  by (simp add: lift_res_def)

text \<open>A computation that reads the object and never writes it.\<close>

definition const_comp :: "('s, 'a) comp \<Rightarrow> bool" where
  "const_comp m \<longleftrightarrow> (\<forall>s. snd (m s) = s)"

lemma const_compD: "const_comp m \<Longrightarrow> snd (m s) = s"
  by (simp add: const_comp_def)

lemma const_comp_ret [frame_intros]: "const_comp (ret a)"
  by (simp add: const_comp_def ret_def)

lemma const_comp_throw [frame_intros]: "const_comp (throw e)"
  by (simp add: const_comp_def throw_def)

lemma const_comp_stuck [frame_intros]: "const_comp stuck"
  by (simp add: const_comp_def stuck_def)

lemma const_comp_need [frame_intros]: "const_comp (need x msg)"
  by (cases x) (simp_all add: const_comp_def need_def throw_def ret_def)

lemma const_comp_defined [frame_intros]: "const_comp (defined x)"
  by (cases x) (simp_all add: const_comp_def defined_def stuck_def ret_def)

lemma const_comp_lift_res [frame_intros]: "const_comp (lift_res r)"
  by (simp add: const_comp_def lift_res_def)

lemma const_comp_andThen [frame_intros]:
  assumes "const_comp m" and "\<And>a. const_comp (f a)"
  shows "const_comp (andThen m f)"
  unfolding const_comp_def
proof
  fix s
  from assms(1) have m: "snd (m s) = s" by (rule const_compD)
  show "snd (andThen m f s) = s"
  proof (cases "fst (m s)")
    case (Ok a)
    with m have "m s = (Ok a, s)" by (metis prod.collapse)
    then show ?thesis using assms(2) by (simp add: andThen_def const_compD)
  next
    case (Throw e)
    with m have "m s = (Throw e, s)" by (metis prod.collapse)
    then show ?thesis by (simp add: andThen_def)
  next
    case Stuck
    with m have "m s = (Stuck, s)" by (metis prod.collapse)
    then show ?thesis by (simp add: andThen_def)
  qed
qed

lemma const_comp_if [frame_intros]:
  "(b \<Longrightarrow> const_comp m) \<Longrightarrow> (\<not> b \<Longrightarrow> const_comp m') \<Longrightarrow> const_comp (if b then m else m')"
  by simp

lemma const_comp_option [frame_intros]:
  "const_comp m \<Longrightarrow> (\<And>a. const_comp (f a)) \<Longrightarrow>
   const_comp (case x of None \<Rightarrow> m | Some a \<Rightarrow> f a)"
  by (cases x) simp_all

lemma const_comp_prod [frame_intros]:
  "(\<And>a b. const_comp (f a b)) \<Longrightarrow> const_comp (case p of (a, b) \<Rightarrow> f a b)"
  by (cases p) simp

text \<open>Every value the computation returns satisfies \<open>P\<close>.\<close>

definition returns_only :: "('a \<Rightarrow> bool) \<Rightarrow> ('s, 'a) comp \<Rightarrow> bool" where
  "returns_only P m \<longleftrightarrow> (\<forall>s a. fst (m s) = Ok a \<longrightarrow> P a)"

lemma returns_onlyD: "returns_only P m \<Longrightarrow> fst (m s) = Ok a \<Longrightarrow> P a"
  by (auto simp: returns_only_def)

lemma returns_only_ret [result_intros]: "P a \<Longrightarrow> returns_only P (ret a)"
  by (simp add: returns_only_def ret_def)

lemma returns_only_throw [result_intros]: "returns_only P (throw e)"
  by (simp add: returns_only_def throw_def)

lemma returns_only_andThen [result_intros]:
  "(\<And>a. returns_only P (f a)) \<Longrightarrow> returns_only P (andThen m f)"
  by (auto simp: returns_only_def andThen_def split: prod.splits res.splits)

lemma returns_only_if [result_intros]:
  "(b \<Longrightarrow> returns_only P m) \<Longrightarrow> (\<not> b \<Longrightarrow> returns_only P m') \<Longrightarrow> returns_only P (if b then m else m')"
  by simp

lemma returns_only_option [result_intros]:
  "returns_only P m \<Longrightarrow> (\<And>a. returns_only P (f a)) \<Longrightarrow>
   returns_only P (case x of None \<Rightarrow> m | Some a \<Rightarrow> f a)"
  by (cases x) simp_all

lemma returns_only_prod [result_intros]:
  "(\<And>a b. returns_only P (f a b)) \<Longrightarrow> returns_only P (case p of (a, b) \<Rightarrow> f a b)"
  by (cases p) simp

text \<open>A computation that returns or throws from every state.\<close>

definition answering :: "('s, 'a) comp \<Rightarrow> bool" where
  "answering m \<longleftrightarrow> (\<forall>s. answers (fst (m s)))"

lemma answering_ret [answer_intros]: "answering (ret a)"
  by (simp add: answering_def ret_def)

lemma answering_throw [answer_intros]: "answering (throw e)"
  by (simp add: answering_def throw_def)

lemma answering_need [answer_intros]: "answering (need x msg)"
  by (cases x) (simp_all add: answering_def need_def throw_def ret_def)

lemma answering_andThen:
  "answering m \<Longrightarrow> (\<And>a. answering (f a)) \<Longrightarrow> answering (andThen m f)"
  by (auto simp: answering_def andThen_def answers_def split: prod.splits res.splits) (metis fst_conv)

text \<open>A tested value is the one that was tested.\<close>

lemma answering_need_then:
  "(\<And>a. x = Some a \<Longrightarrow> answering (f a)) \<Longrightarrow> answering (andThen (need x msg) f)"
  by (cases x) (simp_all add: answering_def andThen_def need_def throw_def ret_def)

lemma answering_defined_then:
  "x \<noteq> None \<Longrightarrow> (\<And>a. answering (f a)) \<Longrightarrow> answering (andThen (defined x) f)"
  by (cases x) (simp_all add: answering_def andThen_def defined_def ret_def)

lemma answering_if [answer_intros]:
  "(b \<Longrightarrow> answering m) \<Longrightarrow> (\<not> b \<Longrightarrow> answering m') \<Longrightarrow> answering (if b then m else m')"
  by simp

lemma answering_option [answer_intros]:
  "answering m \<Longrightarrow> (\<And>a. answering (f a)) \<Longrightarrow> answering (case x of None \<Rightarrow> m | Some a \<Rightarrow> f a)"
  by (cases x) simp_all

lemma answering_prod [answer_intros]:
  "(\<And>a b. p = (a, b) \<Longrightarrow> answering (f a b)) \<Longrightarrow> answering (case p of (a, b) \<Rightarrow> f a b)"
  by (cases p) simp

section \<open>std::map\<close>

text \<open>
  An object of type \<open>std::map<K, V>\<close> is the list of its pairs in iteration order, which is
  strictly increasing in the key. \<open>find\<close> is \<^const>\<open>map_of\<close>; \<open>om_set\<close> is
  \<open>m[k] = v\<close>, \<open>om_emplace\<close> keeps a value that is already there, as \<open>emplace\<close> does,
  and \<open>om_erase\<close> is \<open>erase(k)\<close>.
\<close>

type_synonym ('k, 'v) omap = "('k \<times> 'v) list"

fun om_set :: "'k::linorder \<Rightarrow> 'v \<Rightarrow> ('k, 'v) omap \<Rightarrow> ('k, 'v) omap" where
  "om_set k v [] = [(k, v)]"
| "om_set k v (p # m) =
     (if k < fst p then (k, v) # p # m
      else if fst p < k then p # om_set k v m
      else (k, v) # m)"

definition om_emplace :: "'k::linorder \<Rightarrow> 'v \<Rightarrow> ('k, 'v) omap \<Rightarrow> ('k, 'v) omap" where
  "om_emplace k v m = (case map_of m k of None \<Rightarrow> om_set k v m | Some _ \<Rightarrow> m)"

definition om_erase :: "'k::linorder \<Rightarrow> ('k, 'v) omap \<Rightarrow> ('k, 'v) omap" where
  "om_erase k m = filter (\<lambda>p. fst p \<noteq> k) m"

definition om_wf :: "('k::linorder, 'v) omap \<Rightarrow> bool" where
  "om_wf m \<longleftrightarrow> sorted_wrt (<) (map fst m)"

lemma om_wf_Nil [simp, omap_simps]: "om_wf []"
  by (simp add: om_wf_def)

lemma om_wf_Cons: "om_wf (p # m) \<longleftrightarrow> (\<forall>q \<in> set m. fst p < fst q) \<and> om_wf m"
  by (auto simp: om_wf_def)

lemma om_wf_distinct: "om_wf m \<Longrightarrow> distinct (map fst m)"
  by (induction m) (auto simp: om_wf_Cons)

lemma set_om_set_keys: "fst ` set (om_set k v m) = insert k (fst ` set m)"
  by (induction m) auto

lemma om_set_values: "snd ` set (om_set k v m) \<subseteq> insert v (snd ` set m)"
  by (induction m) auto

lemma om_wf_set [omap_simps]: "om_wf m \<Longrightarrow> om_wf (om_set k v m)"
proof (induction m)
  case Nil
  show ?case by (simp add: om_wf_def)
next
  case (Cons p m)
  have "\<forall>q \<in> set (om_set k v m). fst q = k \<or> fst q \<in> fst ` set m"
    using set_om_set_keys[of k v m] by blast
  then show ?case using Cons by (fastforce simp: om_wf_Cons)
qed

lemma map_of_om_set [omap_simps]:
  "om_wf m \<Longrightarrow> map_of (om_set k v m) = (map_of m)(k \<mapsto> v)"
proof (induction m)
  case Nil
  show ?case by (auto simp: fun_eq_iff)
next
  case (Cons p m)
  then have "map_of m (fst p) = None"
    by (auto simp: om_wf_Cons map_of_eq_None_iff)
  with Cons show ?case
    by (cases p) (auto simp: om_wf_Cons fun_eq_iff)
qed

lemma map_of_om_set_same: "map_of (om_set k v m) k = Some v"
  by (induction m) auto

lemma set_om_set: "set (om_set k v m) \<subseteq> insert (k, v) (set m)"
  by (induction m) auto

lemma om_wf_emplace [omap_simps]: "om_wf m \<Longrightarrow> om_wf (om_emplace k v m)"
  by (auto simp: om_emplace_def om_wf_set split: option.splits)

lemma map_of_om_emplace [omap_simps]:
  "om_wf m \<Longrightarrow> map_of (om_emplace k v m) =
     (case map_of m k of None \<Rightarrow> (map_of m)(k \<mapsto> v) | Some _ \<Rightarrow> map_of m)"
  by (auto simp: om_emplace_def map_of_om_set split: option.splits)

lemma om_wf_erase [omap_simps]: "om_wf m \<Longrightarrow> om_wf (om_erase k m)"
  by (induction m) (auto simp: om_erase_def om_wf_Cons)

lemma map_of_om_erase [omap_simps]: "map_of (om_erase k m) = (map_of m)(k := None)"
  by (induction m) (auto simp: om_erase_def fun_eq_iff)

lemma om_erase_keys: "fst ` set (om_erase k m) = fst ` set m - {k}"
  by (auto simp: om_erase_def)

lemma om_set_snoc:
  "\<forall>q \<in> set m. fst q < k \<Longrightarrow> om_set k v m = m @ [(k, v)]"
  by (induction m) auto

lemma om_emplace_snoc:
  assumes "\<forall>q \<in> set m. fst q < k"
  shows "om_emplace k v m = m @ [(k, v)]"
proof -
  from assms have "map_of m k = None" by (auto simp: map_of_eq_None_iff)
  then show ?thesis using assms by (simp add: om_emplace_def om_set_snoc)
qed

lemma om_wf_append:
  "om_wf (m @ m') \<longleftrightarrow> om_wf m \<and> om_wf m' \<and> (\<forall>p \<in> set m. \<forall>q \<in> set m'. fst p < fst q)"
  by (auto simp: om_wf_def sorted_wrt_append)

text \<open>Two maps with the same bindings are the same object: iteration order is canonical.\<close>

lemma om_ext:
  assumes "om_wf m" and "om_wf m'" and "map_of m = map_of m'"
  shows "m = m'"
proof -
  have "set m = set m'"
    using assms by (metis om_wf_distinct map_of_is_SomeI map_of_SomeD subset_antisym subrelI)
  moreover have "sorted_wrt (\<lambda>p q. fst p < fst q) m" "sorted_wrt (\<lambda>p q. fst p < fst q) m'"
    using assms(1,2) by (simp_all add: om_wf_def sorted_wrt_map)
  ultimately show ?thesis
  proof (induction m arbitrary: m')
    case Nil
    then show ?case by simp
  next
    case (Cons p m)
    then obtain q n where m': "m' = q # n" by (cases m') auto
    have pq: "p = q"
    proof (rule ccontr)
      assume "p \<noteq> q"
      with Cons.prems m' have "p \<in> set n" "q \<in> set m" by auto
      with Cons.prems m' have "fst q < fst p" "fst p < fst q" by auto
      then show False by simp
    qed
    have "p \<notin> set m" "q \<notin> set n" using Cons.prems m' by auto
    with Cons.prems(1) m' pq have "set m = set n" by auto
    with Cons m' pq show ?case by simp
  qed
qed


subsection \<open>The interface the clients rely on\<close>

text \<open>
  What the components use of \<open>std::map\<close>, as a contract over an abstract map type: lookups
  after each update, and a validity predicate every update keeps. Building an object with a
  sequence of \<open>o[k] = v\<close> statements is derived once from the contract.
\<close>

locale std_map =
  fixes find :: "'m \<Rightarrow> 'k \<Rightarrow> 'v option"
    and assign :: "'k \<Rightarrow> 'v \<Rightarrow> 'm \<Rightarrow> 'm"
    and emplace :: "'k \<Rightarrow> 'v \<Rightarrow> 'm \<Rightarrow> 'm"
    and erase :: "'k \<Rightarrow> 'm \<Rightarrow> 'm"
    and valid :: "'m \<Rightarrow> bool"
  assumes find_assign: "valid m \<Longrightarrow> find (assign k v m) = (find m)(k \<mapsto> v)"
    and find_emplace: "valid m \<Longrightarrow> find (emplace k v m) =
          (case find m k of None \<Rightarrow> (find m)(k \<mapsto> v) | Some _ \<Rightarrow> find m)"
    and find_erase: "valid m \<Longrightarrow> find (erase k m) = (find m)(k := None)"
    and valid_assign: "valid m \<Longrightarrow> valid (assign k v m)"
    and valid_emplace: "valid m \<Longrightarrow> valid (emplace k v m)"
    and valid_erase: "valid m \<Longrightarrow> valid (erase k m)"
begin

lemma valid_assign_all: "valid m \<Longrightarrow> valid (fold (\<lambda>(k, v). assign k v) kvs m)"
  by (induction kvs arbitrary: m) (auto intro: valid_assign)

lemma find_assign_all:
  "valid m \<Longrightarrow> find (fold (\<lambda>(k, v). assign k v) kvs m) = find m ++ map_of (rev kvs)"
proof (induction kvs arbitrary: m)
  case Nil
  show ?case by simp
next
  case (Cons p kvs)
  then show ?case
    by (cases p) (simp add: valid_assign find_assign map_add_def fun_eq_iff split: option.split)
qed

lemma emplace_keeps: "valid m \<Longrightarrow> find m k = Some w \<Longrightarrow> find (emplace k v m) k = Some w"
  by (simp add: find_emplace)

lemma erase_assign: "valid m \<Longrightarrow> find (erase k (assign k v m)) = (find m)(k := None)"
  by (simp add: find_erase find_assign valid_assign)

end

interpretation om: std_map map_of om_set om_emplace om_erase om_wf
  by unfold_locales (simp_all add: omap_simps)

text \<open>The object built by the statements \<open>o[k1] = v1; o[k2] = v2; ...\<close> from an empty one.\<close>

definition obj_of :: "('k::linorder \<times> 'v) list \<Rightarrow> ('k, 'v) omap" where
  "obj_of kvs = fold (\<lambda>(k, v). om_set k v) kvs []"

lemma om_wf_obj_of [simp, omap_simps]: "om_wf (obj_of kvs)"
  by (simp add: obj_of_def om.valid_assign_all)

lemma map_of_obj_of [simp, omap_simps]: "map_of (obj_of kvs) = map_of (rev kvs)"
  by (simp add: obj_of_def om.find_assign_all)

lemma obj_of_empty_iff: "obj_of kvs = [] \<longleftrightarrow> kvs = []"
proof
  assume "obj_of kvs = []"
  then have "map_of (rev kvs) = Map.empty" by (metis map_of_obj_of map_of.simps(1))
  then show "kvs = []" by (simp add: map_of_eq_empty_iff)
qed (simp add: obj_of_def)

section \<open>std::string and <cctype>\<close>

abbreviation code_of :: "char \<Rightarrow> nat" where
  "code_of c \<equiv> of_char c"

definition isspace :: "char \<Rightarrow> bool" where
  "isspace c \<longleftrightarrow> (9 \<le> code_of c \<and> code_of c \<le> 13) \<or> code_of c = 32"

definition isdigit :: "char \<Rightarrow> bool" where
  "isdigit c \<longleftrightarrow> 48 \<le> code_of c \<and> code_of c \<le> 57"

definition toupper :: "char \<Rightarrow> char" where
  "toupper c = (if 97 \<le> code_of c \<and> code_of c \<le> 122 then char_of (code_of c - 32) else c)"

text \<open>\<open>s.find(pat) != std::string::npos\<close>, and \<open>s.rfind(pat, 0) == 0\<close>.\<close>

fun str_contains :: "string \<Rightarrow> string \<Rightarrow> bool" where
  "str_contains pat [] = (pat = [])"
| "str_contains pat (c # s) = (prefix pat (c # s) \<or> str_contains pat s)"

lemma str_contains_iff: "str_contains pat s \<longleftrightarrow> sublist pat s"
  by (induction s) (auto simp: sublist_Cons_right)

definition starts_with :: "string \<Rightarrow> string \<Rightarrow> bool" where
  "starts_with pat s \<longleftrightarrow> prefix pat s"

lemma dropWhile_Cons_shorter: "dropWhile P s = c # r \<Longrightarrow> length r < length s"
  using length_dropWhile_le[of P s] by simp

text \<open>
  The segments a loop \<open>while (std::getline(ss, seg, d))\<close> reads: a delimiter at the very end
  opens no further segment.
\<close>

function getlines :: "char \<Rightarrow> string \<Rightarrow> string list" where
  "getlines d s =
     (if s = [] then []
      else takeWhile (\<lambda>c. c \<noteq> d) s #
        (case dropWhile (\<lambda>c. c \<noteq> d) s of [] \<Rightarrow> [] | _ # rest \<Rightarrow> getlines d rest))"
  by pat_completeness auto
termination
  by (relation "measure (\<lambda>(d, s). length s)") (auto intro: dropWhile_Cons_shorter sym)

declare getlines.simps [simp del]

lemma getlines_one: "d \<notin> set s \<Longrightarrow> s \<noteq> [] \<Longrightarrow> getlines d s = [s]"
proof -
  assume d: "d \<notin> set s" and s: "s \<noteq> []"
  have dw: "dropWhile (\<lambda>c. c \<noteq> d) s = []" and tw: "takeWhile (\<lambda>c. c \<noteq> d) s = s"
    using d by (auto simp: takeWhile_eq_all_conv)
  show ?thesis using s by (subst getlines.simps) (simp add: dw tw)
qed

lemma getlines_Cons: "d \<notin> set s \<Longrightarrow> getlines d (s @ d # r) = s # getlines d r"
  by (subst getlines.simps) (auto simp: takeWhile_append dropWhile_append takeWhile_eq_all_conv)

text \<open>One \<open>ss >> word\<close>: skip white space, take what precedes the next white space.\<close>

definition extract_word :: "string \<Rightarrow> string \<times> string" where
  "extract_word s = (let t = dropWhile isspace s in
     (takeWhile (\<lambda>c. \<not> isspace c) t, dropWhile (\<lambda>c. \<not> isspace c) t))"

end
