(* ===== verification/Cpp_Numbers.thy ===== *)
theory Cpp_Numbers
  imports Complex_Main Prelude "HOL-Library.Word" "HOL-Library.Log_Nat"
begin

text \<open>
  Numbers as the sources read, print and convert them: positional numerals
  (\<open>std::to_string\<close>, \<open>std::hex\<close>), the integer readers of the standard library, and the
  IEEE binary64 \<open>double\<close> that carries every JSON number. A finite double is its sign and
  its magnitude as a rational number; reading decimal text rounds to the nearest value with 53
  significant bits, ties to even.
\<close>

section \<open>Numerals\<close>

definition digit_char :: "nat \<Rightarrow> char" where
  "digit_char d = char_of (if d < 10 then 48 + d else 55 + d)"

fun numeral_str :: "nat \<Rightarrow> nat \<Rightarrow> string" where
  "numeral_str b n =
     (if n < b \<or> b < 2 then [digit_char n] else numeral_str b (n div b) @ [digit_char (n mod b)])"

declare numeral_str.simps [simp del]

abbreviation dec_str :: "nat \<Rightarrow> string" where
  "dec_str \<equiv> numeral_str 10"

abbreviation hex_str :: "nat \<Rightarrow> string" where
  "hex_str \<equiv> numeral_str 16"

definition xdigit_val :: "char \<Rightarrow> nat option" where
  "xdigit_val c = (let n = code_of c in
     if 48 \<le> n \<and> n \<le> 57 then Some (n - 48)
     else if 97 \<le> n \<and> n \<le> 102 then Some (n - 87)
     else if 65 \<le> n \<and> n \<le> 70 then Some (n - 55)
     else None)"

definition isxdigit :: "char \<Rightarrow> bool" where
  "isxdigit c \<longleftrightarrow> xdigit_val c \<noteq> None"

text \<open>The value of a string of digits; every digit is one of its base.\<close>

definition digits_val :: "nat \<Rightarrow> string \<Rightarrow> nat" where
  "digits_val b ds = foldl (\<lambda>a c. a * b + the (xdigit_val c)) 0 ds"

lemma of_char_digit_char: "d < 16 \<Longrightarrow> code_of (digit_char d) = (if d < 10 then 48 + d else 55 + d)"
  by (simp add: digit_char_def)

lemma xdigit_val_digit_char: "d < 16 \<Longrightarrow> xdigit_val (digit_char d) = Some d"
  by (simp add: xdigit_val_def of_char_digit_char Let_def)

lemma isdigit_digit_char: "d < 10 \<Longrightarrow> isdigit (digit_char d)"
  by (simp add: isdigit_def of_char_digit_char)

lemma isxdigit_digit_char: "d < 16 \<Longrightarrow> isxdigit (digit_char d)"
  by (simp add: isxdigit_def xdigit_val_digit_char)

lemma numeral_str_nonempty [simp]: "numeral_str b n \<noteq> []"
  by (subst numeral_str.simps) simp

lemma digits_val_snoc: "digits_val b (ds @ [c]) = digits_val b ds * b + the (xdigit_val c)"
  by (simp add: digits_val_def)

lemma digits_val_numeral_str:
  assumes "2 \<le> b" "b \<le> 16"
  shows "digits_val b (numeral_str b n) = n"
  using assms
proof (induction b n rule: numeral_str.induct)
  case (1 b n)
  show ?case
  proof (cases "n < b")
    case True
    with 1 show ?thesis
      by (simp add: numeral_str.simps[of b n] digits_val_def xdigit_val_digit_char)
  next
    case False
    with 1 have IH: "digits_val b (numeral_str b (n div b)) = n div b" by simp
    have "n mod b < b" using 1 by simp
    then have "n mod b < 16" using 1 by linarith
    with False 1 IH show ?thesis
      by (simp add: numeral_str.simps[of b n] digits_val_snoc xdigit_val_digit_char)
  qed
qed

lemma numeral_str_digits:
  assumes "2 \<le> b" "b \<le> 16" "c \<in> set (numeral_str b n)"
  shows "\<exists>d < b. c = digit_char d"
  using assms
proof (induction b n rule: numeral_str.induct)
  case (1 b n)
  have "\<exists>d < b. digit_char (n mod b) = digit_char d"
    using 1 by (intro exI[of _ "n mod b"]) simp
  with 1 show ?case
    by (cases "n < b") (auto simp: numeral_str.simps[of b n])
qed

lemma dec_str_isdigit: "c \<in> set (dec_str n) \<Longrightarrow> isdigit c"
  using numeral_str_digits[of 10 c n] isdigit_digit_char by auto

lemma hex_str_isxdigit: "c \<in> set (hex_str n) \<Longrightarrow> isxdigit c"
  using numeral_str_digits[of 16 c n] isxdigit_digit_char by auto

text \<open>A numeral starts with the digit zero only for the number zero.\<close>

lemma hd_numeral_str:
  assumes "2 \<le> b" "b \<le> 16" "0 < n"
  shows "hd (numeral_str b n) \<noteq> digit_char 0"
  using assms
proof (induction b n rule: numeral_str.induct)
  case (1 b n)
  show ?case
  proof (cases "n < b")
    case True
    then have "n < 16" using 1 by simp
    then have "digit_char n \<noteq> digit_char 0"
      using 1 xdigit_val_digit_char[of n] xdigit_val_digit_char[of 0] by auto
    then show ?thesis using True by (simp add: numeral_str.simps[of b n])
  next
    case False
    with 1 have "0 < n div b" by (simp add: div_greater_zero_iff)
    with False 1 have "hd (numeral_str b (n div b)) \<noteq> digit_char 0" by simp
    with False 1 show ?thesis by (simp add: numeral_str.simps[of b n])
  qed
qed

text \<open>\<open>std::to_string\<close> of an unsigned and of a signed integer.\<close>

definition to_string_nat :: "nat \<Rightarrow> string" where
  "to_string_nat n = dec_str n"

definition to_string_int :: "int \<Rightarrow> string" where
  "to_string_int i = (if i < 0 then CHR ''-'' # dec_str (nat (- i)) else dec_str (nat i))"

lemma dec_str_inject: "dec_str m = dec_str n \<Longrightarrow> m = n"
  by (drule arg_cong[where f = "digits_val 10"]) (simp add: digits_val_numeral_str)

section \<open>Integer readers\<close>

text \<open>
  \<open>std::stoi\<close>: leading white space, an optional sign, decimal digits; what follows the
  digits is ignored. No digit at all is \<open>std::invalid_argument\<close>, a value outside
  \<open>int\<close> is \<open>std::out_of_range\<close>.
\<close>

definition read_sign :: "string \<Rightarrow> bool \<times> string" where
  "read_sign s = (case s of
     c # t \<Rightarrow> if c = CHR ''-'' then (True, t) else if c = CHR ''+'' then (False, t) else (False, s)
   | [] \<Rightarrow> (False, s))"

definition stoi :: "string \<Rightarrow> int res" where
  "stoi s =
     (let (neg, t) = read_sign (dropWhile isspace s);
          ds = takeWhile isdigit t;
          n = int (digits_val 10 ds);
          v = (if neg then - n else n)
      in if ds = [] then Throw (InvalidArgument ''stoi'')
         else if v < - (2 ^ 31) \<or> 2 ^ 31 \<le> v then Throw (OutOfRange ''stoi'')
         else Ok v)"

text \<open>
  \<open>ss >> std::hex >> v\<close> into a \<open>std::uint64_t\<close>: white space, an optional sign, an
  optional \<open>0x\<close>, hexadecimal digits; the stream fails when there is no digit or the value
  needs more than 64 bits, and a minus sign negates modulo \<open>2 ^ 64\<close>.
\<close>

definition skip_hex_prefix :: "string \<Rightarrow> string" where
  "skip_hex_prefix s = (case s of
     c # x # t \<Rightarrow> if c = CHR ''0'' \<and> (x = CHR ''x'' \<or> x = CHR ''X'') then t else s
   | _ \<Rightarrow> s)"

definition extract_hex_u64 :: "string \<Rightarrow> 64 word option" where
  "extract_hex_u64 s =
     (let (neg, t) = read_sign (dropWhile isspace s);
          ds = takeWhile isxdigit (skip_hex_prefix t);
          n = digits_val 16 ds
      in if ds = [] \<or> 2 ^ 64 \<le> n then None
         else Some (if neg then - of_nat n else of_nat n))"

lemma isxdigit_not_special:
  "isxdigit c \<Longrightarrow> c \<noteq> CHR ''-'' \<and> c \<noteq> CHR ''+'' \<and> c \<noteq> CHR ''x'' \<and> c \<noteq> CHR ''X'' \<and> \<not> isspace c"
  by (auto simp: isxdigit_def xdigit_val_def isspace_def Let_def split: if_splits)

lemma extract_hex_u64_hex_str: "extract_hex_u64 (hex_str (unat (w :: 64 word))) = Some w"
proof -
  let ?s = "hex_str (unat w)"
  have x: "\<forall>c \<in> set ?s. isxdigit c" using hex_str_isxdigit by blast
  then have tw: "takeWhile isxdigit ?s = ?s" by (simp add: takeWhile_eq_all_conv)
  obtain c t where s: "?s = c # t" by (cases ?s) auto
  have "dropWhile isspace ?s = ?s"
    using s x isxdigit_not_special by (auto simp: dropWhile_eq_self_iff)
  moreover have "read_sign ?s = (False, ?s)"
    using s x isxdigit_not_special by (auto simp: read_sign_def)
  moreover have "skip_hex_prefix ?s = ?s"
    using x isxdigit_not_special by (force simp: skip_hex_prefix_def split: list.splits)
  moreover have "digits_val 16 ?s = unat w" by (simp add: digits_val_numeral_str)
  moreover have "unat w < 2 ^ LENGTH(64)" by (rule unsigned_less)
  ultimately show ?thesis by (simp add: extract_hex_u64_def Let_def tw)
qed


section \<open>double\<close>

datatype double = Double (dneg: bool) (dmag: rat)

text \<open>The exponent of the leading bit of a positive rational: \<open>2 ^ e \<le> x < 2 ^ (e + 1)\<close>.\<close>

definition ilog2 :: "rat \<Rightarrow> int" where
  "ilog2 x = (let (p, q) = quotient_of x; k = bitlen p - bitlen q
     in if 2 powi k \<le> x then k else k - 1)"

definition round_half_even :: "rat \<Rightarrow> int" where
  "round_half_even x = (let f = \<lfloor>x\<rfloor>; d = x - of_int f
     in if d < 1 / 2 then f else if 1 / 2 < d then f + 1 else if even f then f else f + 1)"

text \<open>The spacing of binary64 values around \<open>x\<close>, and the nearest of them.\<close>

definition ulp64 :: "rat \<Rightarrow> rat" where
  "ulp64 x = 2 powi (max (ilog2 x - 52) (- 1074))"

definition rnd64 :: "rat \<Rightarrow> rat" where
  "rnd64 x = (if x = 0 then 0 else of_int (round_half_even (x / ulp64 x)) * ulp64 x)"

text \<open>The first power of two beyond the finite doubles.\<close>

definition double_limit :: rat where
  "double_limit = 2 ^ 1024"

definition wf_double :: "double \<Rightarrow> bool" where
  "wf_double d \<longleftrightarrow> 0 \<le> dmag d \<and> dmag d < double_limit \<and> rnd64 (dmag d) = dmag d"

definition integral :: "double \<Rightarrow> bool" where
  "integral d \<longleftrightarrow> dmag d \<in> \<int>"

text \<open>\<open>(double)i\<close> for an integer of any of the widths the sources convert.\<close>

definition double_of_int :: "int \<Rightarrow> double" where
  "double_of_int i = Double (i < 0) (rnd64 (of_int \<bar>i\<bar>))"

text \<open>
  A cast from \<open>double\<close> to an integer type truncates towards zero, and is undefined behaviour
  when the truncated value does not fit the type.
\<close>

definition dtrunc :: "double \<Rightarrow> int" where
  "dtrunc d = (if dneg d then - \<lfloor>dmag d\<rfloor> else \<lfloor>dmag d\<rfloor>)"

definition cast_range :: "int \<Rightarrow> int \<Rightarrow> double \<Rightarrow> int option" where
  "cast_range lo hi d = (if lo \<le> dtrunc d \<and> dtrunc d \<le> hi then Some (dtrunc d) else None)"

definition cast_int :: "double \<Rightarrow> int option" where
  "cast_int = cast_range (- (2 ^ 31)) (2 ^ 31 - 1)"

definition cast_llong :: "double \<Rightarrow> int option" where
  "cast_llong = cast_range (- (2 ^ 63)) (2 ^ 63 - 1)"

definition cast_u8 :: "double \<Rightarrow> 8 word option" where
  "cast_u8 d = map_option of_int (cast_range 0 (2 ^ 8 - 1) d)"

definition cast_u32 :: "double \<Rightarrow> 32 word option" where
  "cast_u32 d = map_option of_int (cast_range 0 (2 ^ 32 - 1) d)"

definition cast_u64 :: "double \<Rightarrow> 64 word option" where
  "cast_u64 d = map_option of_int (cast_range 0 (2 ^ 64 - 1) d)"

subsection \<open>Rounding\<close>

lemma bitlen_bounds_rat:
  assumes "0 < p"
  shows "2 powi (bitlen p - 1) \<le> (of_int p :: rat)" and "(of_int p :: rat) < 2 powi (bitlen p)"
proof -
  have b: "0 < bitlen p" using assms bitlen_nonneg[of p] bitlen_eq_zero_iff[of p] by linarith
  from bitlen_bounds[OF assms] have "2 ^ nat (bitlen p - 1) \<le> p" "p < 2 ^ nat (bitlen p)"
    by auto
  then have "(2 :: rat) ^ nat (bitlen p - 1) \<le> of_int p" "(of_int p :: rat) < 2 ^ nat (bitlen p)"
    by (metis of_int_le_iff of_int_numeral of_int_power, metis of_int_less_iff of_int_numeral of_int_power)
  then show "2 powi (bitlen p - 1) \<le> (of_int p :: rat)" and "(of_int p :: rat) < 2 powi (bitlen p)"
    using b by (simp_all add: power_int_def)
qed

lemma ilog2_bounds:
  assumes "0 < x"
  shows "2 powi (ilog2 x) \<le> x" and "x < 2 powi (ilog2 x + 1)"
proof -
  obtain p q where pq: "quotient_of x = (p, q)" by fastforce
  from pq have q: "0 < q" by (rule quotient_of_denom_pos)
  from pq have x: "x = of_int p / of_int q" by (rule quotient_of_div)
  with assms q have p: "0 < p" by (simp add: zero_less_divide_iff)
  let ?k = "bitlen p - bitlen q"
  have "x < 2 powi (bitlen p) / 2 powi (bitlen q - 1)"
    unfolding x using p bitlen_bounds_rat[OF p] bitlen_bounds_rat[OF q]
    by (intro frac_less) auto
  also have "\<dots> = 2 powi (?k + 1)" by (simp flip: power_int_diff add: algebra_simps)
  finally have u: "x < 2 powi (?k + 1)" .
  have "(2 :: rat) powi (?k - 1) = 2 powi (bitlen p - 1 - bitlen q)"
    by (simp add: algebra_simps)
  also have "\<dots> = 2 powi (bitlen p - 1) / 2 powi (bitlen q)" by (simp add: power_int_diff)
  also have "\<dots> \<le> x"
    unfolding x using p q bitlen_bounds_rat[OF p] bitlen_bounds_rat[OF q]
    by (intro frac_le) auto
  finally have l: "2 powi (?k - 1) \<le> x" .
  show "2 powi (ilog2 x) \<le> x" "x < 2 powi (ilog2 x + 1)"
    using u l by (auto simp: ilog2_def pq Let_def)
qed

lemma powi_split: "u \<le> e \<Longrightarrow> (2 :: rat) powi e = of_int (2 ^ nat (e - u)) * 2 powi u"
  using power_int_add[of "2 :: rat" "e - u" u] by (simp add: power_int_def[of 2 "e - u"])

lemma round_half_even_of_int [simp]: "round_half_even (of_int k) = k"
  by (simp add: round_half_even_def)

lemma round_half_even_nonneg: "0 \<le> x \<Longrightarrow> 0 \<le> round_half_even x"
  by (auto simp: round_half_even_def Let_def)

lemma round_half_even_le: "x \<le> of_int n \<Longrightarrow> round_half_even x \<le> n"
proof -
  assume a: "x \<le> of_int n"
  then have f: "\<lfloor>x\<rfloor> \<le> n" by linarith
  show ?thesis
  proof (cases "\<lfloor>x\<rfloor> = n")
    case True
    then have "x = of_int n" using a by linarith
    then show ?thesis by simp
  next
    case False
    with f show ?thesis by (auto simp: round_half_even_def Let_def)
  qed
qed

lemma ulp64_pos [simp]: "0 < ulp64 x"
  by (simp add: ulp64_def)

text \<open>A value with at most 53 significant bits is its own rounding.\<close>

lemma rnd64_exact:
  assumes "0 \<le> k" "k \<le> 2 ^ 53" "- 1074 \<le> e"
  shows "rnd64 (of_int k * 2 powi e) = of_int k * 2 powi e"
proof (cases "k = 0")
  case True
  then show ?thesis by (simp add: rnd64_def)
next
  case False
  define x :: rat where "x = of_int k * 2 powi e"
  have x0: "0 < x" using False assms by (simp add: x_def)
  have k53: "of_int k \<le> (2 :: rat) ^ 53"
    using assms(2) by (metis of_int_le_iff of_int_numeral of_int_power)
  define u where "u = max (ilog2 x - 52) (- 1074)"
  have "\<exists>n. x = of_int n * 2 powi u"
  proof (cases "u \<le> e")
    case True
    then have "x = of_int (k * 2 ^ nat (e - u)) * 2 powi u"
      unfolding x_def by (simp add: powi_split[of u e] mult.assoc)
    then show ?thesis by blast
  next
    case False
    with assms(3) have "e < ilog2 x - 52" by (simp add: u_def)
    then have "e + 53 \<le> ilog2 x" by simp
    then have "2 powi (e + 53) \<le> (2 :: rat) powi (ilog2 x)" by (simp add: power_int_increasing)
    also have "\<dots> \<le> x" by (rule ilog2_bounds[OF x0])
    finally have "2 powi (e + 53) \<le> x" .
    moreover have "x \<le> 2 ^ 53 * 2 powi e"
      unfolding x_def using k53 by (intro mult_right_mono) simp_all
    moreover have "(2 :: rat) ^ 53 * 2 powi e = 2 powi (e + 53)" by (simp add: power_int_add)
    ultimately have x2: "x = 2 powi (e + 53)" by simp
    have "u \<le> e + 53"
    proof -
      have "(2 :: rat) powi (ilog2 x) \<le> 2 powi (e + 53)" using ilog2_bounds(1)[OF x0] x2 by simp
      then have "ilog2 x \<le> e + 53"
        using power_int_strict_increasing[of "e + 53" "ilog2 x" "2 :: rat"] by force
      then show ?thesis using assms(3) by (simp add: u_def)
    qed
    then have "x = of_int (2 ^ nat (e + 53 - u)) * 2 powi u"
      unfolding x2 by (rule powi_split)
    then show ?thesis by blast
  qed
  then obtain n where n: "x = of_int n * 2 powi u" by blast
  have "ulp64 x = 2 powi u" by (simp add: ulp64_def u_def)
  with n x0 show ?thesis by (simp add: rnd64_def flip: x_def)
qed


lemma rnd64_cases:
  assumes "0 < x"
  obtains k e where "0 \<le> k" "k \<le> 2 ^ 53" "- 1074 \<le> e" "rnd64 x = of_int k * 2 powi e"
    "ulp64 x = 2 powi e" "k = round_half_even (x / 2 powi e)"
proof -
  define e where "e = max (ilog2 x - 52) (- 1074)"
  define k where "k = round_half_even (x / 2 powi e)"
  have "x < 2 powi (ilog2 x + 1)" by (rule ilog2_bounds[OF assms])
  also have "\<dots> \<le> 2 powi (53 + e)" by (intro power_int_increasing) (auto simp: e_def)
  also have "\<dots> = of_int (2 ^ 53) * 2 powi e" by (simp add: power_int_add)
  finally have "x / 2 powi e \<le> of_int (2 ^ 53)" by (simp add: divide_le_eq)
  then have "k \<le> 2 ^ 53" unfolding k_def by (rule round_half_even_le)
  moreover have "0 \<le> k" unfolding k_def using assms by (intro round_half_even_nonneg) simp
  moreover have "rnd64 x = of_int k * 2 powi e"
    using assms by (simp add: rnd64_def ulp64_def k_def e_def)
  ultimately show ?thesis using that[of k e] by (simp add: e_def k_def ulp64_def)
qed

lemma rnd64_idem: "0 \<le> x \<Longrightarrow> rnd64 (rnd64 x) = rnd64 x"
proof (cases "x = 0")
  case True
  then show ?thesis by (simp add: rnd64_def)
next
  case False
  assume "0 \<le> x"
  with False have "0 < x" by simp
  then show ?thesis by (rule rnd64_cases) (simp add: rnd64_exact)
qed

lemma rnd64_nonneg: "0 \<le> x \<Longrightarrow> 0 \<le> rnd64 x"
  using ulp64_pos[of x]
  by (cases "x = 0") (auto simp: rnd64_def less_imp_le intro!: mult_nonneg_nonneg round_half_even_nonneg)

lemma rnd64_int_exact:
  assumes "0 \<le> k" "k \<le> 2 ^ 53"
  shows "rnd64 (of_int k) = of_int k"
  using rnd64_exact[OF assms, of 0] by simp

text \<open>Rounding an integer gives an integer: above \<open>2 ^ 53\<close> the spacing is a power of two.\<close>

lemma rnd64_int_in_Ints:
  assumes "0 \<le> k"
  shows "rnd64 (of_int k) \<in> \<int>"
proof (cases "k \<le> 2 ^ 53")
  case True
  with assms show ?thesis by (simp add: rnd64_int_exact)
next
  case False
  then have k0: "0 < (of_int k :: rat)" by simp
  define e where "e = ilog2 (of_int k)"
  have "2 ^ 53 < (of_int k :: rat)" using False by (metis not_le of_int_less_iff of_int_numeral of_int_power)
  also have "\<dots> < 2 powi (e + 1)" unfolding e_def by (rule ilog2_bounds[OF k0])
  finally have "(2 :: rat) powi 53 < 2 powi (e + 1)" by simp
  then have "53 < e + 1"
    using power_int_increasing[of "e + 1" 53 "2 :: rat"] by force
  then have "ulp64 (of_int k) = 2 ^ nat (e - 52)"
    by (simp add: ulp64_def power_int_def flip: e_def)
  then show ?thesis using k0 by (simp add: rnd64_def)
qed

lemma integral_double_of_int [simp]: "integral (double_of_int i)"
  by (simp add: integral_def double_of_int_def rnd64_int_in_Ints flip: of_int_abs)

lemma rnd64_le_pow2:
  assumes "0 < x" "x \<le> 2 powi n" "- 1074 \<le> n"
  shows "rnd64 x \<le> 2 powi n"
  using assms(1)
proof (rule rnd64_cases)
  fix k e assume ke: "k \<le> 2 ^ 53" "rnd64 x = of_int k * 2 powi e" "k = round_half_even (x / 2 powi e)"
    "ulp64 x = 2 powi e"
  show ?thesis
  proof (cases "e \<le> n")
    case True
    have "x / 2 powi e \<le> of_int (2 ^ nat (n - e))"
      using assms(2) powi_split[OF True] by (simp add: divide_le_eq)
    then have "k \<le> 2 ^ nat (n - e)" unfolding ke(3) by (rule round_half_even_le)
    then have "of_int k * 2 powi e \<le> of_int (2 ^ nat (n - e)) * (2 :: rat) powi e"
      by (intro mult_right_mono) (simp_all only: of_int_le_iff zero_le_power_int)
    then show ?thesis using ke(2) powi_split[OF True] by simp
  next
    case False
    have "2 powi (ilog2 x) \<le> x" by (rule ilog2_bounds[OF assms(1)])
    with assms(2) have "(2 :: rat) powi (ilog2 x) \<le> 2 powi n" by simp
    then have "ilog2 x \<le> n"
      using power_int_strict_increasing[of n "ilog2 x" "2 :: rat"] by force
    moreover have "e = max (ilog2 x - 52) (- 1074)"
      using ke(4) unfolding ulp64_def
      by (metis less_irrefl linorder_neqE one_less_numeral_iff power_int_strict_increasing semiring_norm(76))
    ultimately show ?thesis using False assms(3) by simp
  qed
qed

lemma wf_double_of_int:
  assumes "\<bar>i\<bar> \<le> 2 ^ 64"
  shows "wf_double (double_of_int i)"
proof -
  let ?x = "of_int \<bar>i\<bar> :: rat"
  have "rnd64 ?x \<le> 2 ^ 64"
  proof (cases "i = 0")
    case False
    have "?x \<le> 2 ^ 64" using assms by (metis of_int_le_iff of_int_numeral of_int_power)
    then show ?thesis using rnd64_le_pow2[of ?x 64] False by simp
  qed (simp add: rnd64_def)
  also have "(2 :: rat) ^ 64 < double_limit"
    unfolding double_limit_def by (rule power_strict_increasing) simp_all
  finally show ?thesis
    by (simp add: wf_double_def double_of_int_def rnd64_nonneg rnd64_idem)
qed

lemma dtrunc_double_of_int:
  assumes "\<bar>i\<bar> \<le> 2 ^ 53"
  shows "dtrunc (double_of_int i) = i"
  using rnd64_int_exact[of "\<bar>i\<bar>"] assms by (simp add: dtrunc_def double_of_int_def)


section \<open>Reading and printing a double\<close>

text \<open>
  \<open>std::stod\<close> on decimal text: white space, sign, digits with an optional fraction, an
  optional exponent; what follows is ignored. The exact decimal value is rounded once. A
  result beyond the largest finite double, or a subnormal result that is not exact, is
  \<open>std::out_of_range\<close> (the C library reports \<open>ERANGE\<close>). The text a JSON number consists
  of never spells an infinity, a NaN or a hexadecimal float.
\<close>

definition read_exponent :: "string \<Rightarrow> int" where
  "read_exponent s = (case s of
     c # t \<Rightarrow> (if c = CHR ''e'' \<or> c = CHR ''E''
       then (let (neg, u) = read_sign t; n = int (digits_val 10 (takeWhile isdigit u))
             in if neg then - n else n)
       else 0)
   | [] \<Rightarrow> 0)"

definition split_fraction :: "string \<Rightarrow> string \<times> string" where
  "split_fraction s = (case s of
     c # t \<Rightarrow> (if c = CHR ''.'' then (takeWhile isdigit t, dropWhile isdigit t) else ([], s))
   | [] \<Rightarrow> ([], s))"

definition stod :: "string \<Rightarrow> double res" where
  "stod s =
     (let (neg, t) = read_sign (dropWhile isspace s);
          ip = takeWhile isdigit t;
          (fp, u) = split_fraction (dropWhile isdigit t);
          x = of_nat (digits_val 10 (ip @ fp)) * 10 powi (read_exponent u - int (length fp));
          r = rnd64 x
      in if ip @ fp = [] then Throw (InvalidArgument ''stod'')
         else if double_limit \<le> r \<or> (x \<noteq> 0 \<and> x < 2 powi (- 1022) \<and> r \<noteq> x)
              then Throw (OutOfRange ''stod'')
         else Ok (Double neg r))"

text \<open>
  \<open>std::to_string(double)\<close>, that is \<open>printf("%f")\<close>: six digits after the point, the
  exact value rounded to the nearest, ties to even.
\<close>

definition pad_left :: "nat \<Rightarrow> string \<Rightarrow> string" where
  "pad_left w s = replicate (w - length s) (CHR ''0'') @ s"

definition to_string_double :: "double \<Rightarrow> string" where
  "to_string_double d =
     (let n = nat (round_half_even (dmag d * 10 ^ 6))
      in (if dneg d then ''-'' else []) @ dec_str (n div 10 ^ 6) @ ''.'' @
         pad_left 6 (dec_str (n mod 10 ^ 6)))"

lemma integral_nat:
  assumes "wf_double d" "integral d"
  obtains n where "dmag d = of_nat n"
proof -
  from assms(2) obtain i where i: "dmag d = of_int i" by (auto simp: integral_def elim: Ints_cases)
  with assms(1) have "0 \<le> i" by (simp add: wf_double_def)
  with i have "dmag d = of_nat (nat i)" by simp
  then show ?thesis by (rule that)
qed

lemma to_string_integral:
  assumes "dmag d = of_nat n"
  shows "to_string_double d = (if dneg d then ''-'' else []) @ dec_str n @ ''.000000''"
proof -
  have "dmag d * 10 ^ 6 = of_int (int (n * 10 ^ 6))" using assms by simp
  then have "nat (round_half_even (dmag d * 10 ^ 6)) = n * 10 ^ 6"
    by (simp only: round_half_even_of_int nat_int)
  moreover have "pad_left 6 (dec_str 0) = ''000000''"
    by code_simp
  ultimately show ?thesis by (simp add: to_string_double_def)
qed

text \<open>Decimal digits read back as the number they print.\<close>

lemma isdigit_not_special:
  "isdigit c \<Longrightarrow> c \<noteq> CHR ''-'' \<and> c \<noteq> CHR ''+'' \<and> c \<noteq> CHR ''.'' \<and> \<not> isspace c"
  by (auto simp: isdigit_def isspace_def)

lemma takeWhile_dec_str:
  assumes "rest = [] \<or> \<not> isdigit (hd rest)"
  shows "takeWhile isdigit (dec_str n @ rest) = dec_str n"
    and "dropWhile isdigit (dec_str n @ rest) = rest"
  using assms dec_str_isdigit[of _ n] by (cases rest; simp add: takeWhile_append dropWhile_append)+

text \<open>Reading back a printed \<open>int\<close>.\<close>

lemma read_sign_to_string: "read_sign (dropWhile isspace (to_string_int v)) = (v < 0, dec_str (nat \<bar>v\<bar>))"
proof (cases "v < 0")
  case True
  then show ?thesis by (simp add: to_string_int_def read_sign_def isspace_def)
next
  case False
  obtain c r where s: "dec_str (nat v) = c # r" by (cases "dec_str (nat v)") auto
  then have "isdigit c" using dec_str_isdigit[of c "nat v"] by simp
  then show ?thesis using False isdigit_not_special[of c] s by (simp add: to_string_int_def read_sign_def)
qed

lemma takeWhile_dec_str_all [simp]: "takeWhile isdigit (dec_str n) = dec_str n"
  using takeWhile_dec_str[of "[]" n] by simp

lemma stoi_to_string:
  assumes "- (2 ^ 31) \<le> v" "v < 2 ^ 31"
  shows "stoi (to_string_int v) = Ok v"
  using assms by (auto simp: stoi_def read_sign_to_string digits_val_numeral_str Let_def)

lemma stod_integral:
  assumes "wf_double d" "dmag d = of_nat n"
  shows "stod ((if dneg d then ''-'' else []) @ dec_str n) = Ok d"
proof -
  obtain c t where ct: "dec_str n = c # t" by (cases "dec_str n") auto
  have c: "isdigit c" using ct dec_str_isdigit[of c n] by simp
  have sp: "dropWhile isspace ((if dneg d then ''-'' else []) @ dec_str n) =
      (if dneg d then ''-'' else []) @ dec_str n"
    using isdigit_not_special[OF c] by (auto simp: ct isspace_def)
  have sg: "read_sign ((if dneg d then ''-'' else []) @ dec_str n) = (dneg d, dec_str n)"
    using isdigit_not_special[OF c] by (simp add: ct read_sign_def)
  have "rnd64 (of_nat n) = of_nat n" "(of_nat n :: rat) < double_limit"
    using assms by (simp_all add: wf_double_def)
  moreover have "Double (dneg d) (of_nat n) = d" using assms(2) by (cases d) simp
  moreover have dg: "takeWhile isdigit (dec_str n) = dec_str n" "dropWhile isdigit (dec_str n) = []"
    using takeWhile_dec_str[of "[]" n] by simp_all
  ultimately show ?thesis
    by (simp add: stod_def sp sg dg split_fraction_def read_exponent_def digits_val_numeral_str)
qed

end
