(* ===== verification/Tinyjson.thy ===== *)
theory Tinyjson
  imports Cpp_Numbers
begin

text \<open>
  The JSON library \<open>core/include/wininspect/tinyjson.hpp\<close>: the value type, the recursive
  descent parser and the serializer. The parser's state (the text and the index \<open>i_\<close>) is the
  text that remains. An object is an ordered map, as \<open>std::map<std::string, Value>\<close> is, so
  its keys are in byte order and a repeated key keeps its first value.

  Shown here: the parser is total (it returns or throws on every text), it never returns a value
  with an ill-formed object, and it reads back what the serializer writes.
\<close>

section \<open>Values\<close>

datatype Value =
    Null
  | Bool bool
  | Num double
  | Str string
  | Arr "Value list"
  | Obj "(string \<times> Value) list"

type_synonym Object = "(string, Value) omap"

abbreviation bad_get :: exn where
  "bad_get \<equiv> BadVariantAccess ''std::get: wrong index for variant''"

abbreviation bad_at :: exn where
  "bad_at \<equiv> OutOfRange ''map::at''"

definition as_obj :: "Value \<Rightarrow> Object res" where
  "as_obj v = (case v of Obj o' \<Rightarrow> Ok o' | _ \<Rightarrow> Throw bad_get)"

definition as_arr :: "Value \<Rightarrow> Value list res" where
  "as_arr v = (case v of Arr a \<Rightarrow> Ok a | _ \<Rightarrow> Throw bad_get)"

definition as_str :: "Value \<Rightarrow> string res" where
  "as_str v = (case v of Str s \<Rightarrow> Ok s | _ \<Rightarrow> Throw bad_get)"

definition as_num :: "Value \<Rightarrow> double res" where
  "as_num v = (case v of Num d \<Rightarrow> Ok d | _ \<Rightarrow> Throw bad_get)"

definition as_bool :: "Value \<Rightarrow> bool res" where
  "as_bool v = (case v of Bool b \<Rightarrow> Ok b | _ \<Rightarrow> Throw bad_get)"

text \<open>\<open>o.at(k)\<close>.\<close>

definition obj_at :: "Object \<Rightarrow> string \<Rightarrow> Value res" where
  "obj_at o' k = (case map_of o' k of Some v \<Rightarrow> Ok v | None \<Rightarrow> Throw bad_at)"

text \<open>Every object in the value is in key order, as a \<open>std::map\<close> always is.\<close>

fun wf_value :: "Value \<Rightarrow> bool" where
  "wf_value (Arr vs) = (\<forall>v \<in> set vs. wf_value v)"
| "wf_value (Obj kvs) = (om_wf kvs \<and> (\<forall>p \<in> set kvs. wf_value (snd p)))"
| "wf_value (Num d) = wf_double d"
| "wf_value _ = True"

section \<open>The parser\<close>

abbreviation dquote :: char where "dquote \<equiv> CHR 0x22"
abbreviation backslash :: char where "backslash \<equiv> CHR 0x5C"

definition skip_ws :: "string \<Rightarrow> string" where
  "skip_ws s = dropWhile isspace s"

definition peek :: "string \<Rightarrow> char" where
  "peek s = (case s of [] \<Rightarrow> CHR 0x00 | c # _ \<Rightarrow> c)"

definition get :: "string \<Rightarrow> (char \<times> string) res" where
  "get s = (case s of [] \<Rightarrow> Throw (ParseError ''unexpected end'') | c # t \<Rightarrow> Ok (c, t))"

definition hexval :: "char \<Rightarrow> int" where
  "hexval c = (let n = code_of c in
     if 48 \<le> n \<and> n \<le> 57 then int n - 48
     else if 97 \<le> n \<and> n \<le> 102 then 10 + (int n - 97)
     else if 65 \<le> n \<and> n \<le> 70 then 10 + (int n - 65)
     else - 1)"

text \<open>
  The UTF-8 bytes of a code unit below \<open>2 ^ 16\<close>. The bits the source combines with \<open>|\<close>
  never overlap, so they are added here.
\<close>

definition utf8_bmp :: "nat \<Rightarrow> string" where
  "utf8_bmp code =
     (if code < 0x80 then [char_of code]
      else if code < 0x800 then [char_of (0xC0 + code div 64), char_of (0x80 + code mod 64)]
      else [char_of (0xE0 + code div 4096), char_of (0x80 + (code div 64) mod 64),
            char_of (0x80 + code mod 64)])"

definition parse_unicode :: "string \<Rightarrow> (string \<times> string) res" where
  "parse_unicode s =
     rthen (get s) (\<lambda>(c1, s1). rthen (get s1) (\<lambda>(c2, s2).
     rthen (get s2) (\<lambda>(c3, s3). rthen (get s3) (\<lambda>(c4, s4).
       let h1 = hexval c1; h2 = hexval c2; h3 = hexval c3; h4 = hexval c4 in
       if h1 < 0 \<or> h2 < 0 \<or> h3 < 0 \<or> h4 < 0 then Throw (ParseError ''bad unicode escape'')
       else Ok (utf8_bmp (nat (h1 * 4096 + h2 * 256 + h3 * 16 + h4)), s4)))))"

text \<open>What follows a backslash: the bytes it stands for, and the text after it.\<close>

definition parse_escape :: "string \<Rightarrow> (string \<times> string) res" where
  "parse_escape s = rthen (get s) (\<lambda>(e, t).
     if e = dquote then Ok ([dquote], t)
     else if e = backslash then Ok ([backslash], t)
     else if e = CHR ''/'' then Ok (''/'', t)
     else if e = CHR ''b'' then Ok ([CHR 0x08], t)
     else if e = CHR ''f'' then Ok ([CHR 0x0C], t)
     else if e = CHR ''n'' then Ok ([CHR 0x0A], t)
     else if e = CHR ''r'' then Ok ([CHR 0x0D], t)
     else if e = CHR ''t'' then Ok ([CHR 0x09], t)
     else if e = CHR ''u'' then parse_unicode t
     else Throw (ParseError ''bad escape''))"

lemma get_Ok [simp]: "get s = Ok (c, t) \<longleftrightarrow> s = c # t"
  by (cases s) (auto simp: get_def)

lemma get_simps [simp]:
  "get [] = Throw (ParseError ''unexpected end'')" "get (c # t) = Ok (c, t)"
  by (simp_all add: get_def)

lemma peek_simps [simp]: "peek [] = CHR 0x00" "peek (c # t) = c"
  by (simp_all add: peek_def)

lemma parse_unicode_shorter: "parse_unicode s = Ok (u, t) \<Longrightarrow> length t < length s"
  by (auto simp: parse_unicode_def rthen_eq_Ok Let_def split: if_splits)

lemma parse_escape_shorter: "parse_escape s = Ok (u, t) \<Longrightarrow> length t < length s"
  by (auto simp: parse_escape_def rthen_eq_Ok split: if_splits dest: parse_unicode_shorter)

text \<open>The loop of \<open>parse_string\<close>, after the opening quote.\<close>

function parse_chars :: "string \<Rightarrow> string \<Rightarrow> (string \<times> string) res" where
  "parse_chars out s = rthen (get s) (\<lambda>(c, t).
     if c = dquote then Ok (out, t)
     else if c = backslash then rthen (parse_escape t) (\<lambda>(u, t'). parse_chars (out @ u) t')
     else parse_chars (out @ [c]) t)"
  by pat_completeness auto
termination
  by (relation "measure (\<lambda>(out, s). length s)") (auto dest: parse_escape_shorter)

declare parse_chars.simps [simp del]

definition parse_string :: "string \<Rightarrow> (string \<times> string) res" where
  "parse_string s = rthen (get s) (\<lambda>(c, t).
     if c \<noteq> dquote then Throw (ParseError (''expected '' @ [CHR 0x27, dquote, CHR 0x27]))
     else parse_chars [] t)"

definition parse_true :: "string \<Rightarrow> (Value \<times> string) res" where
  "parse_true s = (if take 4 s \<noteq> ''true'' then Throw (ParseError ''expected true'')
     else Ok (Bool True, drop 4 s))"

definition parse_false :: "string \<Rightarrow> (Value \<times> string) res" where
  "parse_false s = (if take 5 s \<noteq> ''false'' then Throw (ParseError ''expected false'')
     else Ok (Bool False, drop 5 s))"

definition parse_null :: "string \<Rightarrow> (Value \<times> string) res" where
  "parse_null s = (if take 4 s \<noteq> ''null'' then Throw (ParseError ''expected null'')
     else Ok (Null, drop 4 s))"

text \<open>
  \<open>parse_number\<close> in the order of the source: the optional sign, the integer part, the
  fraction, the exponent; then \<open>std::stod\<close> on the text scanned.
\<close>

definition scan_int :: "string \<Rightarrow> string res" where
  "scan_int s =
     (if peek s = CHR ''0'' then Ok (tl s)
      else if \<not> isdigit (peek s) then Throw (ParseError ''bad number'')
      else Ok (dropWhile isdigit s))"

definition scan_frac :: "string \<Rightarrow> string res" where
  "scan_frac s =
     (if peek s = CHR ''.'' then
        (if \<not> isdigit (peek (tl s)) then Throw (ParseError ''bad number'')
         else Ok (dropWhile isdigit (tl s)))
      else Ok s)"

definition scan_exp :: "string \<Rightarrow> string res" where
  "scan_exp s =
     (if peek s = CHR ''e'' \<or> peek s = CHR ''E'' then
        (let t = (if peek (tl s) = CHR ''+'' \<or> peek (tl s) = CHR ''-'' then tl (tl s) else tl s)
         in if \<not> isdigit (peek t) then Throw (ParseError ''bad number'')
            else Ok (dropWhile isdigit t))
      else Ok s)"

definition parse_number :: "string \<Rightarrow> (Value \<times> string) res" where
  "parse_number s =
     rthen (scan_int (if peek s = CHR ''-'' then tl s else s)) (\<lambda>s1.
     rthen (scan_frac s1) (\<lambda>s2. rthen (scan_exp s2) (\<lambda>s3.
     rthen (stod (take (length s - length s3) s)) (\<lambda>v. Ok (Num v, s3)))))"

lemma parse_chars_Nil [simp]: "parse_chars out [] = Throw (ParseError ''unexpected end'')"
  by (subst parse_chars.simps) simp

lemma parse_chars_Cons:
  "parse_chars out (c # t) =
     (if c = dquote then Ok (out, t)
      else if c = backslash then rthen (parse_escape t) (\<lambda>(u, t'). parse_chars (out @ u) t')
      else parse_chars (out @ [c]) t)"
  by (subst parse_chars.simps) simp

lemma parse_chars_shorter: "parse_chars out s = Ok (u, t) \<Longrightarrow> length t < length s"
proof (induction "length s" arbitrary: out s rule: less_induct)
  case less
  then obtain c r where s: "s = c # r" by (cases s) auto
  consider "c = dquote" | "c \<noteq> dquote" "c = backslash" | "c \<noteq> dquote" "c \<noteq> backslash" by blast
  then show ?case
  proof cases
    case 1
    with less.prems s show ?thesis by (simp add: parse_chars_Cons)
  next
    case 2
    with less.prems s obtain v r' where "parse_escape r = Ok (v, r')" "parse_chars (out @ v) r' = Ok (u, t)"
      by (auto simp: parse_chars_Cons rthen_eq_Ok)
    with less.hyps[of r' "out @ v"] s show ?thesis by (auto dest: parse_escape_shorter)
  next
    case 3
    with less.prems less.hyps[of r] s show ?thesis by (fastforce simp: parse_chars_Cons)
  qed
qed

lemma parse_string_shorter: "parse_string s = Ok (u, t) \<Longrightarrow> length t < length s"
  by (auto simp: parse_string_def rthen_eq_Ok split: if_splits dest: parse_chars_shorter)


lemma skip_ws_le: "length (skip_ws s) \<le> length s"
  by (simp add: skip_ws_def length_dropWhile_le)

lemma skip_ws_ge: "skip_ws s = c # t \<Longrightarrow> length t < length s"
  unfolding skip_ws_def by (rule dropWhile_Cons_shorter)

lemma parse_number_shorter: "parse_number s = Ok (v, t) \<Longrightarrow> length t < length s"
proof -
  assume "parse_number s = Ok (v, t)"
  then obtain s1 s2 where
    s1: "scan_int (if peek s = CHR ''-'' then tl s else s) = Ok s1"
    and s2: "scan_frac s1 = Ok s2" and s3: "scan_exp s2 = Ok t"
    by (auto simp: parse_number_def rthen_eq_Ok)
  have "length s1 < length s"
    using s1 length_dropWhile_le[of isdigit "tl s"] length_dropWhile_le[of isdigit "tl (tl s)"]
      length_dropWhile_le[of isdigit s]
    by (cases s; cases "tl s") (auto simp: scan_int_def isdigit_def split: if_splits)
  moreover have "length s2 \<le> length s1"
    using s2 length_dropWhile_le[of isdigit "tl s1"]
    by (auto simp: scan_frac_def split: if_splits)
  moreover have "length t \<le> length s2"
    using s3 length_dropWhile_le[of isdigit "tl s2"] length_dropWhile_le[of isdigit "tl (tl s2)"]
    by (auto simp: scan_exp_def Let_def split: if_splits)
  ultimately show ?thesis by simp
qed

text \<open>
  The mutually recursive core: \<open>parse_value\<close> with \<open>parse_object\<close> and \<open>parse_array\<close>
  inlined up to their loops, and the two loops. Every call is on shorter text than the call that
  made it, or on the same text inside a loop.
\<close>

function parse_value :: "string \<Rightarrow> (Value \<times> string) res"
  and parse_members :: "Object \<Rightarrow> string \<Rightarrow> (Object \<times> string) res"
  and parse_elems :: "Value list \<Rightarrow> string \<Rightarrow> (Value list \<times> string) res"
where
  "parse_value s =
     (let c = peek s in
      if c = CHR ''{'' then
        (let t = skip_ws (tl s) in
         if peek t = CHR ''}'' then Ok (Obj [], tl t)
         else rthen (parse_members [] t) (\<lambda>(m, r). Ok (Obj m, r)))
      else if c = CHR ''['' then
        (let t = skip_ws (tl s) in
         if peek t = CHR '']'' then Ok (Arr [], tl t)
         else rthen (parse_elems [] t) (\<lambda>(a, r). Ok (Arr a, r)))
      else if c = dquote then rthen (parse_string s) (\<lambda>(u, r). Ok (Str u, r))
      else if c = CHR ''t'' then parse_true s
      else if c = CHR ''f'' then parse_false s
      else if c = CHR ''n'' then parse_null s
      else if c = CHR ''-'' \<or> isdigit c then parse_number s
      else Throw (ParseError ''invalid value''))"
| "parse_members m s =
     (let s1 = skip_ws s in
      if peek s1 \<noteq> dquote then Throw (ParseError ''expected string key'')
      else rthen (parse_string s1) (\<lambda>(key, s2).
        rthen (get (skip_ws s2)) (\<lambda>(c, s3).
          if c \<noteq> CHR '':'' then Throw (ParseError (''expected '' @ [CHR 0x27, CHR '':'', CHR 0x27]))
          else rthen (parse_value (skip_ws s3)) (\<lambda>(v, s4).
            rthen (get (skip_ws s4)) (\<lambda>(d, s5).
              if d = CHR ''}'' then Ok (om_emplace key v m, s5)
              else if d \<noteq> CHR '','' then Throw (ParseError (''expected '' @
                     [CHR 0x27, CHR '','', CHR 0x27] @ '' or '' @ [CHR 0x27, CHR ''}'', CHR 0x27]))
              else parse_members (om_emplace key v m) (skip_ws s5))))))"
| "parse_elems a s =
     rthen (parse_value (skip_ws s)) (\<lambda>(v, s1).
       rthen (get (skip_ws s1)) (\<lambda>(d, s2).
         if d = CHR '']'' then Ok (a @ [v], s2)
         else if d \<noteq> CHR '','' then Throw (ParseError (''expected '' @
                [CHR 0x27, CHR '','', CHR 0x27] @ '' or '' @ [CHR 0x27, CHR '']'', CHR 0x27]))
         else parse_elems (a @ [v]) (skip_ws s2)))"
  by pat_completeness auto


lemma parse_fixed_shorter:
  "parse_true s = Ok (v, r) \<Longrightarrow> length r < length s"
  "parse_false s = Ok (v, r) \<Longrightarrow> length r < length s"
  "parse_null s = Ok (v, r) \<Longrightarrow> length r < length s"
  by (cases s; force simp: parse_true_def parse_false_def parse_null_def split: if_splits)+

lemma skip_ws_tl_less: "peek s \<noteq> CHR 0x00 \<Longrightarrow> length (skip_ws (tl s)) < length s"
  using skip_ws_le[of "tl s"] by (cases s) auto

lemma parse_string_quote: "parse_string s = Ok (u, t) \<Longrightarrow> peek s = dquote"
  by (auto simp: parse_string_def rthen_eq_Ok split: if_splits)

lemma skip_ws_less: "length s < n \<Longrightarrow> length (skip_ws s) < n"
  using skip_ws_le[of s] by simp

lemma key_shorter:
  "parse_string (skip_ws s) = Ok (k, b) \<Longrightarrow> skip_ws b = c # r \<Longrightarrow> length r < length s"
  using parse_string_shorter[of "skip_ws s" k b] skip_ws_ge[of b c r] skip_ws_le[of s] by simp

lemma parse_dom_shorter:
  "parse_value_parse_members_parse_elems_dom (Inl s) \<Longrightarrow>
     parse_value s = Ok (v, r) \<Longrightarrow> length r < length s"
  "parse_value_parse_members_parse_elems_dom (Inr (Inl (m, s))) \<Longrightarrow>
     parse_members m s = Ok (m', r) \<Longrightarrow> length r < length s"
  "parse_value_parse_members_parse_elems_dom (Inr (Inr (a, s))) \<Longrightarrow>
     parse_elems a s = Ok (a', r) \<Longrightarrow> length r < length s"
proof (induction s and m s and a s arbitrary: v r and m' r and a' r
    rule: parse_value_parse_members_parse_elems.pinduct)
  case (1 s)
  let ?c = "peek s"
  consider (obj) "?c = CHR ''{''" | (arr) "?c = CHR ''[''" | (str) "?c = dquote"
    | (oth) "?c \<noteq> CHR ''{''" "?c \<noteq> CHR ''[''" "?c \<noteq> dquote" by blast
  then show ?case
  proof cases
    case obj
    then have "length (skip_ws (tl s)) < length s" by (intro skip_ws_tl_less) simp
    moreover have "length r \<le> length (skip_ws (tl s))"
      using obj 1 by (auto simp: parse_value.psimps[OF 1(1)] Let_def rthen_eq_Ok split: if_splits)
        (metis less_imp_le)
    ultimately show ?thesis by simp
  next
    case arr
    then have "length (skip_ws (tl s)) < length s" by (intro skip_ws_tl_less) simp
    moreover have "length r \<le> length (skip_ws (tl s))"
      using arr 1 by (auto simp: parse_value.psimps[OF 1(1)] Let_def rthen_eq_Ok split: if_splits)
        (metis less_imp_le)
    ultimately show ?thesis by simp
  next
    case str
    then show ?thesis using 1(4) parse_string_shorter
      by (auto simp: parse_value.psimps[OF 1(1)] Let_def rthen_eq_Ok)
  next
    case oth
    then show ?thesis using 1(4) parse_number_shorter
      by (auto simp: parse_value.psimps[OF 1(1)] Let_def split: if_splits
          dest: parse_fixed_shorter parse_number_shorter)
  qed
next
  case (2 m s)
  from 2(4) obtain key s2 s3 v s4 d s5 where
    k: "parse_string (skip_ws s) = Ok (key, s2)" and c: "skip_ws s2 = CHR '':'' # s3"
    and v: "parse_value (skip_ws s3) = Ok (v, s4)" and d: "skip_ws s4 = d # s5"
    and fin: "(if d = CHR ''}'' then Ok (om_emplace key v m, s5)
       else if d \<noteq> CHR '','' then Throw (ParseError (''expected '' @
                     [CHR 0x27, CHR '','', CHR 0x27] @ '' or '' @ [CHR 0x27, CHR ''}'', CHR 0x27]))
       else parse_members (om_emplace key v m) (skip_ws s5)) = Ok (m', r)"
    by (auto simp: parse_members.psimps[OF 2(1)] Let_def rthen_eq_Ok split: if_splits)
  have s3: "length s3 < length s" by (rule key_shorter[OF k c])
  have "length s4 < length (skip_ws s3)"
    by (rule 2(2)[OF refl _ k _ _ _ _ v]) (use k c parse_string_quote in auto)
  then have "length s4 < length s" using s3 skip_ws_le[of s3] by simp
  then have s5: "length s5 < length s" using skip_ws_ge[OF d] by simp
  show ?case
  proof (cases "d = CHR ''}''")
    case True
    with fin s5 show ?thesis by simp
  next
    case False
    with fin have dc: "d = CHR '',''" and f: "parse_members (om_emplace key v m) (skip_ws s5) = Ok (m', r)"
      by (auto split: if_splits)
    have "length r < length (skip_ws s5)"
      by (rule 2(3)[OF refl _ k _ _ _ _ v _ _ _ _ _ f]) (use k c d dc parse_string_quote in auto)
    then show ?thesis using s5 skip_ws_le[of s5] by simp
  qed
next
  case (3 a s)
  from 3(4) obtain v s1 d s2 where
    v: "parse_value (skip_ws s) = Ok (v, s1)" and d: "skip_ws s1 = d # s2"
    and fin: "(if d = CHR '']'' then Ok (a @ [v], s2)
       else if d \<noteq> CHR '','' then Throw (ParseError (''expected '' @
                [CHR 0x27, CHR '','', CHR 0x27] @ '' or '' @ [CHR 0x27, CHR '']'', CHR 0x27]))
       else parse_elems (a @ [v]) (skip_ws s2)) = Ok (a', r)"
    by (auto simp: parse_elems.psimps[OF 3(1)] rthen_eq_Ok split: if_splits)
  have "length s1 < length (skip_ws s)" by (rule 3(2)[OF v])
  then have "length s1 < length s" using skip_ws_le[of s] by simp
  then have s2: "length s2 < length s" using skip_ws_ge[OF d] by simp
  show ?case
  proof (cases "d = CHR '']''")
    case True
    with fin s2 show ?thesis by simp
  next
    case False
    with fin have dc: "d = CHR '',''" and f: "parse_elems (a @ [v]) (skip_ws s2) = Ok (a', r)"
      by (auto split: if_splits)
    have "length r < length (skip_ws s2)"
      by (rule 3(3)[OF v _ _ _ _ _ f]) (use d dc in auto)
    then show ?thesis using s2 skip_ws_le[of s2] by simp
  qed
qed

lemma value_dom_shorter:
  assumes "parse_value_parse_members_parse_elems_dom (Inl (skip_ws s))"
    and "parse_value (skip_ws s) = Ok (v, b)" and "skip_ws b = c # r"
  shows "length r < length s"
  using parse_dom_shorter(1)[OF assms(1,2)] skip_ws_ge[OF assms(3)] skip_ws_le[of s] by simp

lemma double_less: "length (r :: string) < n \<Longrightarrow> Suc (2 * length (skip_ws r)) \<le> 2 * n"
  using skip_ws_le[of r] by simp

lemma double_less_tl:
  "peek s = c \<Longrightarrow> c \<noteq> CHR 0x00 \<Longrightarrow> Suc (2 * length (skip_ws (tl s))) < 2 * length s"
  using skip_ws_le[of "tl s"] by (cases s) (auto simp: peek_def)

lemma member_dom_shorter:
  assumes "parse_string (skip_ws s) = Ok (k, b)" and "skip_ws b = c # r"
    and "parse_value_parse_members_parse_elems_dom (Inl (skip_ws r))"
    and "parse_value (skip_ws r) = Ok (v, b')" and "skip_ws b' = c' # r'"
  shows "length r' < length s"
  using key_shorter[OF assms(1,2)] value_dom_shorter[OF assms(3-5)] by simp

termination parse_value
proof (relation "measure (\<lambda>x. case x of Inl s \<Rightarrow> 2 * length s
    | Inr (Inl (m, s)) \<Rightarrow> 2 * length s + 1 | Inr (Inr (a, s)) \<Rightarrow> 2 * length s + 1)")
qed (auto simp: skip_ws_le less_Suc_eq_le intro!: double_less intro: double_less_tl[OF sym]
  less_imp_le[OF skip_ws_less] dest: key_shorter value_dom_shorter intro: member_dom_shorter)

declare parse_value.simps [simp del] parse_members.simps [simp del] parse_elems.simps [simp del]

definition parse :: "string \<Rightarrow> Value res" where
  "parse s = rthen (parse_value (skip_ws s)) (\<lambda>(v, r).
     if skip_ws r \<noteq> [] then Throw (ParseError ''trailing characters'') else Ok v)"

section \<open>The serializer\<close>

definition hex_digit_lower :: "nat \<Rightarrow> char" where
  "hex_digit_lower d = char_of (if d < 10 then 48 + d else 87 + d)"

text \<open>The text \<open>snprintf\<close> writes for \<open>\u%04x\<close>.\<close>

definition unicode_escape :: "nat \<Rightarrow> string" where
  "unicode_escape n = [backslash, CHR ''u'', hex_digit_lower (n div 4096 mod 16),
     hex_digit_lower (n div 256 mod 16), hex_digit_lower (n div 16 mod 16), hex_digit_lower (n mod 16)]"

definition dump_char :: "char \<Rightarrow> string" where
  "dump_char c =
     (if c = dquote then [backslash, dquote]
      else if c = backslash then [backslash, backslash]
      else if c = CHR 0x08 then [backslash, CHR ''b'']
      else if c = CHR 0x0C then [backslash, CHR ''f'']
      else if c = CHR 0x0A then [backslash, CHR ''n'']
      else if c = CHR 0x0D then [backslash, CHR ''r'']
      else if c = CHR 0x09 then [backslash, CHR ''t'']
      else if code_of c < 0x20 then unicode_escape (code_of c)
      else [c])"

definition dump_string :: "string \<Rightarrow> string \<Rightarrow> string" where
  "dump_string out s = foldl (\<lambda>o' c. o' @ dump_char c) (out @ [dquote]) s @ [dquote]"

text \<open>The loop that drops trailing zeros while there is a decimal point.\<close>

fun trim_zeros :: "string \<Rightarrow> string" where
  "trim_zeros s =
     (if 1 < length s \<and> CHR ''.'' \<in> set s \<and> last s = CHR ''0'' then trim_zeros (butlast s) else s)"

declare trim_zeros.simps [simp del]

definition dump_number :: "double \<Rightarrow> string" where
  "dump_number d = (let s = trim_zeros (to_string_double d)
     in if s \<noteq> [] \<and> last s = CHR ''.'' then butlast s else s)"

fun dump :: "string \<Rightarrow> Value \<Rightarrow> string"
  and dump_arr :: "bool \<Rightarrow> string \<Rightarrow> Value list \<Rightarrow> string"
  and dump_obj :: "bool \<Rightarrow> string \<Rightarrow> (string \<times> Value) list \<Rightarrow> string"
where
  "dump out Null = out @ ''null''"
| "dump out (Bool b) = out @ (if b then ''true'' else ''false'')"
| "dump out (Num d) = out @ dump_number d"
| "dump out (Str s) = dump_string out s"
| "dump out (Arr a) = dump_arr True (out @ ''['') a"
| "dump out (Obj m) = dump_obj True (out @ ''{'') m"
| "dump_arr first out [] = out @ '']''"
| "dump_arr first out (v # vs) =
     dump_arr False (dump (if \<not> first then out @ '','' else out) v) vs"
| "dump_obj first out [] = out @ ''}''"
| "dump_obj first out (p # m) =
     dump_obj False (dump (dump_string (if \<not> first then out @ '','' else out) (fst p) @ '':'') (snd p)) m"

definition dumps :: "Value \<Rightarrow> string" where
  "dumps v = dump [] v"

subsection \<open>What the serializer appends\<close>

lemma dump_string_append: "dump_string out s = out @ dquote # concat (map dump_char s) @ [dquote]"
proof -
  have "foldl (\<lambda>o' c. o' @ dump_char c) p s = p @ concat (map dump_char s)" for p
    by (induction s arbitrary: p) simp_all
  then show ?thesis by (simp add: dump_string_def)
qed

lemma dump_prefix:
  "dump (p @ out) v = p @ dump out v"
  "dump_arr first (p @ out) vs = p @ dump_arr first out vs"
  "dump_obj first (p @ out) m = p @ dump_obj first out m"
  by (induction out v and first out vs and first out m rule: dump_dump_arr_dump_obj.induct)
    (simp_all add: dump_string_append split: if_splits)

lemma dump_append:
  "dump out v = out @ dump [] v"
  "dump_arr first out vs = out @ dump_arr first [] vs"
  "dump_obj first out m = out @ dump_obj first [] m"
  using dump_prefix(1)[where p = out and out = "[]"] dump_prefix(2)[where p = out and out = "[]"]
    dump_prefix(3)[where p = out and out = "[]"] by simp_all

lemma dump_arr_Cons:
  "dump_arr True [] (v # vs) = dump [] v @ dump_arr False [] vs"
  "dump_arr False [] (v # vs) = CHR '','' # dump_arr True [] (v # vs)"
  using dump_append(1)[of "'',''" v] dump_append(2)[of False "dump [] v" vs]
    dump_append(2)[of False "'','' @ dump [] v" vs] by simp_all

lemma dump_obj_Cons:
  "dump_obj True [] ((k, v) # m) =
     dquote # concat (map dump_char k) @ dquote # CHR '':'' # dump [] v @ dump_obj False [] m"
  "dump_obj False [] (p # m) = CHR '','' # dump_obj True [] (p # m)"
  using dump_append(1)[of "dump_string '','' (fst p) @ '':''" "snd p"]
    dump_append(1)[of "dump_string [] (fst p) @ '':''" "snd p"]
    dump_append(1)[of "dump_string [] k @ '':''" v]
    dump_append(3)[of False "dump_string [] k @ '':'' @ dump [] v" m]
    dump_append(3)[of False "dump_string [] (fst p) @ '':'' @ dump [] (snd p)" m]
    dump_append(3)[of False "dump_string '','' (fst p) @ '':'' @ dump [] (snd p)" m]
  by (simp_all add: dump_string_append)

lemma dump_aggregates:
  "dump [] (Arr vs) = CHR ''['' # dump_arr True [] vs"
  "dump [] (Obj m) = CHR ''{'' # dump_obj True [] m"
  using dump_append(2)[of True "''[''" vs] dump_append(3)[of True "''{''" m] by simp_all

text \<open>A whole number is printed as its digits.\<close>

lemma trim_zeros_point: "trim_zeros (s @ ''.'' @ replicate n (CHR ''0'')) = s @ ''.''"
proof (induction n)
  case 0
  show ?case by (subst trim_zeros.simps) simp
next
  case (Suc n)
  let ?t = "s @ ''.'' @ replicate (Suc n) (CHR ''0'')"
  have e: "?t = (s @ ''.'' @ replicate n (CHR ''0'')) @ ''0''"
    by (simp add: replicate_append_same)
  then have "butlast ?t = s @ ''.'' @ replicate n (CHR ''0'')" "last ?t = CHR ''0''"
    by (simp_all only: butlast_snoc last_snoc)
  moreover have "1 < length ?t" "CHR ''.'' \<in> set ?t" by simp_all
  ultimately show ?case using Suc by (simp only: trim_zeros.simps[of ?t] if_True simp_thms)
qed

lemma dump_number_integral:
  assumes "dmag d = of_nat n"
  shows "dump_number d = (if dneg d then ''-'' else []) @ dec_str n"
proof -
  have "trim_zeros (to_string_double d) = ((if dneg d then ''-'' else []) @ dec_str n) @ ''.''"
    using trim_zeros_point[of "(if dneg d then ''-'' else []) @ dec_str n" 6]
    by (simp add: to_string_integral[OF assms] eval_nat_numeral)
  then show ?thesis by (simp add: dump_number_def)
qed

subsection \<open>Strings survive\<close>

lemma hexval_hex_digit_lower: "d < 16 \<Longrightarrow> hexval (hex_digit_lower d) = int d"
  by (simp add: hexval_def hex_digit_lower_def Let_def)

lemma parse_escape_unicode:
  assumes "code_of c < 0x80"
  shows "parse_escape (tl (unicode_escape (code_of c)) @ t) = Ok ([c], t)"
proof -
  have "int (code_of c div 16) * 16 + int (code_of c mod 16) = int (code_of c)"
    by (metis div_mult_mod_eq of_nat_add of_nat_mult of_nat_numeral)
  then have "nat (int (code_of c div 16) * 16 + int (code_of c mod 16)) = code_of c"
    by simp
  with assms show ?thesis
    by (simp add: parse_escape_def unicode_escape_def parse_unicode_def hexval_hex_digit_lower
        utf8_bmp_def)
qed

lemma parse_chars_dump_char: "parse_chars out (dump_char c @ t) = parse_chars (out @ [c]) t"
proof (cases "c \<in> {dquote, backslash, CHR 0x08, CHR 0x0C, CHR 0x0A, CHR 0x0D, CHR 0x09}")
  case True
  then show ?thesis
    by (elim insertE) (simp_all add: dump_char_def parse_chars_Cons parse_escape_def)
next
  case False
  then have c: "dump_char c = (if code_of c < 0x20 then unicode_escape (code_of c) else [c])"
    by (simp add: dump_char_def)
  have "unicode_escape (code_of c) = backslash # tl (unicode_escape (code_of c))"
    by (simp add: unicode_escape_def)
  then have u: "unicode_escape (code_of c) @ t = backslash # (tl (unicode_escape (code_of c)) @ t)"
    by (metis append_Cons)
  show ?thesis
  proof (cases "code_of c < 0x20")
    case True
    then have "code_of c < 0x80" by simp
    from parse_escape_unicode[OF this, of t] True show ?thesis
      by (simp only: c if_True u parse_chars_Cons) simp
  next
    case plain: False
    with False c show ?thesis by (simp add: parse_chars_Cons)
  qed
qed

lemma parse_chars_dump: "parse_chars out (concat (map dump_char s) @ dquote # t) = Ok (out @ s, t)"
  by (induction s arbitrary: out) (simp_all add: parse_chars_Cons parse_chars_dump_char)

lemma parse_string_dump: "parse_string (dquote # concat (map dump_char s) @ dquote # t) = Ok (s, t)"
  by (simp add: parse_string_def parse_chars_dump)

subsection \<open>Whole numbers survive\<close>

text \<open>The text that can follow a value inside a document.\<close>

definition value_end :: "string \<Rightarrow> bool" where
  "value_end s \<longleftrightarrow> s = [] \<or> hd s \<in> {CHR '','', CHR '']'', CHR ''}''}"

lemma value_end_simps [simp]:
  "value_end []" "value_end (CHR '','' # s)" "value_end (CHR '']'' # s)" "value_end (CHR ''}'' # s)"
  by (simp_all add: value_end_def)

lemma value_end_not_digit: "value_end s \<Longrightarrow> s = [] \<or> \<not> isdigit (hd s)"
  by (auto simp: value_end_def isdigit_def)

lemma digit_char_0: "digit_char 0 = CHR ''0''"
  by code_simp

lemma scan_int_dec_str:
  assumes "value_end rest"
  shows "scan_int (dec_str n @ rest) = Ok rest"
proof (cases "n = 0")
  case True
  then have "dec_str n = ''0''" by (simp add: numeral_str.simps[of 10 0] digit_char_0)
  then show ?thesis by (simp add: scan_int_def)
next
  case False
  obtain c t where ct: "dec_str n = c # t" by (cases "dec_str n") auto
  have "c \<noteq> CHR ''0''" using hd_numeral_str[of 10 n] False ct by (simp add: digit_char_0)
  moreover have "isdigit c" using ct dec_str_isdigit[of c n] by simp
  ultimately show ?thesis
    using takeWhile_dec_str(2)[OF value_end_not_digit[OF assms], of n] ct by (simp add: scan_int_def)
qed

lemma scan_tail: "value_end rest \<Longrightarrow> scan_frac rest = Ok rest \<and> scan_exp rest = Ok rest"
  by (cases rest) (auto simp: scan_frac_def scan_exp_def value_end_def)

lemma parse_number_integral:
  assumes "wf_double d" "dmag d = of_nat n" "value_end rest"
  shows "parse_number (dump_number d @ rest) = Ok (Num d, rest)"
proof -
  obtain c t where ct: "dec_str n = c # t" by (cases "dec_str n") auto
  have c: "isdigit c" using ct dec_str_isdigit[of c n] by simp
  let ?s = "dump_number d @ rest"
  have "(if peek ?s = CHR ''-'' then tl ?s else ?s) = dec_str n @ rest"
    using isdigit_not_special[OF c] by (simp add: dump_number_integral[OF assms(2)] ct)
  then have "scan_int (if peek ?s = CHR ''-'' then tl ?s else ?s) = Ok rest"
    using scan_int_dec_str[OF assms(3)] by simp
  moreover have "stod (take (length ?s - length rest) ?s) = Ok d"
    using stod_integral[OF assms(1,2)] by (simp add: dump_number_integral[OF assms(2)])
  ultimately show ?thesis using scan_tail[OF assms(3)] by (simp add: parse_number_def)
qed

subsection \<open>Documents survive\<close>

fun integral_value :: "Value \<Rightarrow> bool" where
  "integral_value (Num d) = integral d"
| "integral_value (Arr vs) = (\<forall>v \<in> set vs. integral_value v)"
| "integral_value (Obj m) = (\<forall>p \<in> set m. integral_value (snd p))"
| "integral_value _ = True"

definition survives :: "Value \<Rightarrow> bool" where
  "survives v \<longleftrightarrow> (\<forall>rest. value_end rest \<longrightarrow> parse_value (dump [] v @ rest) = Ok (v, rest))"

lemma survivesD: "survives v \<Longrightarrow> value_end rest \<Longrightarrow> parse_value (dump [] v @ rest) = Ok (v, rest)"
  by (simp add: survives_def)

lemma skip_ws_Cons: "\<not> isspace c \<Longrightarrow> skip_ws (c # t) = c # t"
  by (simp add: skip_ws_def)

lemma skip_ws_punct [simp]:
  "skip_ws (CHR '','' # t) = CHR '','' # t" "skip_ws (CHR '']'' # t) = CHR '']'' # t"
  "skip_ws (CHR ''}'' # t) = CHR ''}'' # t" "skip_ws (CHR '':'' # t) = CHR '':'' # t"
  "skip_ws (dquote # t) = dquote # t" "skip_ws [] = []"
  by (simp_all add: skip_ws_def isspace_def)

text \<open>Every value but a number starts with a fixed character; no value starts with white space
  or a closing bracket.\<close>

lemma dump_starts:
  assumes "wf_value v" "integral_value v"
  obtains c t where "dump [] v = c # t" "\<not> isspace c" "c \<noteq> CHR '']''"
proof -
  have "dump [] v \<noteq> [] \<and> \<not> isspace (peek (dump [] v)) \<and> peek (dump [] v) \<noteq> CHR '']''"
  proof (cases v)
    case (Num d)
    with assms obtain n where n: "dmag d = of_nat n" by (auto elim: integral_nat)
    obtain c t where ct: "dec_str n = c # t" by (cases "dec_str n") auto
    have "isdigit c" using ct dec_str_isdigit[of c n] by simp
    then have "\<not> isspace c" "c \<noteq> CHR '']''" by (auto simp: isdigit_def isspace_def)
    moreover have "\<not> isspace (CHR ''-'')" by (simp add: isspace_def)
    ultimately show ?thesis using ct Num dump_number_integral[OF n] by (cases "dneg d") simp_all
  qed (simp_all add: dump_aggregates dump_string_append isspace_def del: dump.simps(5,6))
  then show ?thesis using that by (cases "dump [] v") simp_all
qed

lemma skip_ws_dump:
  "wf_value v \<Longrightarrow> integral_value v \<Longrightarrow> skip_ws (dump [] v @ rest) = dump [] v @ rest"
  by (erule dump_starts) (simp_all add: skip_ws_Cons)

lemma parse_elems_dump:
  assumes "\<And>w. w \<in> set (v # vs) \<Longrightarrow> survives w \<and> wf_value w \<and> integral_value w"
  shows "parse_elems a (dump_arr True [] (v # vs) @ rest) = Ok (a @ v # vs, rest)"
  using assms
proof (induction vs arbitrary: v a)
  case Nil
  then show ?case
    by (simp add: parse_elems.simps dump_arr_Cons(1) skip_ws_dump survivesD del: dump_arr.simps(2))
next
  case (Cons w ws)
  have IH: "parse_elems (a @ [v]) (dump_arr True [] (w # ws) @ rest) = Ok ((a @ [v]) @ w # ws, rest)"
    using Cons by simp
  have w: "skip_ws (dump_arr True [] (w # ws) @ rest) = dump_arr True [] (w # ws) @ rest"
    using Cons.prems by (simp add: dump_arr_Cons(1) skip_ws_dump del: dump_arr.simps(2))
  have "parse_value (dump [] v @ CHR '','' # dump_arr True [] (w # ws) @ rest) =
      Ok (v, CHR '','' # dump_arr True [] (w # ws) @ rest)"
    using Cons.prems by (simp add: survivesD del: dump_arr.simps(2))
  then show ?case using Cons.prems IH w
    by (subst parse_elems.simps)
      (simp add: dump_arr_Cons(1)[of v] dump_arr_Cons(2) skip_ws_dump del: dump_arr.simps(2))
qed

lemma parse_members_dump:
  assumes "\<And>q. q \<in> set (p # m) \<Longrightarrow> survives (snd q) \<and> wf_value (snd q) \<and> integral_value (snd q)"
    and "om_wf (a @ p # m)"
  shows "parse_members a (dump_obj True [] (p # m) @ rest) = Ok (a @ p # m, rest)"
  using assms
proof (induction m arbitrary: p a)
  case Nil
  obtain k v where p: "p = (k, v)" by fastforce
  have "om_emplace k v a = a @ [(k, v)]"
    using Nil.prems(2) p by (intro om_emplace_snoc) (simp add: om_wf_append)
  then show ?case using Nil.prems(1) p
    by (simp add: parse_members.simps dump_obj_Cons(1) parse_string_dump skip_ws_dump survivesD
        del: dump_obj.simps(2))
next
  case (Cons q m)
  obtain k v where p: "p = (k, v)" by fastforce
  let ?t = "dump_obj True [] (q # m) @ rest"
  have e: "om_emplace k v a = a @ [p]"
    unfolding p using Cons.prems(2) p by (intro om_emplace_snoc) (auto simp: om_wf_append)
  have IH: "parse_members (a @ [p]) ?t = Ok ((a @ [p]) @ q # m, rest)"
    using Cons.IH[of q "a @ [p]"] Cons.prems by simp
  have q: "skip_ws ?t = ?t"
    by (cases q) (simp add: dump_obj_Cons(1) del: dump_obj.simps(2))
  have "parse_value (dump [] v @ CHR '','' # ?t) = Ok (v, CHR '','' # ?t)"
    using Cons.prems(1)[of p] p by (simp add: survivesD)
  then show ?case using Cons.prems(1)[of p] p IH e q
    by (subst parse_members.simps)
      (simp add: dump_obj_Cons(1)[of k] dump_obj_Cons(2) parse_string_dump skip_ws_dump
        del: dump_obj.simps(2))
qed

lemma survives_all: "wf_value v \<Longrightarrow> integral_value v \<Longrightarrow> survives v"
proof (induction v)
  case (Num d)
  then obtain n where n: "dmag d = of_nat n" by (auto elim: integral_nat)
  obtain c t where ct: "dec_str n = c # t" by (cases "dec_str n") auto
  have "isdigit c" using ct dec_str_isdigit[of c n] by simp
  moreover from this have "c \<notin> set ''{[tfn'' \<and> c \<noteq> dquote" by (auto simp: isdigit_def)
  ultimately have "parse_value (dump_number d @ rest) = parse_number (dump_number d @ rest)" for rest
    by (simp add: parse_value.simps dump_number_integral[OF n] ct)
  then show ?case using Num parse_number_integral[OF _ n] by (simp add: survives_def)
next
  case (Arr vs)
  show ?case
  proof (cases vs)
    case Nil
    then show ?thesis by (simp add: survives_def parse_value.simps)
  next
    case (Cons w ws)
    have w: "wf_value w" "integral_value w" using Arr.prems Cons by simp_all
    have "\<And>x. x \<in> set (w # ws) \<Longrightarrow> survives x \<and> wf_value x \<and> integral_value x"
      using Arr Cons by auto
    from parse_elems_dump[OF this, where a = "[]"] Cons
    have "parse_elems [] (dump_arr True [] vs @ rest) = Ok (vs, rest)" for rest
      by (simp del: dump_arr.simps(2))
    moreover have "skip_ws (dump_arr True [] vs @ rest) = dump_arr True [] vs @ rest
        \<and> peek (dump_arr True [] vs @ rest) \<noteq> CHR '']''" for rest
      using w Cons by (auto elim!: dump_starts[of w] simp: dump_arr_Cons(1) skip_ws_Cons
          simp del: dump_arr.simps(2))
    ultimately show ?thesis
      by (simp add: survives_def parse_value.simps dump_aggregates del: dump.simps)
  qed
next
  case (Obj m)
  show ?case
  proof (cases m)
    case Nil
    then show ?thesis by (simp add: survives_def parse_value.simps)
  next
    case (Cons p ps)
    have wf: "\<forall>q \<in> set m. wf_value (snd q) \<and> integral_value (snd q)" using Obj.prems by simp
    have "\<And>q. q \<in> set (p # ps) \<Longrightarrow> survives (snd q) \<and> wf_value (snd q) \<and> integral_value (snd q)"
      subgoal for q using Obj.IH[of q "snd q"] wf Cons by (cases q) force
      done
    from parse_members_dump[OF this, where a = "[]"] Obj.prems(1) Cons
    have "parse_members [] (dump_obj True [] m @ rest) = Ok (m, rest)" for rest
      by (simp del: dump_obj.simps(2))
    moreover have "skip_ws (dump_obj True [] m @ rest) = dump_obj True [] m @ rest
        \<and> peek (dump_obj True [] m @ rest) = dquote" for rest
      using Cons by (cases p) (simp add: dump_obj_Cons(1) del: dump_obj.simps(2))
    ultimately show ?thesis
      by (simp add: survives_def parse_value.simps dump_aggregates del: dump.simps)
  qed
qed (auto simp: survives_def parse_value.simps parse_true_def parse_false_def parse_null_def
    dump_string_append parse_string_dump isdigit_def)

lemma parse_dumps_integral:
  assumes "wf_value v" "integral_value v"
  shows "parse (dumps v) = Ok v"
  using survivesD[OF survives_all[OF assms], of "[]"] skip_ws_dump[OF assms, of "[]"]
  by (simp add: parse_def dumps_def)


subsection \<open>The parser always answers, with a well-formed value\<close>

lemma get_answers [answer_intros]: "answers (get s)"
  by (cases s) simp_all

lemma parse_escape_answers [answer_intros]: "answers (parse_escape s)"
  unfolding parse_escape_def parse_unicode_def Let_def by (intro answer_intros)

lemma parse_chars_answers [answer_intros]: "answers (parse_chars out s)"
proof (induction out s rule: parse_chars.induct)
  case (1 out s)
  show ?case
    unfolding parse_chars.simps[of out s] by (intro answer_intros 1) (simp_all del: get_Ok)
qed

lemma parse_string_answers [answer_intros]: "answers (parse_string s)"
  unfolding parse_string_def by (intro answer_intros)

lemma stod_answers [answer_intros]: "answers (stod s)"
  unfolding stod_def Let_def by (intro answer_intros)

lemma parse_number_answers [answer_intros]: "answers (parse_number s)"
  unfolding parse_number_def scan_int_def scan_frac_def scan_exp_def Let_def by (intro answer_intros)

lemma parse_literal_answers [answer_intros]:
  "answers (parse_true s)" "answers (parse_false s)" "answers (parse_null s)"
  by (simp_all add: parse_true_def parse_false_def parse_null_def)

lemma parse_value_answers:
  "answers (parse_value s)" "answers (parse_members m s)" "answers (parse_elems a s)"
proof (induction s and m s and a s rule: parse_value_parse_members_parse_elems.induct)
  case (1 s)
  show ?case
    unfolding parse_value.simps[of s] Let_def by (intro answer_intros 1[OF refl] refl)
next
  case (2 m s)
  show ?case
    unfolding parse_members.simps[of m s] Let_def
    by (intro answer_intros) (rule 2[OF refl]; (assumption | rule sym; assumption)?)+
next
  case (3 a s)
  show ?case
    unfolding parse_elems.simps[of a s]
    by (intro answer_intros) (rule 3; (assumption | rule sym; assumption)?)+
qed

lemma parse_answers: "answers (parse s)"
  unfolding parse_def by (intro answer_intros parse_value_answers)

lemma stod_wf: "stod s = Ok d \<Longrightarrow> wf_double d"
  by (auto simp: stod_def wf_double_def rnd64_nonneg rnd64_idem zero_le_mult_iff not_le
      zero_le_power_int Let_def split: prod.splits if_splits)

lemma parse_number_wf: "parse_number s = Ok (v, t) \<Longrightarrow> wf_value v"
  by (auto simp: parse_number_def rthen_eq_Ok stod_wf)

lemma wf_value_emplace:
  assumes "wf_value (Obj m)" "wf_value v"
  shows "wf_value (Obj (om_emplace k v m))"
proof -
  have "snd ` set (om_emplace k v m) \<subseteq> insert v (snd ` set m)"
    using om_set_values[of k v m] by (auto simp: om_emplace_def split: option.splits)
  with assms show ?thesis by (force simp: om_wf_emplace)
qed

lemma parse_value_wf:
  "parse_value s = Ok (v, t) \<Longrightarrow> wf_value v"
  "parse_members m s = Ok (m', t) \<Longrightarrow> wf_value (Obj m) \<Longrightarrow> wf_value (Obj m')"
  "parse_elems a s = Ok (a', t) \<Longrightarrow> wf_value (Arr a) \<Longrightarrow> wf_value (Arr a')"
proof (induction s and m s and a s arbitrary: v t and m' t and a' t
    rule: parse_value_parse_members_parse_elems.induct)
  case (1 s)
  then show ?case
    by (fastforce simp: parse_value.simps[of s] Let_def rthen_eq_Ok parse_number_wf
        parse_true_def parse_false_def parse_null_def split: if_splits)
next
  case (2 m s)
  from 2(3) obtain k b r v b' d r' where
    k: "peek (skip_ws s) = dquote" "parse_string (skip_ws s) = Ok (k, b)" "get (skip_ws b) = Ok (CHR '':'', r)"
    and v: "parse_value (skip_ws r) = Ok (v, b')" and d: "get (skip_ws b') = Ok (d, r')"
    and m': "(if d = CHR ''}'' then Ok (om_emplace k v m, r')
       else parse_members (om_emplace k v m) (skip_ws r')) = Ok (m', t)"
      "d = CHR ''}'' \<or> d = CHR '',''"
    by (auto simp: parse_members.simps[of m s] Let_def rthen_eq_Ok simp del: get_Ok split: if_splits)
  have "wf_value v" using 2(1) k v by force
  then have e: "wf_value (Obj (om_emplace k v m))" by (rule wf_value_emplace[OF 2(4)])
  show ?case
  proof (cases "d = CHR ''}''")
    case True
    with m' e show ?thesis by simp
  next
    case False
    with m' have "parse_members (om_emplace k v m) (skip_ws r') = Ok (m', t)" "d = CHR '',''" by auto
    then show ?thesis using 2(2)[OF refl _ k(2) refl k(3) refl _ v refl d refl] k(1) e by simp
  qed
next
  case (3 a s)
  from 3(3) show ?case using 3(1,2,4)
    by (fastforce simp: parse_elems.simps[of a s] rthen_eq_Ok split: if_splits)
qed

lemma parse_wf: "parse s = Ok v \<Longrightarrow> wf_value v"
  by (auto simp: parse_def rthen_eq_Ok split: if_splits dest: parse_value_wf(1))

section \<open>Correctness\<close>

text \<open>C1: the serializer and the parser agree. Every value whose objects are maps and whose numbers
  are whole (negative zero included) is read back from its text exactly; strings may hold any
  bytes, also control characters and bytes that are not UTF-8.\<close>

theorem json_round_trip:
  "wf_value v \<Longrightarrow> integral_value v \<Longrightarrow> parse (dumps v) = Ok v"
  by (rule parse_dumps_integral)

theorem json_round_trip_witness:
  "parse (dumps (Obj [(''a'', Arr [Num (double_of_int (- 3)), Str [CHR 0x01, dquote, CHR 0xFF], Null]),
     (''b'', Bool True)])) =
   Ok (Obj [(''a'', Arr [Num (double_of_int (- 3)), Str [CHR 0x01, dquote, CHR 0xFF], Null]), (''b'', Bool True)])"
proof -
  have "wf_double (double_of_int (- 3))" by (rule wf_double_of_int) simp
  then show ?thesis by (intro json_round_trip) (simp_all add: om_wf_Cons)
qed

text \<open>The parser is total. On every byte string it returns or throws, never recurses for ever,
  and what it returns is a tree of proper maps and finite doubles.\<close>

theorem json_parse_total:
  "case parse s of Ok v \<Rightarrow> wf_value v | Throw e \<Rightarrow> True | Stuck \<Rightarrow> False"
  using parse_answers[of s] parse_wf[of s] by (auto simp: answers_def split: res.split)

end
