(* ===== verification/Types.thy ===== *)
theory Types
  imports Tinyjson
begin

text \<open>
  The plain data of \<open>core/include/wininspect/types.hpp\<close>, \<open>update.hpp\<close> and \<open>core.hpp\<close>, and
  the textual form of a window handle. Handles, process ids, styles and addresses keep their width
  as words; the \<open>int\<close> and (on Windows, 32-bit) \<open>long\<close> fields are mathematical integers,
  because the code only compares them and converts them to \<open>double\<close>.
\<close>

section \<open>Data\<close>

type_synonym hwnd_u64 = "64 word"
type_synonym bytes = "8 word list"

definition PROTOCOL_VERSION :: string where
  "PROTOCOL_VERSION = ''0.1.1''"

definition WININSPECT_VERSION :: string where
  "WININSPECT_VERSION = ''v0.1.1''"

record Rect =
  left :: int
  top_edge :: int
  right :: int
  bottom_edge :: int

record Color =
  red :: "8 word"
  green :: "8 word"
  blue :: "8 word"

record ScreenCapture =
  sc_width :: int
  sc_height :: int
  sc_data_b64 :: string

record ProcessInfo =
  pr_pid :: "32 word"
  pr_name :: string
  pr_path :: string

record FileInfo =
  fi_path :: string
  fi_size :: "64 word"
  fi_is_directory :: bool
  fi_last_modified :: string

record RegistryValue =
  rv_name :: string
  rv_type :: string
  rv_data :: string

record RegistryKeyInfo =
  rk_path :: string
  rk_subkeys :: "string list"
  rk_values :: "RegistryValue list"

record ServiceInfo =
  sv_name :: string
  sv_display_name :: string
  sv_state :: string

record DriveInfo =
  dr_letter :: string
  dr_mapping :: string
  dr_type :: string

record EnvVar =
  ev_name :: string
  ev_value :: string

record MemoryRegion =
  mr_address :: "64 word"
  mr_data_b64 :: string

record ImageMatchResult =
  im_x :: int
  im_y :: int
  im_confidence :: double

record WindowInfo =
  wi_hwnd :: hwnd_u64
  wi_parent :: hwnd_u64
  wi_owner :: hwnd_u64
  wi_class_name :: string
  wi_title :: string
  window_rect :: Rect
  client_rect :: Rect
  screen_rect :: Rect
  wi_pid :: "32 word"
  wi_tid :: "32 word"
  wi_style :: "64 word"
  wi_exstyle :: "64 word"
  style_flags :: "string list"
  ex_style_flags :: "string list"
  wi_visible :: bool
  wi_enabled :: bool
  wi_iconic :: bool
  wi_zoomed :: bool
  process_image :: string

datatype WindowNode =
  WindowNode (wn_hwnd: hwnd_u64) (wn_title: string) (wn_class_name: string)
    (wn_children: "WindowNode list")

record PickFlags =
  prefer_child :: bool
  ignore_transparent :: bool

record Snapshot =
  top :: "hwnd_u64 list"

record Event =
  seq :: "64 word"
  ev_type :: string
  ev_hwnd :: hwnd_u64
  ev_property :: string

datatype UIElementInfo =
  UIElementInfo (automation_id: string) (ui_name: string) (ui_class_name: string)
    (control_type: string) (bounding_rect: Rect) (ui_enabled: bool) (ui_visible: bool)
    (ui_children: "UIElementInfo list")

record Capabilities =
  os :: string
  is_wine :: bool
  arch :: string
  win_major :: int
  win_minor :: int
  win_build :: int
  uia_available :: bool
  clipboard_available :: bool
  registry_writable :: bool
  service_manager :: bool
  process_memory :: bool
  input_injection :: bool
  window_highlight :: bool
  wine_version :: string

record UpdateInfo =
  update_available :: bool
  current_version :: string
  latest_version :: string
  release_notes :: string
  up_error :: string
  installer_url :: string
  portable_zip_url :: string

text \<open>The value-initialised structs \<open>Rect{}\<close>, \<open>Event{}\<close> and \<open>UpdateInfo{}\<close>.\<close>

definition zero_rect :: Rect where
  "zero_rect = \<lparr>left = 0, top_edge = 0, right = 0, bottom_edge = 0\<rparr>"

definition empty_update :: UpdateInfo where
  "empty_update = \<lparr>update_available = False, current_version = [], latest_version = [],
     release_notes = [], up_error = [], installer_url = [], portable_zip_url = []\<rparr>"

definition default_flags :: PickFlags where
  "default_flags = \<lparr>prefer_child = True, ignore_transparent = True\<rparr>"

section \<open>Requests and responses\<close>

record CoreRequest =
  req_id :: string
  req_method :: string
  req_params :: Object

record CoreResponse =
  resp_id :: string
  resp_ok :: bool
  resp_result :: Value
  error_code :: string
  error_message :: string
  metrics :: Object

text \<open>A default-constructed \<open>CoreResponse\<close>.\<close>

definition new_response :: CoreResponse where
  "new_response = \<lparr>resp_id = [], resp_ok = True, resp_result = Null, error_code = [],
     error_message = [], metrics = []\<rparr>"

section \<open>Window handles as text\<close>

definition hwnd_to_string :: "hwnd_u64 \<Rightarrow> string" where
  "hwnd_to_string h = ''0x'' @ hex_str (unat h)"

definition parse_hwnd :: "string \<Rightarrow> hwnd_u64 option" where
  "parse_hwnd s = (if \<not> starts_with ''0x'' s then None else extract_hex_u64 (drop 2 s))"

lemma parse_hwnd_to_string: "parse_hwnd (hwnd_to_string h) = Some h"
  by (simp add: parse_hwnd_def hwnd_to_string_def starts_with_def extract_hex_u64_hex_str)

text \<open>\<open>Color::to_hex\<close>: a number sign and two upper case hexadecimal digits per channel.\<close>

definition to_hex :: "Color \<Rightarrow> string" where
  "to_hex c = ''#'' @ pad_left 2 (hex_str (unat (red c))) @ pad_left 2 (hex_str (unat (green c)))
     @ pad_left 2 (hex_str (unat (blue c)))"

end
