(* ===== verification/Base64.thy ===== *)
theory Base64
  imports Cpp_Numbers
begin

text \<open>
  \<open>core/include/wininspect/base64.hpp\<close>: the encoder and decoder the memory, image and input
  methods use for binary payloads. Both keep the bits not yet written in a 32-bit \<open>int\<close> that
  is shifted left for every input unit and never masked, so it wraps around on long inputs; the
  round trip below holds for inputs of every length all the same, because the bits that matter
  are always among the lowest twelve.
\<close>

section \<open>32-bit signed shifts\<close>

text \<open>\<open>v << n\<close> on \<open>int\<close>, the result modulo \<open>2 ^ 32\<close> in two's complement.\<close>

definition i32 :: "int \<Rightarrow> int" where
  "i32 v = (v + 2 ^ 31) mod 2 ^ 32 - 2 ^ 31"

definition shl32 :: "int \<Rightarrow> nat \<Rightarrow> int" where
  "shl32 v n = i32 (v * 2 ^ n)"

text \<open>\<open>(v >> n) & m\<close> for \<open>n \<ge> 0\<close> and a mask \<open>m\<close> of \<open>w\<close> ones.\<close>

definition bits_at :: "int \<Rightarrow> int \<Rightarrow> nat \<Rightarrow> int" where
  "bits_at v n w = (v div 2 ^ nat n) mod 2 ^ w"

section \<open>Decoding\<close>

definition alphabet :: string where
  "alphabet = ''ABCDEFGHIJKLMNOPQRSTUVWXYZabcdefghijklmnopqrstuvwxyz0123456789+/''"

text \<open>The table \<open>T\<close>: every entry is \<open>-1\<close>, then entry \<open>alphabet[i]\<close> is set to \<open>i\<close>.\<close>

definition decode_table :: "char \<Rightarrow> int" where
  "decode_table = foldl (\<lambda>T i. T(alphabet ! i := int i)) (\<lambda>_. - 1) [0..<64]"

fun decode_loop :: "8 word list \<Rightarrow> int \<Rightarrow> int \<Rightarrow> string \<Rightarrow> 8 word list" where
  "decode_loop out val valb [] = out"
| "decode_loop out val valb (c # cs) =
     (if decode_table c = - 1 then out
      else let val' = shl32 val 6 + decode_table c; valb' = valb + 6
           in if 0 \<le> valb' then decode_loop (out @ [of_int (bits_at val' valb' 8)]) val' (valb' - 8) cs
              else decode_loop out val' valb' cs)"

definition decode :: "string \<Rightarrow> 8 word list" where
  "decode s = decode_loop [] 0 (- 8) s"

section \<open>Encoding\<close>

function encode_drain :: "string \<Rightarrow> int \<Rightarrow> int \<Rightarrow> string \<times> int" where
  "encode_drain out val valb =
     (if 0 \<le> valb then encode_drain (out @ [alphabet ! nat (bits_at val valb 6)]) val (valb - 6)
      else (out, valb))"
  by pat_completeness auto
termination
  by (relation "measure (\<lambda>(out, val, valb). nat (valb + 6))") auto

declare encode_drain.simps [simp del]

fun encode_loop :: "string \<Rightarrow> int \<Rightarrow> int \<Rightarrow> 8 word list \<Rightarrow> string \<times> int \<times> int" where
  "encode_loop out val valb [] = (out, val, valb)"
| "encode_loop out val valb (c # cs) =
     (let val' = shl32 val 8 + uint c; (out', valb') = encode_drain out val' (valb + 8)
      in encode_loop out' val' valb' cs)"

text \<open>\<open>while (out.size() % 4) out.push_back('=');\<close>\<close>

function pad4 :: "string \<Rightarrow> string" where
  "pad4 out = (if length out mod 4 \<noteq> 0 then pad4 (out @ ''='') else out)"
  by pat_completeness auto
termination
proof (relation "measure (\<lambda>out. (4 - length out mod 4) mod 4)")
  fix out :: string
  assume a: "length out mod 4 \<noteq> 0"
  have "length (out @ ''='') mod 4 = Suc (length out) mod 4" by simp
  moreover have "(4 - Suc n mod 4) mod 4 < (4 - n mod 4) mod 4" if "n mod 4 \<noteq> 0" for n :: nat
  proof -
    have "n mod 4 = 1 \<or> n mod 4 = 2 \<or> n mod 4 = 3" using that by linarith
    then show ?thesis by (auto simp: mod_Suc)
  qed
  ultimately show "(out @ ''='', out) \<in> measure (\<lambda>out. (4 - length out mod 4) mod 4)"
    using a by simp
qed simp

declare pad4.simps [simp del]

definition encode :: "8 word list \<Rightarrow> string" where
  "encode bytes =
     (let (out, val, valb) = encode_loop [] 0 (- 6) bytes;
          out' = (if - 6 < valb then out @ [alphabet ! nat (bits_at (shl32 val 8) (valb + 8) 6)] else out)
      in pad4 out')"

section \<open>Bit arithmetic\<close>

lemma bits_at_i32:
  assumes "0 \<le> n" "nat n + w \<le> 32"
  shows "bits_at (i32 v + c) n w = bits_at (v + c) n w"
proof -
  define k where "k = (v + 2 ^ 31) div 2 ^ 32"
  have "i32 v = v - 2 ^ 32 * k"
    unfolding i32_def k_def by (simp add: minus_mult_div_eq_mod[symmetric])
  moreover obtain m where m: "(2 :: int) ^ 32 = 2 ^ nat n * 2 ^ w * 2 ^ m"
    using assms(2) by (metis le_Suc_ex power_add)
  ultimately have e: "i32 v + c = (v + c) + 2 ^ nat n * (2 ^ w * (- (2 ^ m * k)))"
    by (simp add: algebra_simps)
  have "(i32 v + c) div 2 ^ nat n = 2 ^ w * (- (2 ^ m * k)) + (v + c) div 2 ^ nat n"
    unfolding e by (rule div_mult_self2) simp
  then show ?thesis unfolding bits_at_def by (simp only: mod_mult_self4)
qed

lemma mix_div_mod:
  fixes x y m :: int
  assumes "0 \<le> y" "y < m"
  shows "(x * m + y) div m = x" and "(x * m + y) mod m = y"
  using assms by simp_all

lemma div_less_pow2:
  assumes "(b :: int) < 2 ^ (n + m)"
  shows "b div 2 ^ n < 2 ^ m"
proof (rule ccontr)
  assume "\<not> b div 2 ^ n < 2 ^ m"
  then have "2 ^ m * 2 ^ n \<le> b div 2 ^ n * 2 ^ n" by (intro mult_right_mono) simp_all
  also have "\<dots> = b - b mod 2 ^ n" by (simp add: minus_mod_eq_div_mult)
  also have "\<dots> \<le> b" by simp
  finally show False using assms by (simp add: power_add mult.commute)
qed

text \<open>The lowest bits after a shift by \<open>k\<close> are the unit just added.\<close>

lemma bits_at_low:
  assumes "n + w \<le> k" "k \<le> 32"
  shows "bits_at (shl32 v k + b) (int n) w = bits_at b (int n) w"
proof -
  have i: "bits_at (shl32 v k + b) (int n) w = bits_at (v * 2 ^ k + b) (int n) w"
    unfolding shl32_def using assms by (intro bits_at_i32) simp_all
  obtain j where k: "(2 :: int) ^ k = 2 ^ n * (2 ^ w * 2 ^ j)"
    using assms(1) by (metis le_Suc_ex power_add mult.assoc)
  have "(v * 2 ^ k + b) div 2 ^ n = (b + 2 ^ n * (2 ^ w * (2 ^ j * v))) div 2 ^ n"
    unfolding k by (simp add: algebra_simps)
  also have "\<dots> = 2 ^ w * (2 ^ j * v) + b div 2 ^ n" by (rule div_mult_self2) simp
  finally have "bits_at (v * 2 ^ k + b) (int n) w = bits_at b (int n) w"
    by (simp only: bits_at_def nat_int mod_mult_self4)
  with i show ?thesis by simp
qed

text \<open>Bits that straddle the shift: \<open>j\<close> bits of the old value, then the top of the unit.\<close>

lemma bits_at_push:
  assumes "0 \<le> b" "b < 2 ^ (n + m)" "n + m + j \<le> 32"
  shows "bits_at (shl32 v (n + m) + b) (int n) (j + m) = bits_at v 0 j * 2 ^ m + b div 2 ^ n"
proof -
  have "bits_at (shl32 v (n + m) + b) (int n) (j + m) = bits_at (v * 2 ^ (n + m) + b) (int n) (j + m)"
    unfolding shl32_def using assms(3) by (intro bits_at_i32) simp_all
  also have "\<dots> = (b + 2 ^ n * (v * 2 ^ m)) div 2 ^ n mod 2 ^ (j + m)"
    by (simp add: bits_at_def power_add algebra_simps)
  also have "(b + 2 ^ n * (v * 2 ^ m)) div 2 ^ n = v * 2 ^ m + b div 2 ^ n"
    by (rule div_mult_self2) simp
  also have "(v * 2 ^ m + b div 2 ^ n) mod 2 ^ (j + m) = (v mod 2 ^ j) * 2 ^ m + b div 2 ^ n"
  proof -
    have r: "0 \<le> b div 2 ^ n" "b div 2 ^ n < 2 ^ m"
      using assms(1) div_less_pow2[OF assms(2)] by (simp_all add: pos_imp_zdiv_nonneg_iff)
    have "(v * 2 ^ m + b div 2 ^ n) mod (2 ^ m * 2 ^ j) =
        2 ^ m * ((v * 2 ^ m + b div 2 ^ n) div 2 ^ m mod 2 ^ j) + (v * 2 ^ m + b div 2 ^ n) mod 2 ^ m"
      by (rule zmod_zmult2_eq) simp
    then show ?thesis using mix_div_mod[OF r, of v] by (simp add: power_add mult.commute)
  qed
  finally show ?thesis by (simp add: bits_at_def)
qed

lemma uint8_range: "0 \<le> uint (c :: 8 word)" "uint (c :: 8 word) < 256"
  using uint_lt2p[of c] by simp_all

section \<open>Three bytes at a time\<close>

definition sextets3 :: "int \<Rightarrow> int \<Rightarrow> int \<Rightarrow> int list" where
  "sextets3 a b c = [a div 4, (a mod 4) * 16 + b div 16, (b mod 16) * 4 + c div 64, c mod 64]"

definition chars_of :: "int list \<Rightarrow> string" where
  "chars_of ps = map (\<lambda>p. alphabet ! nat p) ps"

lemmas drain_simps = encode_drain.simps[of _ _ "2"] encode_drain.simps[of _ _ "4"]
  encode_drain.simps[of _ _ "6"] encode_drain.simps[of _ _ "0"] encode_drain.simps[of _ _ "- 4"]
  encode_drain.simps[of _ _ "- 2"] encode_drain.simps[of _ _ "- 6"]

lemma bits_at_0: "bits_at v 0 w = v mod 2 ^ w"
  by (simp add: bits_at_def)

lemma encode_bits:
  fixes a :: "8 word"
  shows "bits_at (shl32 v 8 + uint a) 2 6 = uint a div 4"
    and "bits_at (shl32 v 8 + uint a) 4 6 = (v mod 4) * 16 + uint a div 16"
    and "bits_at (shl32 v 8 + uint a) 6 6 = (v mod 16) * 4 + uint a div 64"
    and "bits_at (shl32 v 8 + uint a) 0 6 = uint a mod 64"
    and "(shl32 v 8 + uint a) mod 4 = uint a mod 4"
    and "(shl32 v 8 + uint a) mod 16 = uint a mod 16"
  subgoal using bits_at_push[of "uint a" 2 6 0 v] uint8_range[of a] by (simp add: bits_at_0)
  subgoal using bits_at_push[of "uint a" 4 4 2 v] uint8_range[of a] by (simp add: bits_at_0)
  subgoal using bits_at_push[of "uint a" 6 2 4 v] uint8_range[of a] by (simp add: bits_at_0)
  subgoal using bits_at_low[of 0 6 8 v "uint a"] by (simp add: bits_at_0)
  subgoal using bits_at_low[of 0 2 8 v "uint a"] by (simp add: bits_at_0)
  subgoal using bits_at_low[of 0 4 8 v "uint a"] by (simp add: bits_at_0)
  done

lemma encode_tail_bits:
  "bits_at (shl32 v 8) 4 6 = (v mod 4) * 16"
  "bits_at (shl32 v 8) 6 6 = (v mod 16) * 4"
  using encode_bits(2,3)[of v 0] by simp_all

lemma encode_loop3:
  "\<exists>v'. encode_loop out v (- 6) (a # b # c # cs) =
     encode_loop (out @ chars_of (sextets3 (uint a) (uint b) (uint c))) v' (- 6) cs"
  by (rule exI) (simp add: Let_def drain_simps encode_bits chars_of_def sextets3_def)

lemma encode_loop2:
  "\<exists>v'. encode_loop out v (- 6) [a, b] =
     (out @ chars_of [uint a div 4, (uint a mod 4) * 16 + uint b div 16], v', - 2) \<and> v' mod 16 = uint b mod 16"
  by (simp add: Let_def drain_simps encode_bits chars_of_def)

lemma encode_loop1:
  "\<exists>v'. encode_loop out v (- 6) [a] = (out @ chars_of [uint a div 4], v', - 4) \<and> v' mod 4 = uint a mod 4"
  by (simp add: Let_def drain_simps encode_bits chars_of_def)

subsection \<open>Reference encoder\<close>

text \<open>Base64 as RFC 4648 describes it: groups of three bytes, padding after the last.\<close>

fun encode_ref :: "8 word list \<Rightarrow> string" where
  "encode_ref [] = []"
| "encode_ref [a] = chars_of [uint a div 4, (uint a mod 4) * 16] @ ''==''"
| "encode_ref [a, b] =
     chars_of [uint a div 4, (uint a mod 4) * 16 + uint b div 16, (uint b mod 16) * 4] @ ''=''"
| "encode_ref (a # b # c # cs) = chars_of (sextets3 (uint a) (uint b) (uint c)) @ encode_ref cs"

lemma length_chars_of [simp]: "length (chars_of ps) = length ps"
  by (simp add: chars_of_def)

lemma chars_of_append [simp]: "chars_of (ps @ qs) = chars_of ps @ chars_of qs"
  by (simp add: chars_of_def)

lemma pad4_cases:
  "length s mod 4 = 0 \<Longrightarrow> pad4 s = s"
  "length s mod 4 = 3 \<Longrightarrow> pad4 s = s @ ''=''"
  "length s mod 4 = 2 \<Longrightarrow> pad4 s = s @ ''==''"
proof -
  show p0: "pad4 s = s" if "length s mod 4 = 0" for s
    using that by (subst pad4.simps) simp
  show p3: "pad4 s = s @ ''=''" if "length s mod 4 = 3" for s
    using that p0[of "s @ ''=''"] by (subst pad4.simps) (simp add: mod_Suc)
  show "pad4 s = s @ ''==''" if "length s mod 4 = 2"
    using that p3[of "s @ ''=''"] by (subst pad4.simps) (simp add: mod_Suc)
qed

definition encode_finish :: "string \<times> int \<times> int \<Rightarrow> string" where
  "encode_finish st = (case st of (out, val, valb) \<Rightarrow>
     pad4 (if - 6 < valb then out @ [alphabet ! nat (bits_at (shl32 val 8) (valb + 8) 6)] else out))"

lemma encode_finish_loop:
  "length out mod 4 = 0 \<Longrightarrow> encode_finish (encode_loop out v (- 6) bs) = out @ encode_ref bs"
proof (induction bs arbitrary: out v rule: encode_ref.induct)
  case 1
  then show ?case by (simp add: encode_finish_def pad4_cases)
next
  case (2 a)
  obtain v' where "encode_loop out v (- 6) [a] = (out @ chars_of [uint a div 4], v', - 4)"
    "v' mod 4 = uint a mod 4" using encode_loop1 by blast
  moreover have "length (out @ chars_of [uint a div 4, (uint a mod 4) * 16]) mod 4 = 2"
    using 2 by (simp add: mod_Suc)
  ultimately show ?case
    using pad4_cases(3) by (simp add: encode_finish_def encode_tail_bits chars_of_def)
next
  case (3 a b)
  obtain v' where "encode_loop out v (- 6) [a, b] =
      (out @ chars_of [uint a div 4, (uint a mod 4) * 16 + uint b div 16], v', - 2)"
    "v' mod 16 = uint b mod 16" using encode_loop2 by blast
  moreover have "length (out @ chars_of [uint a div 4, (uint a mod 4) * 16 + uint b div 16,
      (uint b mod 16) * 4]) mod 4 = 3" using 3 by (simp add: mod_Suc)
  ultimately show ?case
    using pad4_cases(2) by (simp add: encode_finish_def encode_tail_bits chars_of_def)
next
  case (4 a b c cs)
  have "length (out @ chars_of (sextets3 (uint a) (uint b) (uint c))) mod 4 = 0"
    using 4(2) by (simp add: sextets3_def)
  from 4(1)[OF this] show ?case
    using encode_loop3[of out v a b c cs] by (metis append.assoc encode_ref.simps(4))
qed

lemma encode_eq_ref: "encode bs = encode_ref bs"
  using encode_finish_loop[of "[]" 0 bs]
  by (simp add: encode_def encode_finish_def Let_def split: prod.splits)

subsection \<open>Decoding the reference\<close>

lemma decode_table_alphabet: "0 \<le> p \<Longrightarrow> p < 64 \<Longrightarrow> decode_table (alphabet ! nat p) = p"
proof -
  assume p: "0 \<le> p" "p < 64"
  have "list_all (\<lambda>i. decode_table (alphabet ! i) = int i) [0..<64]" by code_simp
  then have "decode_table (alphabet ! nat p) = int (nat p)"
    using p by (simp add: list_all_iff)
  then show ?thesis using p by simp
qed

lemma decode_table_pad: "decode_table (CHR ''='') = - 1"
  by code_simp

lemma decode_bits:
  fixes p :: int
  assumes "0 \<le> p" "p < 64"
  shows "bits_at (shl32 v 6 + p) 4 8 = (v mod 64) * 4 + p div 16"
    and "bits_at (shl32 v 6 + p) 2 8 = (v mod 16) * 16 + p div 4"
    and "bits_at (shl32 v 6 + p) 0 8 = (v mod 4) * 64 + p"
    and "(shl32 v 6 + p) mod 64 = p"
    and "(shl32 v 6 + p) mod 16 = p mod 16"
    and "(shl32 v 6 + p) mod 4 = p mod 4"
  subgoal using bits_at_push[of p 4 2 6 v] assms by (simp add: bits_at_0)
  subgoal using bits_at_push[of p 2 4 4 v] assms by (simp add: bits_at_0)
  subgoal using bits_at_push[of p 0 6 2 v] assms by (simp add: bits_at_0)
  subgoal using bits_at_low[of 0 6 6 v p] assms by (simp add: bits_at_0)
  subgoal using bits_at_low[of 0 4 6 v p] by (simp add: bits_at_0)
  subgoal using bits_at_low[of 0 2 6 v p] by (simp add: bits_at_0)
  done

definition sextet :: "int \<Rightarrow> bool" where
  "sextet p \<longleftrightarrow> 0 \<le> p \<and> p < 64"

lemma decode_char:
  "sextet p \<Longrightarrow> decode_loop out v valb (alphabet ! nat p # cs) =
     (if 0 \<le> valb + 6
      then decode_loop (out @ [of_int (bits_at (shl32 v 6 + p) (valb + 6) 8)]) (shl32 v 6 + p) (valb - 2) cs
      else decode_loop out (shl32 v 6 + p) (valb + 6) cs)"
  by (simp add: sextet_def decode_table_alphabet Let_def)

lemma decode_loop4:
  assumes "sextet p" "sextet q" "sextet r" "sextet s"
  shows "\<exists>v'. decode_loop out v (- 8) (chars_of [p, q, r, s] @ cs) =
    decode_loop (out @ [of_int (p * 4 + q div 16), of_int (q mod 16 * 16 + r div 4), of_int (r mod 4 * 64 + s)])
      v' (- 8) cs"
  using assms by (intro exI) (simp add: chars_of_def decode_char decode_bits sextet_def del: decode_loop.simps)

lemma decode_loop3:
  assumes "sextet p" "sextet q" "sextet r"
  shows "decode_loop out v (- 8) (chars_of [p, q, r] @ ''='') =
    out @ [of_int (p * 4 + q div 16), of_int (q mod 16 * 16 + r div 4)]"
  using assms by (simp add: chars_of_def decode_char decode_bits sextet_def decode_table_pad
      del: decode_loop.simps(2)) (simp add: decode_table_pad)

lemma decode_loop2:
  assumes "sextet p" "sextet q"
  shows "decode_loop out v (- 8) (chars_of [p, q] @ ''=='') = out @ [of_int (p * 4 + q div 16)]"
  using assms by (simp add: chars_of_def decode_char decode_bits sextet_def
      del: decode_loop.simps(2)) (simp add: decode_table_pad)

lemma sextet_mix:
  assumes "0 \<le> x" "x < n" "0 \<le> y" "y < m" "n * m = 64"
  shows "sextet (x * m + y)"
proof -
  have "x * m \<le> (n - 1) * m" using assms by (intro mult_right_mono) simp_all
  then have "x * m + y < 64" using assms(4,5) by (simp add: left_diff_distrib)
  moreover have "0 \<le> x * m" using assms by simp
  ultimately show ?thesis using assms(3) by (simp add: sextet_def)
qed

lemma byte_split:
  fixes a b c :: "8 word"
  shows "sextet (uint a div 4)" "sextet (uint a mod 4 * 16 + uint b div 16)"
    "sextet (uint b mod 16 * 4 + uint c div 64)" "sextet (uint c mod 64)"
    "sextet (uint a mod 4 * 16)" "sextet (uint b mod 16 * 4)"
    and "uint a div 4 * 4 + (uint a mod 4 * 16 + uint b div 16) div 16 = uint a"
    "(uint a mod 4 * 16 + uint b div 16) mod 16 * 16 + (uint b mod 16 * 4 + uint c div 64) div 4 = uint b"
    "(uint b mod 16 * 4 + uint c div 64) mod 4 * 64 + uint c mod 64 = uint c"
    "uint a div 4 * 4 + uint a mod 4 * 16 div 16 = uint a"
    "(uint a mod 4 * 16 + uint b div 16) mod 16 * 16 + uint b mod 16 * 4 div 4 = uint b"
proof -
  have b: "0 \<le> uint b div 16" "uint b div 16 < 16" and c: "0 \<le> uint c div 64" "uint c div 64 < 4"
    and a: "0 \<le> uint a div 4" "uint a div 4 < 64"
    using uint8_range[of a] uint8_range[of b] uint8_range[of c] by linarith+
  note ab = mix_div_mod[OF b, of "uint a mod 4"] and bc = mix_div_mod[OF c, of "uint b mod 16"]
  have m: "uint a mod 4 < 4" "0 \<le> uint a mod 4" "uint b mod 16 < 16" "0 \<le> uint b mod 16"
    "uint c mod 64 < 64" "0 \<le> uint c mod 64" by simp_all
  show "sextet (uint a div 4)" "sextet (uint a mod 4 * 16 + uint b div 16)"
    "sextet (uint b mod 16 * 4 + uint c div 64)" "sextet (uint c mod 64)"
    "sextet (uint a mod 4 * 16)" "sextet (uint b mod 16 * 4)"
    using sextet_mix[OF m(2,1) b] sextet_mix[OF m(4,3) c] sextet_mix[OF m(2,1), of 0 16]
      sextet_mix[OF m(4,3), of 0 4] a m(5,6) by (simp_all add: sextet_def)
  show "uint a div 4 * 4 + (uint a mod 4 * 16 + uint b div 16) div 16 = uint a"
    "(uint a mod 4 * 16 + uint b div 16) mod 16 * 16 + (uint b mod 16 * 4 + uint c div 64) div 4 = uint b"
    "(uint b mod 16 * 4 + uint c div 64) mod 4 * 64 + uint c mod 64 = uint c"
    unfolding ab bc by (simp_all only: div_mult_mod_eq)
  show "uint a div 4 * 4 + uint a mod 4 * 16 div 16 = uint a"
    "(uint a mod 4 * 16 + uint b div 16) mod 16 * 16 + uint b mod 16 * 4 div 4 = uint b"
    unfolding ab by (simp_all add: div_mult_mod_eq)
qed

lemma decode_loop_ref: "decode_loop out v (- 8) (encode_ref bs) = out @ bs"
proof (induction bs arbitrary: out v rule: encode_ref.induct)
  case (2 a)
  then show ?case by (simp only: encode_ref.simps decode_loop2 byte_split) simp
next
  case (3 a b)
  then show ?case by (simp only: encode_ref.simps decode_loop3 byte_split) simp
next
  case (4 a b c cs)
  obtain v' where "decode_loop out v (- 8) (chars_of (sextets3 (uint a) (uint b) (uint c)) @ encode_ref cs) =
      decode_loop (out @ [a, b, c]) v' (- 8) (encode_ref cs)"
    using decode_loop4[OF byte_split(1)[of a] byte_split(2)[of a b] byte_split(3)[of b c] byte_split(4)[of c],
        of out v "encode_ref cs"]
    by (auto simp only: byte_split sextets3_def word_of_int_uint)
  then show ?case using 4 by simp
qed simp

lemma length_encode_ref: "length (encode_ref bs) = (length bs + 2) div 3 * 4"
proof (induction bs rule: encode_ref.induct)
  case (4 a b c cs)
  have "(length (a # b # c # cs) + 2) div 3 = Suc ((length cs + 2) div 3)"
    using div_add_self1[of 3 "length cs + 2"] by simp
  with 4 show ?case by (simp only:) (simp add: sextets3_def)
qed simp_all

lemma decode_encoded [simp]: "decode (encode bs) = bs"
  by (simp add: decode_def encode_eq_ref decode_loop_ref)

section \<open>Correctness\<close>

text \<open>C12: the encoder is the one of RFC 4648, its output is padded to whole groups of four
  characters, and the decoder recovers every byte string from it; the 32-bit accumulator of both
  routines may wrap around any number of times on the way.\<close>

theorem decode_encode:
  "decode (encode bs) = bs \<and> encode bs = encode_ref bs \<and>
   length (encode bs) = (length bs + 2) div 3 * 4"
  by (simp add: encode_eq_ref[symmetric] length_encode_ref[folded encode_eq_ref])

end
