(* ===== verification/Logger.thy ===== *)
theory Logger
  imports Prelude
begin

text \<open>
  \<open>core/src/logger.cpp\<close>: the process-wide logger with its ring of recent messages, which the
  engine writes to and \<open>daemon.logs\<close> reads. The time stamp of a message comes from the
  system clock and is an argument here; the lines written to \<open>std::cerr\<close> are kept in the
  state, oldest first.

  Shown here: the ring holds exactly the most recent hundred messages that passed the level test.
\<close>

section \<open>Levels\<close>

datatype LogLevel = TRACE | DEBUG | INFO | WARN | ERR

primrec level_num :: "LogLevel \<Rightarrow> nat" where
  "level_num TRACE = 0"
| "level_num DEBUG = 1"
| "level_num INFO = 2"
| "level_num WARN = 3"
| "level_num ERR = 4"

lemma level_num_inject: "level_num a = level_num b \<Longrightarrow> a = b"
  by (cases a; cases b) simp_all

instantiation LogLevel :: linorder
begin

definition less_eq_LogLevel :: "LogLevel \<Rightarrow> LogLevel \<Rightarrow> bool" where
  "less_eq_LogLevel a b \<longleftrightarrow> level_num a \<le> level_num b"

definition less_LogLevel :: "LogLevel \<Rightarrow> LogLevel \<Rightarrow> bool" where
  "less_LogLevel a b \<longleftrightarrow> level_num a < level_num b"

instance
  by standard (auto simp: less_eq_LogLevel_def less_LogLevel_def intro: level_num_inject)

end

primrec level_to_str :: "LogLevel \<Rightarrow> string" where
  "level_to_str TRACE = ''TRACE''"
| "level_to_str DEBUG = ''DEBUG''"
| "level_to_str INFO = ''INFO''"
| "level_to_str WARN = ''WARN''"
| "level_to_str ERR = ''ERROR''"

section \<open>The logger\<close>

record LogMessage =
  lm_level :: LogLevel
  lm_timestamp :: string
  lm_message :: string

record Logger =
  min_level :: LogLevel
  log_buffer :: "LogMessage list"
  cerr_lines :: "string list"

definition new_logger :: Logger where
  "new_logger = \<lparr>min_level = INFO, log_buffer = [], cerr_lines = []\<rparr>"

definition MAX_LOGS :: nat where
  "MAX_LOGS = 100"

definition should_log :: "LogLevel \<Rightarrow> Logger \<Rightarrow> bool" where
  "should_log level lg \<longleftrightarrow> min_level lg \<le> level"

definition log_message :: "string \<Rightarrow> LogLevel \<Rightarrow> string \<Rightarrow> Logger \<Rightarrow> Logger" where
  "log_message ts level msg lg =
     (let formatted = ''['' @ ts @ ''] ['' @ level_to_str level @ ''] '' @ msg;
          lg1 = (if min_level lg \<le> level then lg\<lparr>cerr_lines := cerr_lines lg @ [formatted]\<rparr> else lg);
          buf = log_buffer lg1 @ [\<lparr>lm_level = level, lm_timestamp = ts, lm_message = msg\<rparr>]
      in lg1\<lparr>log_buffer := (if MAX_LOGS < length buf then tl buf else buf)\<rparr>)"

definition get_recent_logs :: "nat \<Rightarrow> Logger \<Rightarrow> LogMessage list" where
  "get_recent_logs count lg =
     (if length (log_buffer lg) \<le> count then log_buffer lg
      else drop (length (log_buffer lg) - count) (log_buffer lg))"

definition set_level :: "LogLevel \<Rightarrow> Logger \<Rightarrow> Logger" where
  "set_level level lg = lg\<lparr>min_level := level\<rparr>"

text \<open>The macro \<open>LOG_AT_LEVEL\<close> and the variants the sources use.\<close>

definition log_at :: "LogLevel \<Rightarrow> string \<Rightarrow> string \<Rightarrow> Logger \<Rightarrow> Logger" where
  "log_at level ts msg lg = (if should_log level lg then log_message ts level msg lg else lg)"

section \<open>What the ring holds\<close>

text \<open>The last \<open>n\<close> elements of a list.\<close>

definition last_n :: "nat \<Rightarrow> 'a list \<Rightarrow> 'a list" where
  "last_n n xs = drop (length xs - n) xs"

lemma last_n_snoc:
  assumes "0 < n"
  shows "last_n n (last_n n xs @ [x]) = last_n n (xs @ [x])"
proof (cases "n \<le> length xs")
  case True
  have "length (drop (length xs - n) xs) = n" using True by simp
  then have "last_n n (last_n n xs @ [x]) = tl (drop (length xs - n) xs) @ [x]"
    using assms by (cases "drop (length xs - n) xs") (simp_all add: last_n_def)
  also have "\<dots> = drop (Suc (length xs) - n) xs @ [x]"
    using True by (simp add: tl_drop drop_Suc Suc_diff_le)
  finally show ?thesis using True assms by (simp add: last_n_def)
next
  case False
  then show ?thesis by (simp add: last_n_def)
qed

lemma log_message_buffer:
  "log_buffer (log_message ts level msg lg) =
     (let buf = log_buffer lg @ [\<lparr>lm_level = level, lm_timestamp = ts, lm_message = msg\<rparr>]
      in if MAX_LOGS < length buf then tl buf else buf)"
  by (simp add: log_message_def Let_def)

lemma log_message_level [simp]: "min_level (log_message ts level msg lg) = min_level lg"
  by (simp add: log_message_def Let_def)

lemma log_buffer_step:
  assumes "length (log_buffer lg) \<le> MAX_LOGS"
  shows "log_buffer (log_message ts level msg lg) =
    last_n MAX_LOGS (log_buffer lg @ [\<lparr>lm_level = level, lm_timestamp = ts, lm_message = msg\<rparr>])"
proof (cases "length (log_buffer lg) = MAX_LOGS")
  case True
  then have "length (log_buffer lg @ [\<lparr>lm_level = level, lm_timestamp = ts, lm_message = msg\<rparr>]) - MAX_LOGS = 1"
    by simp
  then show ?thesis using True by (simp only: log_message_buffer last_n_def Let_def drop_Suc One_nat_def) simp
next
  case False
  with assms show ?thesis by (simp add: log_message_buffer last_n_def Let_def)
qed

text \<open>A run of log statements, each with its level, time stamp and text.\<close>

definition log_all :: "(LogLevel \<times> string \<times> string) list \<Rightarrow> Logger \<Rightarrow> Logger" where
  "log_all ms lg = foldl (\<lambda>l (level, ts, msg). log_at level ts msg l) lg ms"

definition entry :: "LogLevel \<times> string \<times> string \<Rightarrow> LogMessage" where
  "entry m = (case m of (level, ts, msg) \<Rightarrow> \<lparr>lm_level = level, lm_timestamp = ts, lm_message = msg\<rparr>)"

lemma log_all_snoc: "log_all (ms @ [m]) lg = (case m of (level, ts, msg) \<Rightarrow> log_at level ts msg (log_all ms lg))"
  by (simp add: log_all_def)

lemma log_all_buffer:
  assumes "log_buffer lg = []"
  shows "min_level (log_all ms lg) = min_level lg \<and>
    log_buffer (log_all ms lg) =
      last_n MAX_LOGS (map entry (filter (\<lambda>m. min_level lg \<le> fst m) ms))"
proof (induction ms rule: rev_induct)
  case Nil
  show ?case using assms by (simp add: log_all_def last_n_def)
next
  case (snoc m ms)
  obtain level ts msg where m: "m = (level, ts, msg)" by (cases m)
  have len: "length (log_buffer (log_all ms lg)) \<le> MAX_LOGS" using snoc by (simp add: last_n_def)
  show ?case
    using snoc log_buffer_step[OF len, of ts level msg]
    by (simp add: m log_all_snoc log_at_def should_log_def entry_def last_n_snoc MAX_LOGS_def)
qed

text \<open>After any sequence of log statements on a fresh logger, its buffer is the most recent
  one hundred of those at or above the level in force, oldest first, and \<open>get_recent_logs\<close>
  returns the most recent \<open>count\<close> of them.\<close>

theorem logger_keeps_recent:
  "log_buffer (log_all ms (set_level level new_logger)) =
     last_n 100 (map entry (filter (\<lambda>m. level \<le> fst m) ms)) \<and>
   get_recent_logs count lg = last_n count (log_buffer lg)"
  using log_all_buffer[of "set_level level new_logger" ms]
  by (auto simp: set_level_def new_logger_def MAX_LOGS_def get_recent_logs_def last_n_def)

end
