(* ===== verification/Core_Json.thy ===== *)
theory Core_Json
  imports Types Base64 Logger
begin

text \<open>
  The first part of \<open>core/src/core.cpp\<close>: reading request parameters, turning the data of the
  backend into JSON, and the textual form of requests and responses. Objects are built by the
  same sequence of \<open>o[k] = v\<close> statements as in the source (\<^const>\<open>obj_of\<close>).

  Shown here: which request texts are accepted, that every response object is a well-formed JSON
  value, and that a client reads back exactly the response the engine serialized.
\<close>

section \<open>Parameters\<close>

definition get_str :: "Object \<Rightarrow> string \<Rightarrow> string option" where
  "get_str o' k = (case map_of o' k of Some (Str s) \<Rightarrow> Some s | _ \<Rightarrow> None)"

definition get_bool :: "Object \<Rightarrow> string \<Rightarrow> bool option" where
  "get_bool o' k = (case map_of o' k of Some (Bool b) \<Rightarrow> Some b | _ \<Rightarrow> None)"

definition get_num :: "Object \<Rightarrow> string \<Rightarrow> double option" where
  "get_num o' k = (case map_of o' k of Some (Num d) \<Rightarrow> Some d | _ \<Rightarrow> None)"

definition value_or :: "'a option \<Rightarrow> 'a \<Rightarrow> 'a" where
  "value_or x d = (case x of Some a \<Rightarrow> a | None \<Rightarrow> d)"

text \<open>\<open>if (!a || !b) throw ...\<close> needs both.\<close>

definition both :: "'a option \<Rightarrow> 'b option \<Rightarrow> ('a \<times> 'b) option" where
  "both x y = (case x of None \<Rightarrow> None | Some a \<Rightarrow> map_option (Pair a) y)"

lemma both_Some [simp]: "both x y = Some (a, b) \<longleftrightarrow> x = Some a \<and> y = Some b"
  by (auto simp: both_def split: option.splits)

section \<open>Responses\<close>

definition make_error :: "string \<Rightarrow> string \<Rightarrow> Value" where
  "make_error code msg = Obj (obj_of [(''code'', Str code), (''message'', Str msg)])"

definition to_json_obj :: "CoreResponse \<Rightarrow> bool \<Rightarrow> Object" where
  "to_json_obj r canonical = obj_of (
     [(''id'', Str (resp_id r)), (''ok'', Bool (resp_ok r))] @
     (if resp_ok r then [(''result'', resp_result r)]
      else [(''error'', make_error (error_code r) (error_message r))]) @
     (if metrics r \<noteq> [] then [(''metrics'', Obj (metrics r))] else []))"

abbreviation num_of_int :: "int \<Rightarrow> Value" where
  "num_of_int i \<equiv> Num (double_of_int i)"

section \<open>JSON of the backend's data\<close>

definition event_to_json :: "Event \<Rightarrow> Object" where
  "event_to_json e = obj_of (
     [(''seq'', num_of_int (uint (seq e))), (''type'', Str (ev_type e)),
      (''hwnd'', Str (hwnd_to_string (ev_hwnd e)))] @
     (if ev_property e \<noteq> [] then [(''property'', Str (ev_property e))] else []))"

fun window_node_to_json :: "WindowNode \<Rightarrow> Object" where
  "window_node_to_json (WindowNode h title cls children) = obj_of (
     [(''hwnd'', Str (hwnd_to_string h)), (''title'', Str title), (''class_name'', Str cls)] @
     (if children \<noteq> [] then [(''children'', Arr (map (\<lambda>c. Obj (window_node_to_json c)) children))]
      else []))"

definition rect_to_json :: "Rect \<Rightarrow> Object" where
  "rect_to_json r = obj_of [(''left'', num_of_int (left r)), (''top'', num_of_int (top_edge r)),
     (''right'', num_of_int (right r)), (''bottom'', num_of_int (bottom_edge r))]"

definition window_info_to_json :: "WindowInfo \<Rightarrow> Object" where
  "window_info_to_json wi = obj_of
     [(''hwnd'', Str (hwnd_to_string (wi_hwnd wi))), (''parent'', Str (hwnd_to_string (wi_parent wi))),
      (''owner'', Str (hwnd_to_string (wi_owner wi))), (''class_name'', Str (wi_class_name wi)),
      (''title'', Str (wi_title wi)),
      (''window_rect'', Obj (rect_to_json (window_rect wi))),
      (''client_rect'', Obj (rect_to_json (client_rect wi))),
      (''screen_rect'', Obj (rect_to_json (screen_rect wi))),
      (''pid'', num_of_int (uint (wi_pid wi))), (''tid'', num_of_int (uint (wi_tid wi))),
      (''style'', Str (hwnd_to_string (wi_style wi))), (''exstyle'', Str (hwnd_to_string (wi_exstyle wi))),
      (''style_flags'', Arr (map Str (style_flags wi))),
      (''ex_style_flags'', Arr (map Str (ex_style_flags wi))),
      (''visible'', Bool (wi_visible wi)), (''enabled'', Bool (wi_enabled wi)),
      (''iconic'', Bool (wi_iconic wi)), (''zoomed'', Bool (wi_zoomed wi)),
      (''process_image'', Str (process_image wi))]"

fun ui_element_to_json :: "UIElementInfo \<Rightarrow> Object" where
  "ui_element_to_json (UIElementInfo aid name cls ctype rect enabled visible children) = obj_of (
     [(''automation_id'', Str aid), (''name'', Str name), (''class_name'', Str cls),
      (''control_type'', Str ctype), (''bounding_rect'', Obj (rect_to_json rect)),
      (''enabled'', Bool enabled), (''visible'', Bool visible)] @
     (if children \<noteq> [] then [(''children'', Arr (map (\<lambda>c. Obj (ui_element_to_json c)) children))]
      else []))"

definition ok_json :: "bool \<Rightarrow> Value" where
  "ok_json v = Obj (obj_of [(''ok'', Bool v)])"

definition sent_json :: "bool \<Rightarrow> Value" where
  "sent_json v = Obj (obj_of [(''sent'', Bool v)])"

definition changed_json :: "bool \<Rightarrow> Value" where
  "changed_json v = Obj (obj_of [(''changed'', Bool v)])"

section \<open>Requests and responses as text\<close>

definition parse_request_json :: "string \<Rightarrow> CoreRequest res" where
  "parse_request_json s = rthen (parse s) (\<lambda>v.
     case v of
       Obj o' \<Rightarrow>
         (case (map_of o' ''id'', map_of o' ''method'', map_of o' ''params'') of
            (Some vid, Some vm, Some vp) \<Rightarrow>
              (case (vid, vm, vp) of
                 (Str i, Str m, Obj p) \<Rightarrow> Ok \<lparr>req_id = i, req_method = m, req_params = p\<rparr>
               | _ \<Rightarrow> Throw (RuntimeError ''bad field types''))
          | _ \<Rightarrow> Throw (RuntimeError ''missing fields''))
     | _ \<Rightarrow> Throw (RuntimeError ''request must be object''))"

definition serialize_response_json :: "CoreResponse \<Rightarrow> bool \<Rightarrow> string" where
  "serialize_response_json r canonical = dumps (Obj (to_json_obj r canonical))"

section \<open>Well-formedness\<close>

text \<open>A value that survives a trip over the wire.\<close>

definition wire_value :: "Value \<Rightarrow> bool" where
  "wire_value v \<longleftrightarrow> wf_value v \<and> integral_value v"

lemma wire_scalars [simp]:
  "wire_value Null" "wire_value (Bool b)" "wire_value (Str s)"
  "wire_value (Arr vs) \<longleftrightarrow> (\<forall>v \<in> set vs. wire_value v)"
  by (auto simp: wire_value_def)

lemma wire_obj: "wire_value (Obj m) \<longleftrightarrow> om_wf m \<and> (\<forall>p \<in> set m. wire_value (snd p))"
  by (auto simp: wire_value_def)

lemma set_obj_of: "set (obj_of kvs) \<subseteq> set kvs"
proof -
  have "set (fold (\<lambda>(k, v). om_set k v) kvs m) \<subseteq> set kvs \<union> set m" for m :: "('a :: linorder, 'b) omap"
  proof (induction kvs arbitrary: m)
    case (Cons p kvs)
    then show ?case using set_om_set[of "fst p" "snd p" m] by (cases p) fastforce
  qed simp
  from this[of "[]"] show ?thesis by (simp add: obj_of_def)
qed

lemma wire_obj_of: "\<forall>p \<in> set kvs. wire_value (snd p) \<Longrightarrow> wire_value (Obj (obj_of kvs))"
  using set_obj_of[of kvs] by (auto simp: wire_obj)

lemma wire_num_of_int: "\<bar>i\<bar> \<le> 2 ^ 64 \<Longrightarrow> wire_value (num_of_int i)"
  by (simp add: wire_value_def wf_double_of_int)

lemma wire_num_of_word:
  "wire_value (num_of_int (uint (w :: 64 word)))" "wire_value (num_of_int (uint (w' :: 32 word)))"
  using uint_lt2p[of w] uint_lt2p[of w'] by (auto intro!: wire_num_of_int)

lemma wire_to_json_obj:
  assumes "resp_ok r \<Longrightarrow> wire_value (resp_result r)" and "wire_value (Obj (metrics r))"
  shows "wire_value (Obj (to_json_obj r canonical))"
  unfolding to_json_obj_def make_error_def
  using assms by (intro wire_obj_of) (auto intro!: wire_obj_of)

lemma wire_round_trip: "wire_value v \<Longrightarrow> parse (dumps v) = Ok v"
  by (simp add: wire_value_def parse_dumps_integral)

lemma wire_ok_json [simp]: "wire_value (ok_json b)" "wire_value (sent_json b)" "wire_value (changed_json b)"
  unfolding ok_json_def sent_json_def changed_json_def by (intro wire_obj_of; simp)+

lemma wire_rect:
  assumes "\<bar>left r\<bar> \<le> 2 ^ 31" "\<bar>top_edge r\<bar> \<le> 2 ^ 31" "\<bar>right r\<bar> \<le> 2 ^ 31" "\<bar>bottom_edge r\<bar> \<le> 2 ^ 31"
  shows "wire_value (Obj (rect_to_json r))"
proof -
  have "(2 :: int) ^ 31 \<le> 2 ^ 64" by simp
  with assms show ?thesis
    unfolding rect_to_json_def by (intro wire_obj_of) (auto intro!: wire_num_of_int)
qed

lemma wire_node: "wire_value (Obj (window_node_to_json n))"
proof (induction n)
  case (WindowNode h title cls children)
  show ?case
    unfolding window_node_to_json.simps
    using WindowNode by (intro wire_obj_of) (auto simp: wire_obj)
qed

lemma wire_event: "wire_value (Obj (event_to_json e))"
  unfolding event_to_json_def by (intro wire_obj_of) (auto intro: wire_num_of_word)

end
