(* ===== verification/Backend.thy ===== *)
theory Backend
  imports Types
begin

text \<open>
  The interface \<open>IBackend\<close> of \<open>core/include/wininspect/backend.hpp\<close>: one field per virtual
  method, each a computation over the backend's own state. The engine and the daemon take a value
  of this record, as the C++ code takes an \<open>IBackend *\<close>, so what is proved of them holds for
  every backend: the deterministic one in \<open>Fake_Backend\<close> and any model of Windows.

  The two locales below are the contract of \<open>docs/CONTRACTS.md\<close> that the engine relies on:
  inspection methods leave the state alone, and a repeated desired-state action reports
  \<open>changed: false\<close> and changes nothing.
\<close>

text \<open>\<open>EnsureResult\<close> has the single field \<open>changed\<close>, so it is that boolean here.\<close>

record 's IBackend =
  set_config :: "Object \<Rightarrow> ('s, unit) comp"
  capture_snapshot :: "('s, Snapshot) comp"
  list_top :: "Snapshot \<Rightarrow> ('s, hwnd_u64 list) comp"
  list_children :: "Snapshot \<Rightarrow> hwnd_u64 \<Rightarrow> ('s, hwnd_u64 list) comp"
  get_info :: "Snapshot \<Rightarrow> hwnd_u64 \<Rightarrow> ('s, WindowInfo option) comp"
  pick_at_point :: "Snapshot \<Rightarrow> int \<Rightarrow> int \<Rightarrow> PickFlags \<Rightarrow> ('s, hwnd_u64 option) comp"
  get_window_tree :: "Snapshot \<Rightarrow> hwnd_u64 \<Rightarrow> ('s, WindowNode list) comp"
  ensure_visible :: "hwnd_u64 \<Rightarrow> bool \<Rightarrow> ('s, bool) comp"
  ensure_foreground :: "hwnd_u64 \<Rightarrow> ('s, bool) comp"
  highlight_window :: "hwnd_u64 \<Rightarrow> ('s, bool) comp"
  set_property :: "hwnd_u64 \<Rightarrow> string \<Rightarrow> string \<Rightarrow> ('s, bool) comp"
  post_message :: "hwnd_u64 \<Rightarrow> 32 word \<Rightarrow> 64 word \<Rightarrow> 64 word \<Rightarrow> ('s, bool) comp"
  send_input :: "bytes \<Rightarrow> ('s, bool) comp"
  send_mouse_click :: "int \<Rightarrow> int \<Rightarrow> int \<Rightarrow> ('s, bool) comp"
  send_key_press :: "int \<Rightarrow> ('s, bool) comp"
  send_text :: "string \<Rightarrow> ('s, bool) comp"
  control_click :: "hwnd_u64 \<Rightarrow> int \<Rightarrow> int \<Rightarrow> int \<Rightarrow> ('s, bool) comp"
  control_send :: "hwnd_u64 \<Rightarrow> string \<Rightarrow> ('s, bool) comp"
  get_pixel :: "int \<Rightarrow> int \<Rightarrow> ('s, Color option) comp"
  capture_screen :: "Rect \<Rightarrow> ('s, ScreenCapture option) comp"
  pixel_search :: "Rect \<Rightarrow> Color \<Rightarrow> int \<Rightarrow> ('s, (int \<times> int) option) comp"
  list_processes :: "('s, ProcessInfo list) comp"
  kill_process :: "32 word \<Rightarrow> ('s, bool) comp"
  get_file_info :: "string \<Rightarrow> ('s, FileInfo option) comp"
  read_file_content :: "string \<Rightarrow> ('s, string option) comp"
  find_windows_regex :: "string \<Rightarrow> string \<Rightarrow> ('s, hwnd_u64 list) comp"
  reg_read :: "string \<Rightarrow> ('s, RegistryKeyInfo option) comp"
  reg_write :: "string \<Rightarrow> RegistryValue \<Rightarrow> ('s, bool) comp"
  reg_delete :: "string \<Rightarrow> string \<Rightarrow> ('s, bool) comp"
  reg_subscribe :: "string \<Rightarrow> ('s, bool) comp"
  clipboard_read :: "('s, string option) comp"
  clipboard_write :: "string \<Rightarrow> ('s, bool) comp"
  service_list :: "('s, ServiceInfo list) comp"
  service_status :: "string \<Rightarrow> ('s, string) comp"
  service_control :: "string \<Rightarrow> string \<Rightarrow> ('s, bool) comp"
  env_get_all :: "('s, EnvVar list) comp"
  env_set :: "string \<Rightarrow> string \<Rightarrow> ('s, bool) comp"
  wine_get_drives :: "('s, DriveInfo list) comp"
  wine_get_overrides :: "('s, string list) comp"
  sync_check_mutex :: "string \<Rightarrow> ('s, bool) comp"
  sync_create_mutex :: "string \<Rightarrow> bool \<Rightarrow> ('s, bool) comp"
  mem_read :: "32 word \<Rightarrow> 64 word \<Rightarrow> 64 word \<Rightarrow> ('s, MemoryRegion option) comp"
  mem_write :: "32 word \<Rightarrow> 64 word \<Rightarrow> bytes \<Rightarrow> ('s, bool) comp"
  image_match :: "Rect \<Rightarrow> bytes \<Rightarrow> ('s, ImageMatchResult option) comp"
  input_hook_enable :: "bool \<Rightarrow> ('s, bool) comp"
  inspect_ui_elements :: "hwnd_u64 \<Rightarrow> ('s, UIElementInfo list) comp"
  invoke_ui_element :: "hwnd_u64 \<Rightarrow> string \<Rightarrow> ('s, bool) comp"
  get_capabilities :: "('s, Capabilities) comp"
  get_env_metadata :: "('s, Object) comp"
  check_for_update :: "('s, UpdateInfo) comp"
  download_update :: "string \<Rightarrow> string \<Rightarrow> ('s, string) comp"
  poll_events :: "Snapshot \<Rightarrow> Snapshot \<Rightarrow> ('s, Event list) comp"

section \<open>The contract\<close>

text \<open>The methods that only look.\<close>

locale inspecting_backend =
  fixes B :: "'s IBackend"
  assumes list_top_const: "const_comp (list_top B snap)"
    and list_children_const: "const_comp (list_children B snap h)"
    and get_info_const: "const_comp (get_info B snap h)"
    and pick_at_point_const: "const_comp (pick_at_point B snap x y fl)"
    and get_window_tree_const: "const_comp (get_window_tree B snap h)"
    and get_pixel_const: "const_comp (get_pixel B x y)"
    and capture_screen_const: "const_comp (capture_screen B rect)"
    and pixel_search_const: "const_comp (pixel_search B rect col var)"
    and list_processes_const: "const_comp (list_processes B)"
    and get_file_info_const: "const_comp (get_file_info B path)"
    and read_file_content_const: "const_comp (read_file_content B path)"
    and find_windows_regex_const: "const_comp (find_windows_regex B t c)"
    and reg_read_const: "const_comp (reg_read B path)"
    and clipboard_read_const: "const_comp (clipboard_read B)"
    and service_list_const: "const_comp (service_list B)"
    and service_status_const: "const_comp (service_status B name)"
    and env_get_all_const: "const_comp (env_get_all B)"
    and wine_get_drives_const: "const_comp (wine_get_drives B)"
    and wine_get_overrides_const: "const_comp (wine_get_overrides B)"
    and sync_check_mutex_const: "const_comp (sync_check_mutex B name)"
    and mem_read_const: "const_comp (mem_read B pid addr n)"
    and image_match_const: "const_comp (image_match B rect bmp)"
    and inspect_ui_elements_const: "const_comp (inspect_ui_elements B h)"
    and get_capabilities_const: "const_comp (get_capabilities B)"
    and get_env_metadata_const: "const_comp (get_env_metadata B)"
    and check_for_update_const: "const_comp (check_for_update B)"
    and poll_events_const: "const_comp (poll_events B old new)"
begin

lemmas query_const = list_top_const list_children_const get_info_const pick_at_point_const
  get_window_tree_const get_pixel_const capture_screen_const pixel_search_const list_processes_const
  get_file_info_const read_file_content_const find_windows_regex_const reg_read_const
  clipboard_read_const service_list_const service_status_const env_get_all_const
  wine_get_drives_const wine_get_overrides_const sync_check_mutex_const mem_read_const
  image_match_const inspect_ui_elements_const get_capabilities_const get_env_metadata_const
  check_for_update_const poll_events_const

end

text \<open>The desired-state actions, which never throw and settle after one call.\<close>

locale ensuring_backend = inspecting_backend +
  assumes ensure_visible_returns: "\<exists>c s'. ensure_visible B h v s = (Ok c, s')"
    and ensure_visible_settles:
      "ensure_visible B h v s = (Ok c, s') \<Longrightarrow> ensure_visible B h v s' = (Ok False, s')"
    and ensure_foreground_returns: "\<exists>c s'. ensure_foreground B h s = (Ok c, s')"
    and ensure_foreground_settles:
      "ensure_foreground B h s = (Ok c, s') \<Longrightarrow> ensure_foreground B h s' = (Ok False, s')"

end
