(* ===== verification/Core_Handlers.thy ===== *)
theory Core_Handlers
  imports Core_Json Backend
begin

text \<open>
  The handlers \<open>CoreEngine::build_dispatch_table\<close> installs, one definition per protocol method
  and in the order of \<open>core/src/core.cpp\<close>. A handler is a computation over the backend's
  state; \<open>need\<close> is the \<open>if (!x) throw\<close> test in front of a use, \<open>defined\<close> a
  conversion of a JSON number to an integer type, which has no defined result out of range.
\<close>

section \<open>Shapes of responses\<close>

definition reply :: "Value \<Rightarrow> CoreResponse" where
  "reply v = new_response\<lparr>resp_ok := True, resp_result := v\<rparr>"

definition refuse :: "string \<Rightarrow> string \<Rightarrow> CoreResponse" where
  "refuse code msg = new_response\<lparr>resp_ok := False, error_code := code, error_message := msg\<rparr>"

type_synonym 's handler = "CoreRequest \<Rightarrow> Snapshot \<Rightarrow> Snapshot option \<Rightarrow> ('s, CoreResponse) comp"

abbreviation str_param :: "CoreRequest \<Rightarrow> string \<Rightarrow> string option" where
  "str_param req k \<equiv> get_str (req_params req) k"

abbreviation num_param :: "CoreRequest \<Rightarrow> string \<Rightarrow> double option" where
  "num_param req k \<equiv> get_num (req_params req) k"

abbreviation bool_param :: "CoreRequest \<Rightarrow> string \<Rightarrow> bool option" where
  "bool_param req k \<equiv> get_bool (req_params req) k"

abbreviation zero_double :: double where
  "zero_double \<equiv> double_of_int 0"

text \<open>The two tests in front of every method that takes a window handle.\<close>

definition need_hwnd :: "string \<Rightarrow> ('s, hwnd_u64) comp" where
  "need_hwnd hs = need (parse_hwnd hs) ''bad hwnd''"

definition hwnd_param :: "CoreRequest \<Rightarrow> ('s, hwnd_u64) comp" where
  "hwnd_param req = andThen (need (str_param req ''hwnd'') ''missing hwnd'') need_hwnd"

definition hwnd_list :: "hwnd_u64 list \<Rightarrow> Value" where
  "hwnd_list hs = Arr (map (\<lambda>h. Obj (obj_of [(''hwnd'', Str (hwnd_to_string h))])) hs)"

text \<open>\<open>Rect rect{(long)*l, (long)*t, (long)*r, (long)*bm};\<close>\<close>

definition rect_of :: "double \<times> double \<times> double \<times> double \<Rightarrow> ('s, Rect) comp" where
  "rect_of region = (case region of (l, t, r, b) \<Rightarrow>
     andThen (defined (cast_int l)) (\<lambda>l'. andThen (defined (cast_int t)) (\<lambda>t'.
     andThen (defined (cast_int r)) (\<lambda>r'. andThen (defined (cast_int b)) (\<lambda>b'.
       ret \<lparr>left = l', top_edge = t', right = r', bottom_edge = b'\<rparr>)))))"

section \<open>Events and sessions\<close>

text \<open>
  \<open>elapsed\<close> is the one reading of the clock the loop makes before it returns or, having slept
  once, leaves with an empty list.
\<close>

definition number_events :: "Event list \<Rightarrow> Event list" where
  "number_events es = map (\<lambda>(i, e). e\<lparr>seq := of_nat (i + 1)\<rparr>) (enumerate 0 es)"

definition h_events_poll :: "'s IBackend \<Rightarrow> int \<Rightarrow> 's handler" where
  "h_events_poll B elapsed req snap old =
     (case old of
        None \<Rightarrow> throw (RuntimeError ''events.poll requires two snapshots'')
      | Some old_snap \<Rightarrow>
          (let resp = new_response\<lparr>resp_id := req_id req\<rparr>;
               wait_ms = value_or (num_param req ''wait_ms'') zero_double;
               interval_ms = value_or (num_param req ''interval_ms'') (double_of_int 100)
           in andThen (poll_events B old_snap snap) (\<lambda>events.
                let answer = resp\<lparr>resp_ok := True, resp_result :=
                      Arr (map (\<lambda>e. Obj (event_to_json e)) (number_events events))\<rparr>
                in if events \<noteq> [] \<or> dmag wait_ms = 0 then ret answer
                   else andThen (defined (cast_llong wait_ms)) (\<lambda>w.
                     if w \<le> elapsed then ret answer
                     else andThen (defined (cast_int interval_ms)) (\<lambda>_.
                       ret (resp\<lparr>resp_ok := True, resp_result := Arr []\<rparr>))))))"

definition h_session_terminate :: "'s handler" where
  "h_session_terminate req snap old = ret (reply (Obj (obj_of [(''terminated'', Bool True)])))"

section \<open>Windows\<close>

definition h_list_top :: "'s IBackend \<Rightarrow> 's handler" where
  "h_list_top B req snap old = andThen (list_top B snap) (\<lambda>hs. ret (reply (hwnd_list hs)))"

definition h_list_children :: "'s IBackend \<Rightarrow> 's handler" where
  "h_list_children B req snap old = andThen (hwnd_param req) (\<lambda>h.
     andThen (list_children B snap h) (\<lambda>hs. ret (reply (hwnd_list hs))))"

definition h_get_tree :: "'s IBackend \<Rightarrow> 's handler" where
  "h_get_tree B req snap old =
     andThen (case str_param req ''hwnd'' of None \<Rightarrow> ret 0 | Some hs \<Rightarrow> need_hwnd hs) (\<lambda>root_h.
     andThen (get_window_tree B snap root_h) (\<lambda>nodes.
       ret (reply (Arr (map (\<lambda>n. Obj (window_node_to_json n)) nodes)))))"

definition h_highlight :: "'s IBackend \<Rightarrow> 's handler" where
  "h_highlight B req snap old = andThen (hwnd_param req) (\<lambda>h.
     andThen (highlight_window B h) (\<lambda>b. ret (reply (Obj (obj_of [(''highlighted'', Bool b)])))))"

definition h_get_info :: "'s IBackend \<Rightarrow> 's handler" where
  "h_get_info B req snap old = andThen (hwnd_param req) (\<lambda>h.
     andThen (get_info B snap h) (\<lambda>info. ret (case info of
       None \<Rightarrow> refuse ''E_BAD_HWND'' ''not a valid window handle''
     | Some wi \<Rightarrow> reply (Obj (window_info_to_json wi)))))"

definition h_pick_at_point :: "'s IBackend \<Rightarrow> 's handler" where
  "h_pick_at_point B req snap old =
     andThen (need (both (num_param req ''x'') (num_param req ''y'')) ''missing x/y'') (\<lambda>(x, y).
     let flags = \<lparr>prefer_child = value_or (bool_param req ''prefer_child'') (prefer_child default_flags),
       ignore_transparent = value_or (bool_param req ''ignore_transparent'') (ignore_transparent default_flags)\<rparr> in
     andThen (defined (cast_int x)) (\<lambda>xi. andThen (defined (cast_int y)) (\<lambda>yi.
     andThen (pick_at_point B snap xi yi flags) (\<lambda>h. ret (case h of
       None \<Rightarrow> refuse ''E_NOT_FOUND'' ''no window at point''
     | Some h' \<Rightarrow> reply (Obj (obj_of [(''hwnd'', Str (hwnd_to_string h'))])))))))"

section \<open>Desired-state actions\<close>

definition h_ensure_visible :: "'s IBackend \<Rightarrow> 's handler" where
  "h_ensure_visible B req snap old =
     andThen (need (both (str_param req ''hwnd'') (bool_param req ''visible'')) ''missing hwnd/visible'') (\<lambda>(hs, vis).
     andThen (need_hwnd hs) (\<lambda>h.
     andThen (ensure_visible B h vis) (\<lambda>c. ret (reply (changed_json c)))))"

definition h_ensure_foreground :: "'s IBackend \<Rightarrow> 's handler" where
  "h_ensure_foreground B req snap old = andThen (hwnd_param req) (\<lambda>h.
     andThen (ensure_foreground B h) (\<lambda>c. ret (reply (changed_json c))))"

definition h_set_property :: "'s IBackend \<Rightarrow> 's handler" where
  "h_set_property B req snap old =
     andThen (need (both (str_param req ''hwnd'') (both (str_param req ''name'') (str_param req ''value'')))
       ''missing hwnd/name/value'') (\<lambda>(hs, name, val).
     andThen (need_hwnd hs) (\<lambda>h.
     andThen (set_property B h name val) (\<lambda>b. ret (reply (ok_json b)))))"

definition h_post_message :: "'s IBackend \<Rightarrow> 's handler" where
  "h_post_message B req snap old =
     andThen (need (both (str_param req ''hwnd'') (num_param req ''msg'')) ''missing hwnd/msg'') (\<lambda>(hs, msg).
     andThen (need_hwnd hs) (\<lambda>h.
     andThen (defined (cast_u32 msg)) (\<lambda>m.
     andThen (defined (cast_u64 (value_or (num_param req ''wparam'') zero_double))) (\<lambda>wp.
     andThen (defined (cast_u64 (value_or (num_param req ''lparam'') zero_double))) (\<lambda>lp.
     andThen (post_message B h m wp lp) (\<lambda>b. ret (reply (sent_json b))))))))"

section \<open>Input\<close>

definition h_input_send :: "'s IBackend \<Rightarrow> 's handler" where
  "h_input_send B req snap old =
     andThen (need (str_param req ''data_b64'') ''missing data_b64'') (\<lambda>d.
     andThen (send_input B (decode d)) (\<lambda>b. ret (reply (sent_json b))))"

definition h_mouse_click :: "'s IBackend \<Rightarrow> 's handler" where
  "h_mouse_click B req snap old =
     andThen (need (both (num_param req ''x'') (num_param req ''y'')) ''missing x/y'') (\<lambda>(x, y).
     andThen (defined (cast_int (value_or (num_param req ''button'') zero_double))) (\<lambda>btn.
     andThen (defined (cast_int x)) (\<lambda>xi. andThen (defined (cast_int y)) (\<lambda>yi.
     andThen (send_mouse_click B xi yi btn) (\<lambda>b. ret (reply (sent_json b)))))))"

definition h_key_press :: "'s IBackend \<Rightarrow> 's handler" where
  "h_key_press B req snap old =
     andThen (need (num_param req ''vk'') ''missing vk'') (\<lambda>vk.
     andThen (defined (cast_int vk)) (\<lambda>k.
     andThen (send_key_press B k) (\<lambda>b. ret (reply (sent_json b)))))"

definition h_input_text :: "'s IBackend \<Rightarrow> 's handler" where
  "h_input_text B req snap old =
     andThen (need (str_param req ''text'') ''missing text'') (\<lambda>t.
     andThen (send_text B t) (\<lambda>b. ret (reply (sent_json b))))"

definition h_control_click :: "'s IBackend \<Rightarrow> 's handler" where
  "h_control_click B req snap old =
     andThen (need (both (str_param req ''hwnd'') (both (num_param req ''x'') (num_param req ''y'')))
       ''missing hwnd/x/y'') (\<lambda>(hs, x, y).
     andThen (need_hwnd hs) (\<lambda>h.
     andThen (defined (cast_int (value_or (num_param req ''button'') zero_double))) (\<lambda>btn.
     andThen (defined (cast_int x)) (\<lambda>xi. andThen (defined (cast_int y)) (\<lambda>yi.
     andThen (control_click B h xi yi btn) (\<lambda>b. ret (reply (sent_json b))))))))"

definition h_control_send :: "'s IBackend \<Rightarrow> 's handler" where
  "h_control_send B req snap old =
     andThen (need (both (str_param req ''hwnd'') (str_param req ''text'')) ''missing hwnd/text'') (\<lambda>(hs, t).
     andThen (need_hwnd hs) (\<lambda>h.
     andThen (control_send B h t) (\<lambda>b. ret (reply (sent_json b)))))"

section \<open>Screen\<close>

definition h_get_pixel :: "'s IBackend \<Rightarrow> 's handler" where
  "h_get_pixel B req snap old =
     andThen (need (both (num_param req ''x'') (num_param req ''y'')) ''missing x/y'') (\<lambda>(x, y).
     andThen (defined (cast_int x)) (\<lambda>xi. andThen (defined (cast_int y)) (\<lambda>yi.
     andThen (get_pixel B xi yi) (\<lambda>c.
     andThen (need c ''failed to get pixel'') (\<lambda>col.
       ret (reply (Obj (obj_of [(''hex'', Str (to_hex col)), (''r'', num_of_int (uint (red col))),
         (''g'', num_of_int (uint (green col))), (''b'', num_of_int (uint (blue col)))]))))))))"

abbreviation region_param :: "CoreRequest \<Rightarrow> (double \<times> double \<times> double \<times> double) option" where
  "region_param req \<equiv> both (num_param req ''left'') (both (num_param req ''top'')
     (both (num_param req ''right'') (num_param req ''bottom'')))"

definition h_screen_capture :: "'s IBackend \<Rightarrow> 's handler" where
  "h_screen_capture B req snap old =
     andThen (need (region_param req) ''missing region'') (\<lambda>region.
     andThen (rect_of region) (\<lambda>rect.
     andThen (capture_screen B rect) (\<lambda>sc.
     andThen (need sc ''capture failed'') (\<lambda>s.
       ret (reply (Obj (obj_of [(''width'', num_of_int (sc_width s)), (''height'', num_of_int (sc_height s)),
         (''data_b64'', Str (sc_data_b64 s))])))))))"

definition h_pixel_search :: "'s IBackend \<Rightarrow> 's handler" where
  "h_pixel_search B req snap old =
     andThen (need (both (region_param req) (both (num_param req ''r'')
       (both (num_param req ''g'') (num_param req ''b'')))) ''missing parameters'')
       (\<lambda>(region, rv, gv, bv).
     andThen (rect_of region) (\<lambda>rect.
     andThen (defined (cast_u8 rv)) (\<lambda>cr. andThen (defined (cast_u8 gv)) (\<lambda>cg.
     andThen (defined (cast_u8 bv)) (\<lambda>cb.
     andThen (defined (cast_int (value_or (num_param req ''variation'') zero_double))) (\<lambda>var.
     andThen (pixel_search B rect \<lparr>red = cr, green = cg, blue = cb\<rparr> var) (\<lambda>res. ret (case res of
       Some (x, y) \<Rightarrow> reply (Obj (obj_of [(''x'', num_of_int x), (''y'', num_of_int y)]))
     | None \<Rightarrow> refuse ''E_NOT_FOUND'' ''color not found in region''))))))))"

section \<open>Processes, files, clipboard\<close>

definition h_process_list :: "'s IBackend \<Rightarrow> 's handler" where
  "h_process_list B req snap old = andThen (list_processes B) (\<lambda>ps.
     ret (reply (Arr (map (\<lambda>p. Obj (obj_of [(''pid'', num_of_int (uint (pr_pid p))),
       (''name'', Str (pr_name p)), (''path'', Str (pr_path p))])) ps))))"

definition h_process_kill :: "'s IBackend \<Rightarrow> 's handler" where
  "h_process_kill B req snap old =
     andThen (need (num_param req ''pid'') ''missing pid'') (\<lambda>pid.
     andThen (defined (cast_u32 pid)) (\<lambda>p.
     andThen (kill_process B p) (\<lambda>b. ret (reply (ok_json b)))))"

definition h_file_get_info :: "'s IBackend \<Rightarrow> 's handler" where
  "h_file_get_info B req snap old =
     andThen (need (str_param req ''path'') ''missing path'') (\<lambda>path.
     andThen (get_file_info B path) (\<lambda>fi. ret (case fi of
       None \<Rightarrow> refuse ''E_NOT_FOUND'' []
     | Some f \<Rightarrow> reply (Obj (obj_of [(''path'', Str (fi_path f)), (''size'', num_of_int (uint (fi_size f))),
         (''is_directory'', Bool (fi_is_directory f))])))))"

definition bytes_of_string :: "string \<Rightarrow> bytes" where
  "bytes_of_string s = map (\<lambda>c. of_nat (code_of c)) s"

definition h_file_read :: "'s IBackend \<Rightarrow> 's handler" where
  "h_file_read B req snap old =
     andThen (need (str_param req ''path'') ''missing path'') (\<lambda>path.
     andThen (read_file_content B path) (\<lambda>content. ret (case content of
       None \<Rightarrow> refuse ''E_READ_FAILED'' []
     | Some c \<Rightarrow> reply (Obj (obj_of [(''content_b64'', Str (encode (bytes_of_string c)))])))))"

definition h_clipboard_read :: "'s IBackend \<Rightarrow> 's handler" where
  "h_clipboard_read B req snap old = andThen (clipboard_read B) (\<lambda>t.
     ret (reply (Obj (obj_of (case t of Some x \<Rightarrow> [(''text'', Str x)] | None \<Rightarrow> [])))))"

definition h_clipboard_write :: "'s IBackend \<Rightarrow> 's handler" where
  "h_clipboard_write B req snap old =
     andThen (need (str_param req ''text'') ''missing text'') (\<lambda>t.
     andThen (clipboard_write B t) (\<lambda>b. ret (reply (ok_json b))))"

section \<open>Services\<close>

definition h_service_list :: "'s IBackend \<Rightarrow> 's handler" where
  "h_service_list B req snap old = andThen (service_list B) (\<lambda>svcs.
     ret (reply (Arr (map (\<lambda>s. Obj (obj_of [(''name'', Str (sv_name s)),
       (''display_name'', Str (sv_display_name s)), (''state'', Str (sv_state s))])) svcs))))"

definition h_service_status :: "'s IBackend \<Rightarrow> 's handler" where
  "h_service_status B req snap old =
     andThen (need (str_param req ''name'') ''missing name'') (\<lambda>name.
     andThen (service_status B name) (\<lambda>st. ret (reply (Obj (obj_of [(''status'', Str st)])))))"

definition h_service_control :: "'s IBackend \<Rightarrow> 's handler" where
  "h_service_control B req snap old =
     andThen (need (both (str_param req ''name'') (str_param req ''action'')) ''missing name/action'') (\<lambda>(name, action).
     andThen (service_control B name action) (\<lambda>b. ret (reply (ok_json b))))"

section \<open>Environment\<close>

definition sensitive_words :: "string list" where
  "sensitive_words = [''SECRET'', ''TOKEN'', ''KEY'', ''PASSWORD'', ''PASSWD'', ''CREDENTIAL'', ''AUTH'']"

definition sensitive :: "string \<Rightarrow> bool" where
  "sensitive name = (let upper = map toupper name in \<exists>w \<in> set sensitive_words. str_contains w upper)"

definition env_object :: "EnvVar list \<Rightarrow> Object" where
  "env_object vars = obj_of (map (\<lambda>v. (ev_name v,
     Str (if sensitive (ev_name v) then ''<REDACTED>'' else ev_value v))) vars)"

definition h_env_get :: "'s IBackend \<Rightarrow> 's handler" where
  "h_env_get B req snap old = andThen (env_get_all B) (\<lambda>vars. ret (reply (Obj (env_object vars))))"

definition h_env_set :: "'s IBackend \<Rightarrow> 's handler" where
  "h_env_set B req snap old =
     andThen (need (both (str_param req ''name'') (str_param req ''value'')) ''missing name/value'') (\<lambda>(name, val).
     andThen (env_set B name val) (\<lambda>b. ret (reply (ok_json b))))"

definition h_wine_drives :: "'s IBackend \<Rightarrow> 's handler" where
  "h_wine_drives B req snap old = andThen (wine_get_drives B) (\<lambda>ds.
     ret (reply (Arr (map (\<lambda>d. Obj (obj_of [(''letter'', Str (dr_letter d)),
       (''mapping'', Str (dr_mapping d)), (''type'', Str (dr_type d))])) ds))))"

definition h_wine_overrides :: "'s IBackend \<Rightarrow> 's handler" where
  "h_wine_overrides B req snap old = andThen (wine_get_overrides B) (\<lambda>os. ret (reply (Arr (map Str os))))"

section \<open>Synchronisation, memory, images\<close>

definition h_check_mutex :: "'s IBackend \<Rightarrow> 's handler" where
  "h_check_mutex B req snap old =
     andThen (need (str_param req ''name'') ''missing name'') (\<lambda>name.
     andThen (sync_check_mutex B name) (\<lambda>b. ret (reply (Obj (obj_of [(''exists'', Bool b)])))))"

definition h_create_mutex :: "'s IBackend \<Rightarrow> 's handler" where
  "h_create_mutex B req snap old =
     andThen (need (str_param req ''name'') ''missing name'') (\<lambda>name.
     andThen (sync_create_mutex B name (value_or (bool_param req ''own'') True)) (\<lambda>b.
       ret (reply (Obj (obj_of [(''created'', Bool b)])))))"

definition h_mem_read :: "'s IBackend \<Rightarrow> 's handler" where
  "h_mem_read B req snap old =
     andThen (need (both (num_param req ''pid'') (both (num_param req ''address'') (num_param req ''size'')))
       ''missing parameters'') (\<lambda>(pid, addr, sz).
     andThen (defined (cast_u32 pid)) (\<lambda>p. andThen (defined (cast_u64 addr)) (\<lambda>a.
     andThen (defined (cast_u64 sz)) (\<lambda>n.
     andThen (mem_read B p a n) (\<lambda>res. ret (case res of
       None \<Rightarrow> new_response\<lparr>resp_ok := False\<rparr>
     | Some m \<Rightarrow> reply (Obj (obj_of [(''address'', num_of_int (uint (mr_address m))),
         (''data_b64'', Str (mr_data_b64 m))]))))))))"

definition h_mem_write :: "'s IBackend \<Rightarrow> 's handler" where
  "h_mem_write B req snap old =
     andThen (need (both (num_param req ''pid'') (both (num_param req ''address'') (str_param req ''data_b64'')))
       ''missing parameters'') (\<lambda>(pid, addr, d).
     andThen (defined (cast_u32 pid)) (\<lambda>p. andThen (defined (cast_u64 addr)) (\<lambda>a.
     andThen (mem_write B p a (decode d)) (\<lambda>b. ret (reply (ok_json b))))))"

definition h_image_match :: "'s IBackend \<Rightarrow> 's handler" where
  "h_image_match B req snap old =
     andThen (need (both (region_param req) (str_param req ''sub_image_b64'')) ''missing parameters'')
       (\<lambda>(region, sub).
     andThen (rect_of region) (\<lambda>rect.
     andThen (image_match B rect (decode sub)) (\<lambda>res. ret (case res of
       None \<Rightarrow> new_response\<lparr>resp_ok := False\<rparr>
     | Some m \<Rightarrow> reply (Obj (obj_of [(''x'', num_of_int (im_x m)), (''y'', num_of_int (im_y m)),
         (''confidence'', Num (im_confidence m))]))))))"

definition h_input_hook :: "'s IBackend \<Rightarrow> 's handler" where
  "h_input_hook B req snap old =
     andThen (need (bool_param req ''enabled'') ''missing enabled'') (\<lambda>e.
     andThen (input_hook_enable B e) (\<lambda>b. ret (reply (ok_json b))))"

definition h_find_regex :: "'s IBackend \<Rightarrow> 's handler" where
  "h_find_regex B req snap old =
     andThen (find_windows_regex B (value_or (str_param req ''title_regex'') ''.*'')
       (value_or (str_param req ''class_regex'') ''.*'')) (\<lambda>hs. ret (reply (hwnd_list hs)))"

section \<open>Registry and UI Automation\<close>

definition h_reg_read :: "'s IBackend \<Rightarrow> 's handler" where
  "h_reg_read B req snap old =
     andThen (need (str_param req ''path'') ''missing path'') (\<lambda>path.
     andThen (reg_read B path) (\<lambda>res. ret (case res of
       None \<Rightarrow> refuse ''E_NOT_FOUND'' []
     | Some k \<Rightarrow> reply (Obj (obj_of [(''path'', Str (rk_path k)),
         (''subkeys'', Arr (map Str (rk_subkeys k))),
         (''values'', Arr (map (\<lambda>v. Obj (obj_of [(''name'', Str (rv_name v)), (''type'', Str (rv_type v)),
            (''data'', Str (rv_data v))])) (rk_values k)))])))))"

definition h_reg_write :: "'s IBackend \<Rightarrow> 's handler" where
  "h_reg_write B req snap old =
     andThen (need (both (str_param req ''path'') (both (str_param req ''name'')
       (both (str_param req ''type'') (str_param req ''data'')))) ''missing parameters'')
       (\<lambda>(path, name, ty, data).
     andThen (reg_write B path \<lparr>rv_name = name, rv_type = ty, rv_data = data\<rparr>) (\<lambda>b.
       ret (reply (ok_json b))))"

definition h_reg_delete :: "'s IBackend \<Rightarrow> 's handler" where
  "h_reg_delete B req snap old =
     andThen (need (str_param req ''path'') ''missing path'') (\<lambda>path.
     andThen (reg_delete B path (value_or (str_param req ''name'') [])) (\<lambda>b. ret (reply (ok_json b))))"

definition h_ui_inspect :: "'s IBackend \<Rightarrow> 's handler" where
  "h_ui_inspect B req snap old = andThen (hwnd_param req) (\<lambda>h.
     andThen (inspect_ui_elements B h) (\<lambda>els.
       ret (reply (Arr (map (\<lambda>e. Obj (ui_element_to_json e)) els)))))"

definition h_ui_invoke :: "'s IBackend \<Rightarrow> 's handler" where
  "h_ui_invoke B req snap old =
     andThen (need (both (str_param req ''hwnd'') (str_param req ''automation_id''))
       ''missing hwnd/automation_id'') (\<lambda>(hs, aid).
     andThen (need_hwnd hs) (\<lambda>h.
     andThen (invoke_ui_element B h aid) (\<lambda>b. ret (reply (Obj (obj_of [(''invoked'', Bool b)]))))))"

section \<open>Daemon\<close>

definition h_health :: "'s IBackend \<Rightarrow> 's handler" where
  "h_health B req snap old = andThen (get_env_metadata B) (\<lambda>o'. ret (reply (Obj o')))"

definition h_capabilities :: "'s IBackend \<Rightarrow> 's handler" where
  "h_capabilities B req snap old = andThen (get_capabilities B) (\<lambda>caps.
     ret (reply (Obj (obj_of (
       [(''os'', Str (os caps)), (''is_wine'', Bool (is_wine caps)), (''arch'', Str (arch caps)),
        (''win_major'', num_of_int (win_major caps)), (''win_minor'', num_of_int (win_minor caps)),
        (''win_build'', num_of_int (win_build caps))] @
       (if wine_version caps \<noteq> [] then [(''wine_version'', Str (wine_version caps))] else []) @
       [(''features'', Obj (obj_of
          [(''uia'', Bool (uia_available caps)), (''clipboard'', Bool (clipboard_available caps)),
           (''registry_write'', Bool (registry_writable caps)),
           (''service_manager'', Bool (service_manager caps)),
           (''process_memory'', Bool (process_memory caps)),
           (''input_injection'', Bool (input_injection caps)),
           (''window_highlight'', Bool (window_highlight caps))]))])))))"

definition h_check_update :: "'s IBackend \<Rightarrow> 's handler" where
  "h_check_update B req snap old = andThen (check_for_update B) (\<lambda>i.
     ret (reply (Obj (obj_of (
       [(''update_available'', Bool (update_available i)), (''current_version'', Str (current_version i)),
        (''latest_version'', Str (latest_version i)), (''installer_url'', Str (installer_url i)),
        (''portable_zip_url'', Str (portable_zip_url i)), (''release_notes'', Str (release_notes i))] @
       (if up_error i \<noteq> [] then [(''error'', Str (up_error i))] else []))))))"

definition h_download_update :: "'s IBackend \<Rightarrow> 's handler" where
  "h_download_update B req snap old =
     andThen (download_update B (value_or (str_param req ''url'') [])
       (value_or (str_param req ''type'') ''installer'')) (\<lambda>path.
     ret (if path = []
       then new_response\<lparr>resp_ok := False, resp_result :=
              Obj (obj_of [(''ok'', Bool False), (''error'', Str ''download failed'')])\<rparr>
       else new_response\<lparr>resp_result := Obj (obj_of [(''ok'', Bool True), (''path'', Str path)])\<rparr>))"

definition h_logs :: "bool \<Rightarrow> LogMessage list \<Rightarrow> 's handler" where
  "h_logs admin_logs_enabled logs req snap old =
     ret (if \<not> admin_logs_enabled
       then refuse ''E_ACCESS_DENIED'' ''admin logs not enabled (use --admin-logs)''
       else reply (Arr (map (\<lambda>l. Obj (obj_of [(''timestamp'', Str (lm_timestamp l)),
              (''level'', num_of_int (int (level_num (lm_level l)))), (''message'', Str (lm_message l))])) logs)))"

end
