(* ===== verification/Core.thy ===== *)
theory Core
  imports Core_Handlers
begin

text \<open>
  \<open>CoreEngine\<close> of \<open>core/src/core.cpp\<close>: the dispatch table and \<open>handle\<close>. The engine
  runs over the backend's state and the process-wide logger. What it reads from the clock is an
  argument: the elapsed time inside \<open>events.poll\<close>, the duration of the request, and the time
  stamp of its log lines.

  What the engine guarantees is in the theory \<open>Core_Contract\<close>.
\<close>

section \<open>The engine\<close>

record CoreEngine =
  admin_logs_enabled :: bool
  clk_elapsed :: int
  clk_duration :: int
  clk_timestamp :: string

definition dispatch_table :: "'s IBackend \<Rightarrow> CoreEngine \<Rightarrow> LogMessage list \<Rightarrow> (string \<times> 's handler) list" where
  "dispatch_table B eng logs =
     [(''events.poll'', h_events_poll B (clk_elapsed eng)),
      (''session.terminate'', h_session_terminate),
      (''window.listTop'', h_list_top B),
      (''window.listChildren'', h_list_children B),
      (''window.getTree'', h_get_tree B),
      (''window.highlight'', h_highlight B),
      (''window.getInfo'', h_get_info B),
      (''window.pickAtPoint'', h_pick_at_point B),
      (''window.ensureVisible'', h_ensure_visible B),
      (''window.ensureForeground'', h_ensure_foreground B),
      (''window.setProperty'', h_set_property B),
      (''window.postMessage'', h_post_message B),
      (''input.send'', h_input_send B),
      (''input.mouseClick'', h_mouse_click B),
      (''input.keyPress'', h_key_press B),
      (''input.text'', h_input_text B),
      (''window.controlClick'', h_control_click B),
      (''window.controlSend'', h_control_send B),
      (''screen.getPixel'', h_get_pixel B),
      (''screen.capture'', h_screen_capture B),
      (''screen.pixelSearch'', h_pixel_search B),
      (''process.list'', h_process_list B),
      (''process.kill'', h_process_kill B),
      (''file.getInfo'', h_file_get_info B),
      (''file.read'', h_file_read B),
      (''clipboard.read'', h_clipboard_read B),
      (''clipboard.write'', h_clipboard_write B),
      (''service.list'', h_service_list B),
      (''service.status'', h_service_status B),
      (''service.control'', h_service_control B),
      (''env.get'', h_env_get B),
      (''env.set'', h_env_set B),
      (''wine.drives'', h_wine_drives B),
      (''wine.overrides'', h_wine_overrides B),
      (''sync.checkMutex'', h_check_mutex B),
      (''sync.createMutex'', h_create_mutex B),
      (''mem.read'', h_mem_read B),
      (''mem.write'', h_mem_write B),
      (''image.match'', h_image_match B),
      (''input.hook'', h_input_hook B),
      (''window.findRegex'', h_find_regex B),
      (''reg.read'', h_reg_read B),
      (''reg.write'', h_reg_write B),
      (''reg.delete'', h_reg_delete B),
      (''ui.inspect'', h_ui_inspect B),
      (''ui.invoke'', h_ui_invoke B),
      (''daemon.health'', h_health B),
      (''daemon.capabilities'', h_capabilities B),
      (''daemon.checkUpdate'', h_check_update B),
      (''daemon.downloadUpdate'', h_download_update B),
      (''daemon.logs'', h_logs (admin_logs_enabled eng) logs)]"

text \<open>The engine's default response, and the branches of \<open>handle\<close> that fill it in.\<close>

definition base_response :: "CoreRequest \<Rightarrow> CoreResponse" where
  "base_response req = new_response\<lparr>resp_id := req_id req, resp_ok := True, resp_result := Null\<rparr>"

definition with_error :: "CoreResponse \<Rightarrow> string \<Rightarrow> string \<Rightarrow> CoreResponse" where
  "with_error r code msg = r\<lparr>resp_ok := False, error_code := code, error_message := msg\<rparr>"

definition run_handler ::
  "CoreEngine \<Rightarrow> CoreRequest \<Rightarrow> ('s, CoreResponse) comp option \<Rightarrow> ('s \<times> Logger, CoreResponse) comp" where
  "run_handler eng req h = (\<lambda>(s, lg).
     case h of
       None \<Rightarrow> (Ok (with_error (base_response req) ''E_BAD_METHOD'' ''method not implemented in core''),
           s, log_at WARN (clk_timestamp eng) (''Method not implemented: '' @ req_method req) lg)
     | Some m \<Rightarrow> (case m s of
           (Ok r, s') \<Rightarrow> (Ok r, s', lg)
         | (Throw e, s') \<Rightarrow> (Ok (with_error (base_response req) ''E_BAD_REQUEST'' (what e)),
             s', log_at ERR (clk_timestamp eng) (''Request failed: '' @ what e) lg)
         | (Stuck, s') \<Rightarrow> (Stuck, s', lg)))"

definition handle ::
  "'s IBackend \<Rightarrow> CoreEngine \<Rightarrow> CoreRequest \<Rightarrow> Snapshot \<Rightarrow> Snapshot option \<Rightarrow> ('s \<times> Logger, CoreResponse) comp" where
  "handle B eng req snapshot old_snapshot = (\<lambda>(s, lg).
     let lg1 = log_at DEBUG (clk_timestamp eng)
           (''Handling request: '' @ req_method req @ '' (id='' @ req_id req @ '')'') lg;
         h = map_option (\<lambda>f. f req snapshot old_snapshot)
           (map_of (dispatch_table B eng (get_recent_logs 100 lg1)) (req_method req))
     in andThen (run_handler eng req h) (\<lambda>r.
          ret (r\<lparr>metrics := om_set ''duration_ms'' (num_of_int (clk_duration eng)) (metrics r)\<rparr>)) (s, lg1))"

section \<open>How handle runs\<close>

lemma handle_run:
  assumes "map_of (dispatch_table B eng (get_recent_logs 100
      (log_at DEBUG (clk_timestamp eng)
        (''Handling request: '' @ req_method req @ '' (id='' @ req_id req @ '')'') lg))) (req_method req) = Some f"
  shows "fst (snd (handle B eng req snap old (s, lg))) = snd (f req snap old s)"
    and "fst (handle B eng req snap old (s, lg)) =
      (case fst (f req snap old s) of
         Ok r \<Rightarrow> Ok (r\<lparr>metrics := om_set ''duration_ms'' (num_of_int (clk_duration eng)) (metrics r)\<rparr>)
       | Throw e \<Rightarrow> Ok ((with_error (base_response req) ''E_BAD_REQUEST'' (what e))
           \<lparr>metrics := [(''duration_ms'', num_of_int (clk_duration eng))]\<rparr>)
       | Stuck \<Rightarrow> Stuck)"
  using assms
  by (auto simp: handle_def run_handler_def Let_def andThen_def ret_def base_response_def
      with_error_def new_response_def split: prod.splits res.splits)

lemma handle_unknown:
  assumes "map_of (dispatch_table B eng (get_recent_logs 100
      (log_at DEBUG (clk_timestamp eng)
        (''Handling request: '' @ req_method req @ '' (id='' @ req_id req @ '')'') lg))) (req_method req) = None"
  shows "fst (snd (handle B eng req snap old (s, lg))) = s"
    and "fst (handle B eng req snap old (s, lg)) =
      Ok ((with_error (base_response req) ''E_BAD_METHOD'' ''method not implemented in core'')
           \<lparr>metrics := [(''duration_ms'', num_of_int (clk_duration eng))]\<rparr>)"
  using assms
  by (simp_all add: handle_def run_handler_def Let_def andThen_def ret_def base_response_def
      with_error_def new_response_def)

lemma handle_no_throw: "fst (handle B eng req snap old st) \<noteq> Throw e"
  by (cases st) (auto simp: handle_def run_handler_def Let_def andThen_def ret_def
      split: prod.splits res.splits option.splits)

section \<open>Groups of methods\<close>

definition inspection_methods :: "string list" where
  "inspection_methods =
     [''events.poll'', ''session.terminate'', ''window.listTop'', ''window.listChildren'',
      ''window.getTree'', ''window.getInfo'', ''window.pickAtPoint'', ''screen.getPixel'',
      ''screen.capture'', ''screen.pixelSearch'', ''process.list'', ''file.getInfo'', ''file.read'',
      ''clipboard.read'', ''service.list'', ''service.status'', ''env.get'', ''wine.drives'',
      ''wine.overrides'', ''sync.checkMutex'', ''mem.read'', ''image.match'', ''window.findRegex'',
      ''reg.read'', ''ui.inspect'', ''daemon.health'', ''daemon.capabilities'',
      ''daemon.checkUpdate'', ''daemon.logs'']"

lemmas inspection_defs = h_events_poll_def h_session_terminate_def h_list_top_def h_list_children_def
  h_get_tree_def h_get_info_def h_pick_at_point_def h_get_pixel_def h_screen_capture_def
  h_pixel_search_def h_process_list_def h_file_get_info_def h_file_read_def h_clipboard_read_def
  h_service_list_def h_service_status_def h_env_get_def h_wine_drives_def h_wine_overrides_def
  h_check_mutex_def h_mem_read_def h_image_match_def h_find_regex_def h_reg_read_def
  h_ui_inspect_def h_health_def h_capabilities_def h_check_update_def h_logs_def

lemmas action_defs = h_highlight_def h_ensure_visible_def h_ensure_foreground_def h_set_property_def
  h_post_message_def h_input_send_def h_mouse_click_def h_key_press_def h_input_text_def
  h_control_click_def h_control_send_def h_process_kill_def h_clipboard_write_def
  h_service_control_def h_env_set_def h_create_mutex_def h_mem_write_def h_input_hook_def
  h_reg_write_def h_reg_delete_def h_ui_invoke_def h_download_update_def

lemmas param_defs = hwnd_param_def need_hwnd_def rect_of_def

end
