(* ===== verification/Fake_Backend.thy ===== *)
theory Fake_Backend
  imports Backend
begin

text \<open>
  \<open>core/src/fake_backend.cpp\<close>: the deterministic backend behind the test-suite, the trace
  replays and the non-Windows daemon. Its state is the four members of the class; every method of
  the interface is defined below in the order of the source and collected in \<open>fake_backend\<close>.

  Shown here: the class satisfies the backend contract, its window map stays a well-formed map,
  and \<open>get_window_tree\<close> returns exactly when no parent chain below the root is cyclic.
\<close>

section \<open>State\<close>

record FakeWindow =
  fw_hwnd :: hwnd_u64
  fw_parent :: hwnd_u64
  fw_owner :: hwnd_u64
  fw_title :: string
  fw_cls :: string
  fw_visible :: bool

type_synonym windows = "(hwnd_u64, FakeWindow) omap"

record FakeBackend =
  fb_windows :: windows
  fb_foreground :: hwnd_u64
  fb_ui_elements :: "(hwnd_u64, UIElementInfo list) omap"
  injected_events :: "string list"

definition new_fake_backend :: "FakeWindow list \<Rightarrow> FakeBackend" where
  "new_fake_backend ws =
     \<lparr>fb_windows = foldl (\<lambda>m w. om_emplace (fw_hwnd w) w m) [] ws,
      fb_foreground = 0, fb_ui_elements = [], injected_events = []\<rparr>"

text \<open>\<open>injected_events.push_back(msg); return true;\<close>\<close>

definition inject :: "string \<Rightarrow> (FakeBackend, bool) comp" where
  "inject msg = (\<lambda>s. (Ok True, s\<lparr>injected_events := injected_events s @ [msg]\<rparr>))"

definition reads :: "(FakeBackend \<Rightarrow> 'a) \<Rightarrow> (FakeBackend, 'a) comp" where
  "reads f = (\<lambda>s. (Ok (f s), s))"

abbreviation u64_str :: "64 word \<Rightarrow> string" where
  "u64_str w \<equiv> to_string_nat (unat w)"

section \<open>Windows\<close>

definition children_of :: "windows \<Rightarrow> hwnd_u64 \<Rightarrow> hwnd_u64 list" where
  "children_of w h = map fst (filter (\<lambda>p. fw_parent (snd p) = h) w)"

definition fake_set_config :: "Object \<Rightarrow> (FakeBackend, unit) comp" where
  "fake_set_config config = ret ()"

definition fake_snapshot :: "FakeBackend \<Rightarrow> Snapshot" where
  "fake_snapshot s = \<lparr>top = sort (children_of (fb_windows s) 0)\<rparr>"

definition fake_capture_snapshot :: "(FakeBackend, Snapshot) comp" where
  "fake_capture_snapshot = reads fake_snapshot"

definition fake_list_top :: "Snapshot \<Rightarrow> (FakeBackend, hwnd_u64 list) comp" where
  "fake_list_top snap = ret (top snap)"

definition fake_list_children :: "Snapshot \<Rightarrow> hwnd_u64 \<Rightarrow> (FakeBackend, hwnd_u64 list) comp" where
  "fake_list_children snap parent = reads (\<lambda>s. sort (children_of (fb_windows s) parent))"

definition info_of :: "FakeWindow \<Rightarrow> WindowInfo" where
  "info_of fw = \<lparr>wi_hwnd = fw_hwnd fw, wi_parent = fw_parent fw, wi_owner = fw_owner fw,
     wi_class_name = fw_cls fw, wi_title = fw_title fw,
     window_rect = \<lparr>left = 0, top_edge = 0, right = 100, bottom_edge = 100\<rparr>,
     client_rect = \<lparr>left = 0, top_edge = 0, right = 100, bottom_edge = 100\<rparr>,
     screen_rect = zero_rect, wi_pid = 1234, wi_tid = 5678, wi_style = 0, wi_exstyle = 0,
     style_flags = [], ex_style_flags = [], wi_visible = fw_visible fw, wi_enabled = True,
     wi_iconic = False, wi_zoomed = False, process_image = ''fake.exe''\<rparr>"

definition fake_get_info :: "Snapshot \<Rightarrow> hwnd_u64 \<Rightarrow> (FakeBackend, WindowInfo option) comp" where
  "fake_get_info snap h = reads (\<lambda>s. map_option info_of (map_of (fb_windows s) h))"

definition fake_pick_at_point ::
  "Snapshot \<Rightarrow> int \<Rightarrow> int \<Rightarrow> PickFlags \<Rightarrow> (FakeBackend, hwnd_u64 option) comp" where
  "fake_pick_at_point snap x y fl = reads (\<lambda>s. case top (fake_snapshot s) of
     [] \<Rightarrow> None | h # _ \<Rightarrow> Some h)"

text \<open>
  The recursive lambda \<open>build_node\<close> follows the parent links downwards with nothing to stop it
  on a cycle. The first argument bounds the depth; \<open>None\<close> is a recursion that got deeper. A
  tree over \<open>n\<close> windows is at most \<open>n + 1\<close> deep, so with that bound \<open>None\<close> means
  that the recursion never returns (\<open>build_node_fuel\<close> below).
\<close>

primrec build_node :: "nat \<Rightarrow> windows \<Rightarrow> hwnd_u64 \<Rightarrow> WindowNode option" where
  "build_node 0 w h = None"
| "build_node (Suc n) w h =
     (let title = (case map_of w h of Some x \<Rightarrow> fw_title x | None \<Rightarrow> []);
          cls = (case map_of w h of Some x \<Rightarrow> fw_cls x | None \<Rightarrow> [])
      in map_option (WindowNode h title cls) (those (map (build_node n w) (children_of w h))))"

definition fake_get_window_tree :: "Snapshot \<Rightarrow> hwnd_u64 \<Rightarrow> (FakeBackend, WindowNode list) comp" where
  "fake_get_window_tree snap root_u = (\<lambda>s.
     let w = fb_windows s; build = build_node (Suc (length w)) w in
     case those (if root_u = 0 then map build (children_of w 0) else [build root_u]) of
       None \<Rightarrow> (Stuck, s)
     | Some nodes \<Rightarrow> (Ok nodes, s))"

section \<open>Recorded effects and fixed answers\<close>

definition fake_highlight_window :: "hwnd_u64 \<Rightarrow> (FakeBackend, bool) comp" where
  "fake_highlight_window h = inject (''highlight_window:'' @ u64_str h)"

definition fake_set_property :: "hwnd_u64 \<Rightarrow> string \<Rightarrow> string \<Rightarrow> (FakeBackend, bool) comp" where
  "fake_set_property h name val = inject (''set_property:'' @ name @ ''='' @ val)"

definition fake_control_click :: "hwnd_u64 \<Rightarrow> int \<Rightarrow> int \<Rightarrow> int \<Rightarrow> (FakeBackend, bool) comp" where
  "fake_control_click h x y button =
     inject (''control_click:'' @ u64_str h @ '' at '' @ to_string_int x @ '','' @ to_string_int y)"

definition fake_control_send :: "hwnd_u64 \<Rightarrow> string \<Rightarrow> (FakeBackend, bool) comp" where
  "fake_control_send h txt = inject (''control_send:'' @ u64_str h @ '' text:'' @ txt)"

definition fake_get_pixel :: "int \<Rightarrow> int \<Rightarrow> (FakeBackend, Color option) comp" where
  "fake_get_pixel x y = ret (Some \<lparr>red = 255, green = 0, blue = 0\<rparr>)"

definition fake_capture_screen :: "Rect \<Rightarrow> (FakeBackend, ScreenCapture option) comp" where
  "fake_capture_screen r = ret (Some \<lparr>sc_width = 100, sc_height = 100, sc_data_b64 = ''fake_b64''\<rparr>)"

definition fake_pixel_search :: "Rect \<Rightarrow> Color \<Rightarrow> int \<Rightarrow> (FakeBackend, (int \<times> int) option) comp" where
  "fake_pixel_search r c v = ret (Some (50, 50))"

definition fake_list_processes :: "(FakeBackend, ProcessInfo list) comp" where
  "fake_list_processes =
     ret [\<lparr>pr_pid = 1234, pr_name = ''fake.exe'', pr_path = ''C:'' @ [backslash] @ ''fake.exe''\<rparr>]"

definition fake_kill_process :: "32 word \<Rightarrow> (FakeBackend, bool) comp" where
  "fake_kill_process pid = inject (''kill_process:'' @ to_string_nat (unat pid))"

definition fake_get_file_info :: "string \<Rightarrow> (FakeBackend, FileInfo option) comp" where
  "fake_get_file_info path = ret (Some \<lparr>fi_path = path, fi_size = 1024, fi_is_directory = False,
     fi_last_modified = ''2026-02-19''\<rparr>)"

definition fake_read_file_content :: "string \<Rightarrow> (FakeBackend, string option) comp" where
  "fake_read_file_content path = ret (Some ''fake content'')"

definition fake_find_windows_regex :: "string \<Rightarrow> string \<Rightarrow> (FakeBackend, hwnd_u64 list) comp" where
  "fake_find_windows_regex t c = ret [0x1234]"

definition fake_reg_read :: "string \<Rightarrow> (FakeBackend, RegistryKeyInfo option) comp" where
  "fake_reg_read path = ret (Some \<lparr>rk_path = path, rk_subkeys = [''SubKey1''],
     rk_values = [\<lparr>rv_name = ''TestValue'', rv_type = ''SZ'', rv_data = ''TestData''\<rparr>]\<rparr>)"

definition fake_reg_write :: "string \<Rightarrow> RegistryValue \<Rightarrow> (FakeBackend, bool) comp" where
  "fake_reg_write path v =
     inject (''reg_write:'' @ path @ [backslash] @ rv_name v @ ''='' @ rv_data v)"

definition fake_reg_delete :: "string \<Rightarrow> string \<Rightarrow> (FakeBackend, bool) comp" where
  "fake_reg_delete path value_name = inject (''reg_delete:'' @ path @ '' val:'' @ value_name)"

definition fake_reg_subscribe :: "string \<Rightarrow> (FakeBackend, bool) comp" where
  "fake_reg_subscribe path = inject (''reg_subscribe:'' @ path)"

definition fake_clipboard_read :: "(FakeBackend, string option) comp" where
  "fake_clipboard_read = ret (Some ''fake clipboard'')"

definition fake_clipboard_write :: "string \<Rightarrow> (FakeBackend, bool) comp" where
  "fake_clipboard_write txt = inject (''clipboard_write:'' @ txt)"

definition fake_service_list :: "(FakeBackend, ServiceInfo list) comp" where
  "fake_service_list =
     ret [\<lparr>sv_name = ''FakeSvc'', sv_display_name = ''Fake Service'', sv_state = ''RUNNING''\<rparr>]"

definition fake_service_status :: "string \<Rightarrow> (FakeBackend, string) comp" where
  "fake_service_status name = ret ''RUNNING''"

definition fake_service_control :: "string \<Rightarrow> string \<Rightarrow> (FakeBackend, bool) comp" where
  "fake_service_control name action = inject (''service_control:'' @ name @ '' '' @ action)"

definition fake_env_get_all :: "(FakeBackend, EnvVar list) comp" where
  "fake_env_get_all = ret [\<lparr>ev_name = ''PATH'', ev_value = ''C:'' @ [backslash] @ ''fake''\<rparr>]"

definition fake_env_set :: "string \<Rightarrow> string \<Rightarrow> (FakeBackend, bool) comp" where
  "fake_env_set name val = inject (''env_set:'' @ name @ ''='' @ val)"

definition fake_wine_get_drives :: "(FakeBackend, DriveInfo list) comp" where
  "fake_wine_get_drives =
     ret [\<lparr>dr_letter = ''C'', dr_mapping = ''C:'' @ [backslash], dr_type = ''Fixed''\<rparr>]"

definition fake_wine_get_overrides :: "(FakeBackend, string list) comp" where
  "fake_wine_get_overrides = ret [''d3d11=native'']"

definition fake_sync_check_mutex :: "string \<Rightarrow> (FakeBackend, bool) comp" where
  "fake_sync_check_mutex name = ret True"

definition fake_sync_create_mutex :: "string \<Rightarrow> bool \<Rightarrow> (FakeBackend, bool) comp" where
  "fake_sync_create_mutex name own = inject (''create_mutex:'' @ name)"

definition fake_mem_read :: "32 word \<Rightarrow> 64 word \<Rightarrow> 64 word \<Rightarrow> (FakeBackend, MemoryRegion option) comp" where
  "fake_mem_read pid addr n = ret (Some \<lparr>mr_address = addr, mr_data_b64 = ''ZmFrZSBtZW1vcnk=''\<rparr>)"

definition fake_mem_write :: "32 word \<Rightarrow> 64 word \<Rightarrow> bytes \<Rightarrow> (FakeBackend, bool) comp" where
  "fake_mem_write pid addr data =
     inject (''mem_write:'' @ to_string_nat (unat pid) @ ''@'' @ u64_str addr)"

definition fake_image_match :: "Rect \<Rightarrow> bytes \<Rightarrow> (FakeBackend, ImageMatchResult option) comp" where
  "fake_image_match r bmp = ret (Some \<lparr>im_x = 10, im_y = 10, im_confidence = double_of_int 1\<rparr>)"

definition fake_input_hook_enable :: "bool \<Rightarrow> (FakeBackend, bool) comp" where
  "fake_input_hook_enable enabled = inject (''input_hook:'' @ (if enabled then ''on'' else ''off''))"

section \<open>Desired-state actions\<close>

definition fake_ensure_visible :: "hwnd_u64 \<Rightarrow> bool \<Rightarrow> (FakeBackend, bool) comp" where
  "fake_ensure_visible h visible = (\<lambda>s. case map_of (fb_windows s) h of
     None \<Rightarrow> (Ok False, s)
   | Some x \<Rightarrow> (Ok (fw_visible x \<noteq> visible),
       s\<lparr>fb_windows := om_set h (x\<lparr>fw_visible := visible\<rparr>) (fb_windows s)\<rparr>))"

definition fake_ensure_foreground :: "hwnd_u64 \<Rightarrow> (FakeBackend, bool) comp" where
  "fake_ensure_foreground h = (\<lambda>s. (Ok (fb_foreground s \<noteq> h), s\<lparr>fb_foreground := h\<rparr>))"

section \<open>Input injection\<close>

definition fake_post_message ::
  "hwnd_u64 \<Rightarrow> 32 word \<Rightarrow> 64 word \<Rightarrow> 64 word \<Rightarrow> (FakeBackend, bool) comp" where
  "fake_post_message h msg wp lp = ret True"

definition fake_send_input :: "bytes \<Rightarrow> (FakeBackend, bool) comp" where
  "fake_send_input raw = inject ''send_input''"

definition fake_send_mouse_click :: "int \<Rightarrow> int \<Rightarrow> int \<Rightarrow> (FakeBackend, bool) comp" where
  "fake_send_mouse_click x y button =
     inject (''mouse_click:'' @ to_string_int x @ '','' @ to_string_int y @ '','' @ to_string_int button)"

definition fake_send_key_press :: "int \<Rightarrow> (FakeBackend, bool) comp" where
  "fake_send_key_press vk = inject (''key_press:'' @ to_string_int vk)"

definition fake_send_text :: "string \<Rightarrow> (FakeBackend, bool) comp" where
  "fake_send_text txt = inject (''text:'' @ txt)"

section \<open>UI Automation\<close>

definition fake_inspect_ui_elements :: "hwnd_u64 \<Rightarrow> (FakeBackend, UIElementInfo list) comp" where
  "fake_inspect_ui_elements parent =
     reads (\<lambda>s. case map_of (fb_ui_elements s) parent of None \<Rightarrow> [] | Some els \<Rightarrow> els)"

fun find_and_invoke :: "UIElementInfo list \<Rightarrow> string \<Rightarrow> bool" where
  "find_and_invoke [] aid = False"
| "find_and_invoke (UIElementInfo el_id name cls ctype rect enabled visible children # els) aid =
     (el_id = aid \<or> find_and_invoke children aid \<or> find_and_invoke els aid)"

definition fake_invoke_ui_element :: "hwnd_u64 \<Rightarrow> string \<Rightarrow> (FakeBackend, bool) comp" where
  "fake_invoke_ui_element h aid =
     andThen (inject (''invoke_ui_element:'' @ aid)) (\<lambda>_. reads (\<lambda>s.
       case map_of (fb_ui_elements s) h of None \<Rightarrow> False | Some els \<Rightarrow> find_and_invoke els aid))"

definition add_fake_ui_element :: "hwnd_u64 \<Rightarrow> UIElementInfo \<Rightarrow> FakeBackend \<Rightarrow> FakeBackend" where
  "add_fake_ui_element parent info s =
     s\<lparr>fb_ui_elements := om_set parent
         ((case map_of (fb_ui_elements s) parent of None \<Rightarrow> [] | Some els \<Rightarrow> els) @ [info]) (fb_ui_elements s)\<rparr>"

definition clear_injected_events :: "FakeBackend \<Rightarrow> FakeBackend" where
  "clear_injected_events s = s\<lparr>injected_events := []\<rparr>"

section \<open>Capabilities, updates, events\<close>

definition fake_caps :: Capabilities where
  "fake_caps = \<lparr>os = ''windows 10 (fake)'', is_wine = False, arch = ''x64'', win_major = 10,
     win_minor = 0, win_build = 19041, uia_available = True, clipboard_available = True,
     registry_writable = True, service_manager = True, process_memory = True,
     input_injection = True, window_highlight = True, wine_version = []\<rparr>"

definition fake_get_capabilities :: "(FakeBackend, Capabilities) comp" where
  "fake_get_capabilities = ret fake_caps"

definition fake_get_env_metadata :: "(FakeBackend, Object) comp" where
  "fake_get_env_metadata = ret (obj_of
     [(''os'', Str (os fake_caps)), (''is_wine'', Bool (is_wine fake_caps)),
      (''arch'', Str (arch fake_caps)),
      (''diagnostics'', Obj (obj_of
        [(''clipboard'', Bool (clipboard_available fake_caps)),
         (''registry_write'', Bool (registry_writable fake_caps)),
         (''uia_available'', Bool (uia_available fake_caps))]))])"

definition fake_check_for_update :: "(FakeBackend, UpdateInfo) comp" where
  "fake_check_for_update = ret (empty_update\<lparr>current_version := WININSPECT_VERSION,
     up_error := ''update check not available in fake backend''\<rparr>)"

definition fake_download_update :: "string \<Rightarrow> string \<Rightarrow> (FakeBackend, string) comp" where
  "fake_download_update url type_hint = ret []"

definition fake_poll_events :: "Snapshot \<Rightarrow> Snapshot \<Rightarrow> (FakeBackend, Event list) comp" where
  "fake_poll_events old new = ret []"

section \<open>The class\<close>

definition fake_backend :: "FakeBackend IBackend" where
  "fake_backend = \<lparr>
     set_config = fake_set_config, capture_snapshot = fake_capture_snapshot,
     list_top = fake_list_top, list_children = fake_list_children, get_info = fake_get_info,
     pick_at_point = fake_pick_at_point, get_window_tree = fake_get_window_tree,
     ensure_visible = fake_ensure_visible, ensure_foreground = fake_ensure_foreground,
     highlight_window = fake_highlight_window, set_property = fake_set_property,
     post_message = fake_post_message, send_input = fake_send_input,
     send_mouse_click = fake_send_mouse_click, send_key_press = fake_send_key_press,
     send_text = fake_send_text, control_click = fake_control_click,
     control_send = fake_control_send, get_pixel = fake_get_pixel,
     capture_screen = fake_capture_screen, pixel_search = fake_pixel_search,
     list_processes = fake_list_processes, kill_process = fake_kill_process,
     get_file_info = fake_get_file_info, read_file_content = fake_read_file_content,
     find_windows_regex = fake_find_windows_regex, reg_read = fake_reg_read,
     reg_write = fake_reg_write, reg_delete = fake_reg_delete, reg_subscribe = fake_reg_subscribe,
     clipboard_read = fake_clipboard_read, clipboard_write = fake_clipboard_write,
     service_list = fake_service_list, service_status = fake_service_status,
     service_control = fake_service_control, env_get_all = fake_env_get_all,
     env_set = fake_env_set, wine_get_drives = fake_wine_get_drives,
     wine_get_overrides = fake_wine_get_overrides, sync_check_mutex = fake_sync_check_mutex,
     sync_create_mutex = fake_sync_create_mutex, mem_read = fake_mem_read,
     mem_write = fake_mem_write, image_match = fake_image_match,
     input_hook_enable = fake_input_hook_enable,
     inspect_ui_elements = fake_inspect_ui_elements, invoke_ui_element = fake_invoke_ui_element,
     get_capabilities = fake_get_capabilities, get_env_metadata = fake_get_env_metadata,
     check_for_update = fake_check_for_update, download_update = fake_download_update,
     poll_events = fake_poll_events\<rparr>"

lemma fake_backend_sel [simp]:
  "list_top fake_backend = fake_list_top" "list_children fake_backend = fake_list_children"
  "get_info fake_backend = fake_get_info" "pick_at_point fake_backend = fake_pick_at_point"
  "get_window_tree fake_backend = fake_get_window_tree"
  "ensure_visible fake_backend = fake_ensure_visible"
  "ensure_foreground fake_backend = fake_ensure_foreground"
  "get_pixel fake_backend = fake_get_pixel" "capture_screen fake_backend = fake_capture_screen"
  "pixel_search fake_backend = fake_pixel_search" "list_processes fake_backend = fake_list_processes"
  "get_file_info fake_backend = fake_get_file_info"
  "read_file_content fake_backend = fake_read_file_content"
  "find_windows_regex fake_backend = fake_find_windows_regex" "reg_read fake_backend = fake_reg_read"
  "clipboard_read fake_backend = fake_clipboard_read" "service_list fake_backend = fake_service_list"
  "service_status fake_backend = fake_service_status" "env_get_all fake_backend = fake_env_get_all"
  "wine_get_drives fake_backend = fake_wine_get_drives"
  "wine_get_overrides fake_backend = fake_wine_get_overrides"
  "sync_check_mutex fake_backend = fake_sync_check_mutex" "mem_read fake_backend = fake_mem_read"
  "image_match fake_backend = fake_image_match"
  "inspect_ui_elements fake_backend = fake_inspect_ui_elements"
  "get_capabilities fake_backend = fake_get_capabilities"
  "get_env_metadata fake_backend = fake_get_env_metadata"
  "check_for_update fake_backend = fake_check_for_update"
  "poll_events fake_backend = fake_poll_events"
  "capture_snapshot fake_backend = fake_capture_snapshot"
  by (simp_all add: fake_backend_def)

lemma fake_backend_action_sel [simp]:
  "highlight_window fake_backend = fake_highlight_window"
  "set_property fake_backend = fake_set_property"
  "post_message fake_backend = fake_post_message"
  "send_input fake_backend = fake_send_input"
  "send_mouse_click fake_backend = fake_send_mouse_click"
  "send_key_press fake_backend = fake_send_key_press"
  "send_text fake_backend = fake_send_text"
  "control_click fake_backend = fake_control_click"
  "control_send fake_backend = fake_control_send"
  "kill_process fake_backend = fake_kill_process"
  "reg_write fake_backend = fake_reg_write"
  "reg_delete fake_backend = fake_reg_delete"
  "reg_subscribe fake_backend = fake_reg_subscribe"
  "clipboard_write fake_backend = fake_clipboard_write"
  "service_control fake_backend = fake_service_control"
  "env_set fake_backend = fake_env_set"
  "sync_create_mutex fake_backend = fake_sync_create_mutex"
  "mem_write fake_backend = fake_mem_write"
  "input_hook_enable fake_backend = fake_input_hook_enable"
  "invoke_ui_element fake_backend = fake_invoke_ui_element"
  "download_update fake_backend = fake_download_update"
  "set_config fake_backend = fake_set_config"
  by (simp_all add: fake_backend_def)

lemma const_comp_reads [frame_intros]: "const_comp (reads f)"
  by (simp add: const_comp_def reads_def)

lemma const_comp_tree [frame_intros]: "const_comp (fake_get_window_tree snap h)"
  by (simp add: const_comp_def fake_get_window_tree_def Let_def split: option.splits)

lemma fake_visible_settles:
  assumes "fake_ensure_visible h v s = (Ok c, s')"
  shows "fake_ensure_visible h v s' = (Ok False, s')"
proof (cases "map_of (fb_windows s) h")
  case None
  with assms show ?thesis by (auto simp: fake_ensure_visible_def)
next
  case (Some x)
  let ?x = "x\<lparr>fw_visible := v\<rparr>"
  from Some assms have s': "s' = s\<lparr>fb_windows := om_set h ?x (fb_windows s)\<rparr>"
    by (simp add: fake_ensure_visible_def)
  have "map_of (fb_windows s') h = Some ?x"
    using Some by (simp add: s' map_of_om_set_same)
  moreover have "om_set h ?x (om_set h ?x m) = om_set h ?x m" for m :: windows
    by (induction m) auto
  ultimately show ?thesis by (simp add: fake_ensure_visible_def s')
qed

lemmas fake_query_defs = fake_list_top_def fake_list_children_def fake_get_info_def
  fake_pick_at_point_def fake_get_pixel_def fake_capture_screen_def fake_pixel_search_def
  fake_list_processes_def fake_get_file_info_def fake_read_file_content_def
  fake_find_windows_regex_def fake_reg_read_def fake_clipboard_read_def fake_service_list_def
  fake_service_status_def fake_env_get_all_def fake_wine_get_drives_def fake_wine_get_overrides_def
  fake_sync_check_mutex_def fake_mem_read_def fake_image_match_def fake_inspect_ui_elements_def
  fake_get_capabilities_def fake_get_env_metadata_def fake_check_for_update_def fake_poll_events_def

lemmas fake_action_defs =
  fake_highlight_window_def fake_set_property_def fake_post_message_def fake_send_input_def
  fake_send_mouse_click_def fake_send_key_press_def fake_send_text_def fake_control_click_def
  fake_control_send_def fake_kill_process_def fake_reg_write_def fake_reg_delete_def
  fake_reg_subscribe_def fake_clipboard_write_def fake_service_control_def fake_env_set_def
  fake_sync_create_mutex_def fake_mem_write_def fake_input_hook_enable_def
  fake_invoke_ui_element_def fake_download_update_def fake_set_config_def

text \<open>Every method but the window tree answers from every state.\<close>

lemma answering_inject [answer_intros]: "answering (inject msg)"
  by (simp add: answering_def inject_def)

lemma answering_reads [answer_intros]: "answering (reads f)"
  by (simp add: answering_def reads_def)

lemma answering_ensure [answer_intros]:
  "answering (fake_ensure_visible h v)" "answering (fake_ensure_foreground h)"
  by (simp_all add: answering_def fake_ensure_visible_def fake_ensure_foreground_def split: option.splits)

interpretation fake: ensuring_backend fake_backend
proof
  fix h v and s s' :: FakeBackend and c
  show "\<exists>c s'. ensure_visible fake_backend h v s = (Ok c, s')"
    by (auto simp: fake_ensure_visible_def split: option.split)
  show "\<exists>c s'. ensure_foreground fake_backend h s = (Ok c, s')"
    by (simp add: fake_ensure_foreground_def)
  show "ensure_visible fake_backend h v s = (Ok c, s') \<Longrightarrow> ensure_visible fake_backend h v s' = (Ok False, s')"
    by (simp add: fake_visible_settles)
  show "ensure_foreground fake_backend h s = (Ok c, s') \<Longrightarrow> ensure_foreground fake_backend h s' = (Ok False, s')"
    by (auto simp: fake_ensure_foreground_def)
qed (simp_all add: fake_query_defs frame_intros)

section \<open>Invariant\<close>

text \<open>The window map and the element map are maps, and a window is filed under its own handle.\<close>

definition fake_inv :: "FakeBackend \<Rightarrow> bool" where
  "fake_inv s \<longleftrightarrow> om_wf (fb_windows s) \<and> om_wf (fb_ui_elements s) \<and>
     (\<forall>p \<in> set (fb_windows s). fw_hwnd (snd p) = fst p)"

lemma fake_inv_new: "fake_inv (new_fake_backend ws)"
proof -
  let ?ok = "\<lambda>m :: windows. om_wf m \<and> (\<forall>p \<in> set m. fw_hwnd (snd p) = fst p)"
  have step: "?ok m \<Longrightarrow> ?ok (om_emplace (fw_hwnd w) w m)" for m w
    using set_om_set[of "fw_hwnd w" w m] by (auto simp: om_wf_set om_emplace_def split: option.splits)
  have "?ok m \<Longrightarrow> ?ok (foldl (\<lambda>m w. om_emplace (fw_hwnd w) w m) m ws)" for m
  proof (induction ws arbitrary: m)
    case (Cons w ws)
    from Cons.IH[OF step[OF Cons.prems]] show ?case by simp
  qed simp
  from this[of "[]"] show ?thesis by (simp add: fake_inv_def new_fake_backend_def)
qed

lemma fake_inv_ensure_visible:
  assumes "fake_inv s" and "fake_ensure_visible h v s = (r, s')"
  shows "fake_inv s'"
proof (cases "map_of (fb_windows s) h")
  case None
  with assms show ?thesis by (simp add: fake_ensure_visible_def)
next
  case (Some x)
  from Some assms(1) have "fw_hwnd x = h" by (auto simp: fake_inv_def dest!: map_of_SomeD)
  with Some assms show ?thesis
    using set_om_set[of h "x\<lparr>fw_visible := v\<rparr>" "fb_windows s"]
    by (auto simp: fake_ensure_visible_def fake_inv_def om_wf_set)
qed

section \<open>The window tree\<close>

text \<open>The child relation, and how deep \<open>build_node\<close> can go.\<close>

definition child_rel :: "windows \<Rightarrow> (hwnd_u64 \<times> hwnd_u64) set" where
  "child_rel w = {(h, c). c \<in> set (children_of w h)}"

lemma child_rel_iff: "(h, c) \<in> child_rel w \<longleftrightarrow> c \<in> set (children_of w h)"
  by (simp add: child_rel_def)

lemma those_None: "those xs = None \<longleftrightarrow> None \<in> set xs"
  by (induction xs) (auto split: option.splits)

lemma build_node_None: "build_node n w h = None \<longleftrightarrow> (\<exists>c. (h, c) \<in> child_rel w ^^ n)"
proof (induction n arbitrary: h)
  case (Suc n)
  have "build_node (Suc n) w h = None \<longleftrightarrow> (\<exists>c \<in> set (children_of w h). build_node n w c = None)"
    by (simp add: those_None Let_def image_iff eq_commute[of None])
  also have "\<dots> \<longleftrightarrow> (\<exists>d. (h, d) \<in> child_rel w ^^ Suc n)"
    unfolding Suc.IH Bex_def child_rel_iff[symmetric] by (meson relpow_Suc_D2 relpow_Suc_I2)
  finally show ?case .
qed simp

lemma those_map_mono:
  assumes "\<And>c t. c \<in> set cs \<Longrightarrow> f c = Some t \<Longrightarrow> g c = Some t"
  shows "those (map f cs) = Some ts \<Longrightarrow> those (map g cs) = Some ts"
  using assms by (induction cs arbitrary: ts) (auto split: option.splits)

lemma build_node_Suc: "build_node n w h = Some t \<Longrightarrow> build_node (Suc n) w h = Some t"
proof (induction n arbitrary: h t)
  case (Suc n)
  from Suc.prems obtain ts where ts: "those (map (build_node n w) (children_of w h)) = Some ts"
    "build_node (Suc n) w h = map_option (WindowNode h
       (case map_of w h of Some x \<Rightarrow> fw_title x | None \<Rightarrow> [])
       (case map_of w h of Some x \<Rightarrow> fw_cls x | None \<Rightarrow> [])) (Some ts)"
    by (auto simp: Let_def)
  from those_map_mono[OF Suc.IH ts(1)]
  have "those (map (build_node (Suc n) w) (children_of w h)) = Some ts" .
  then show ?case using Suc.prems ts(2)
    by (simp add: build_node.simps(2)[of "Suc n"] Let_def del: build_node.simps)
qed simp

lemma build_node_mono:
  assumes "n \<le> m" and "build_node n w h = Some t"
  shows "build_node m w h = Some t"
  using assms(1) by (induction rule: dec_induct) (rule assms(2), rule build_node_Suc)

text \<open>A walk longer than the number of nodes it can visit repeats one, and so can be made
  arbitrarily long.\<close>

lemma relpow_prefix: "(a, b) \<in> (R :: ('a \<times> 'a) set) ^^ (k + m) \<Longrightarrow> \<exists>d. (a, d) \<in> R ^^ k"
  by (auto simp: relpow_add)

lemma relpow_loop: "(x, x) \<in> (R :: ('a \<times> 'a) set) ^^ p \<Longrightarrow> (x, x) \<in> R ^^ (p * q)"
  by (induction q) (auto simp: relpow_add relcomp_unfold)

lemma relpow_cycle:
  fixes R :: "('a \<times> 'a) set"
  assumes "finite A" and "\<And>a b. (a, b) \<in> R \<Longrightarrow> b \<in> A" and "(h, c) \<in> R ^^ n" and "card A < n"
  shows "\<exists>x. (h, x) \<in> R\<^sup>* \<and> (x, x) \<in> R\<^sup>+"
proof -
  from assms(3) obtain f where f: "f 0 = h" "\<And>i. i < n \<Longrightarrow> (f i, f (Suc i)) \<in> R"
    by (auto simp: relpow_fun_conv)
  have "f ` {1..n} \<subseteq> A"
  proof
    fix y assume "y \<in> f ` {1..n}"
    then obtain i where "y = f i" "1 \<le> i" "i \<le> n" by auto
    moreover from this have "(f (i - 1), f (Suc (i - 1))) \<in> R" by (intro f(2)) simp
    ultimately show "y \<in> A" using assms(2) by simp
  qed
  then have "card (f ` {1..n}) \<le> card A" by (rule card_mono[OF assms(1)])
  with assms(4) have "card (f ` {1..n}) < card {1..n}" by simp
  then have "\<not> inj_on f {1..n}" by (rule pigeonhole)
  then obtain a b where ab: "a \<in> {1..n}" "b \<in> {1..n}" "f a = f b" "a \<noteq> b"
    by (auto simp: inj_on_def)
  then obtain i j where ij: "i < j" "j \<le> n" "f i = f j"
    using that[of a b] that[of b a] by (cases "a < b") simp_all
  have "(h, f i) \<in> R ^^ i"
    unfolding relpow_fun_conv using f ij by (intro exI[of _ f]) simp
  moreover have "(f i, f i) \<in> R ^^ (j - i)"
    unfolding relpow_fun_conv using f(2) ij by (intro exI[of _ "\<lambda>m. f (i + m)"]) simp
  ultimately have "(h, f i) \<in> R\<^sup>*" "(f i, f i) \<in> R\<^sup>+"
    using ij(1) by (auto simp: rtrancl_power, auto simp: trancl_power intro!: exI[of _ "j - i"])
  then show ?thesis by blast
qed

lemma cycle_pump:
  fixes R :: "('a \<times> 'a) set"
  assumes "(h, x) \<in> R\<^sup>*" "(x, x) \<in> R\<^sup>+"
  shows "\<exists>d. (h, d) \<in> R ^^ k"
proof -
  from assms obtain i p where i: "(h, x) \<in> R ^^ i" and p: "0 < p" "(x, x) \<in> R ^^ p"
    by (auto simp: rtrancl_power trancl_power)
  from i relpow_loop[OF p(2), of k] have "(h, x) \<in> R ^^ (i + p * k)" by (auto simp: relpow_add)
  moreover have "k \<le> i + p * k" using p(1) by (cases p) simp_all
  ultimately show ?thesis using relpow_prefix by (metis le_iff_add)
qed

text \<open>The recursion from \<open>h\<close> fails to return exactly when a cycle is reachable from \<open>h\<close>.\<close>

lemma build_node_diverges:
  assumes "length w < n"
  shows "build_node n w h = None \<longleftrightarrow>
    (\<exists>x. (h, x) \<in> (child_rel w)\<^sup>* \<and> (x, x) \<in> (child_rel w)\<^sup>+)"
proof -
  have "card (fst ` set w) \<le> length w"
    by (metis card_image_le card_length finite_set le_trans)
  then have "card (fst ` set w) < n" using assms by simp
  moreover have "\<And>a b. (a, b) \<in> child_rel w \<Longrightarrow> b \<in> fst ` set w"
    by (auto simp: child_rel_def children_of_def)
  ultimately show ?thesis
    unfolding build_node_None
    using relpow_cycle[of "fst ` set w" "child_rel w" h _ n] cycle_pump[of h _ "child_rel w" n] by blast
qed

lemma build_node_enough:
  assumes "length w < n"
  shows "build_node n w h = build_node (Suc (length w)) w h"
proof (cases "build_node (Suc (length w)) w h")
  case None
  then have "build_node n w h = None" using build_node_diverges[of w] assms by blast
  with None show ?thesis by simp
next
  case (Some t)
  then show ?thesis using build_node_mono[of "Suc (length w)" n w h t] assms by (simp del: build_node.simps)
qed

lemma fst_option_Stuck:
  "fst (case x of None \<Rightarrow> (Stuck, s) | Some n \<Rightarrow> (Ok n, s)) = Stuck \<longleftrightarrow> x = None"
  by (cases x) simp_all

section \<open>Correctness\<close>

lemma fake_tree_stuck:
  "fst (fake_get_window_tree snap h s) = Stuck \<longleftrightarrow>
     (\<exists>r x. (if h = 0 then r \<in> set (children_of (fb_windows s) 0) else r = h) \<and>
        (r, x) \<in> (child_rel (fb_windows s))\<^sup>* \<and> (x, x) \<in> (child_rel (fb_windows s))\<^sup>+)"
proof -
  have "fst (fake_get_window_tree snap h s) = Stuck \<longleftrightarrow>
    (\<exists>r. (if h = 0 then r \<in> set (children_of (fb_windows s) 0) else r = h) \<and>
       build_node (Suc (length (fb_windows s))) (fb_windows s) r = None)"
    by (simp add: fake_get_window_tree_def Let_def fst_option_Stuck those_None image_iff
        eq_commute[of None] Bex_def del: build_node.simps those.simps)
  also have "\<dots> \<longleftrightarrow> (\<exists>r x. (if h = 0 then r \<in> set (children_of (fb_windows s) 0) else r = h) \<and>
      (r, x) \<in> (child_rel (fb_windows s))\<^sup>* \<and> (x, x) \<in> (child_rel (fb_windows s))\<^sup>+)"
    unfolding build_node_diverges[of "fb_windows s" "Suc (length (fb_windows s))", OF lessI] by blast
  finally show ?thesis .
qed

text \<open>The window tree of the fake backend is returned exactly when no window reachable from
  the requested root is its own ancestor; otherwise the recursion never returns. The depth bound
  of the model plays no part: every larger bound gives the same node.\<close>

theorem fake_tree_returns:
  "(fst (fake_get_window_tree snap h s) = Stuck \<longleftrightarrow>
     (\<exists>r x. (if h = 0 then r \<in> set (children_of (fb_windows s) 0) else r = h) \<and>
        (r, x) \<in> (child_rel (fb_windows s))\<^sup>* \<and> (x, x) \<in> (child_rel (fb_windows s))\<^sup>+)) \<and>
   build_node (Suc (length w) + extra) w h = build_node (Suc (length w)) w h"
  using fake_tree_stuck[of snap h s] build_node_enough[of w "Suc (length w) + extra" h] by (simp del: build_node.simps)

text \<open>Every update of the class keeps the invariant.\<close>

lemma fake_inv_step:
  assumes "fake_inv s"
  shows "fake_inv (snd (fake_ensure_visible h v s))" "fake_inv (snd (fake_ensure_foreground h s))"
    "fake_inv (add_fake_ui_element h info s)" "fake_inv (clear_injected_events s)"
    "fake_inv (snd (inject msg s))"
  using assms fake_inv_ensure_visible[OF assms, of h v]
  by (auto simp: fake_inv_def fake_ensure_foreground_def add_fake_ui_element_def
    clear_injected_events_def inject_def om_wf_set intro: surjective_pairing)

end
