(* ===== verification/Core_Contract.thy ===== *)
theory Core_Contract
  imports Core Fake_Backend
begin

text \<open>
  What the engine guarantees to the daemon, the GUI and the CLI: the contracts of
  \<open>docs/CONTRACTS.md\<close> and \<open>docs/PROTOCOL.md\<close> over the model of \<open>core.cpp\<close>. General
  facts are proved in the backend locales; the properties at the end of each section state them
  for the fake backend, or for every backend where no contract is needed.
\<close>

section \<open>Inspection methods look and do not touch\<close>

context inspecting_backend
begin

lemma inspection_table:
  "list_all (\<lambda>(m, f). m \<in> set inspection_methods \<longrightarrow> const_comp (f req snap old)) (dispatch_table B eng logs)"
proof -
  have act: "m \<notin> set inspection_methods"
    if "m \<in> {''window.highlight'', ''window.ensureVisible'', ''window.ensureForeground'',
      ''window.setProperty'', ''window.postMessage'', ''input.send'', ''input.mouseClick'',
      ''input.keyPress'', ''input.text'', ''window.controlClick'', ''window.controlSend'',
      ''process.kill'', ''clipboard.write'', ''service.control'', ''env.set'', ''sync.createMutex'',
      ''mem.write'', ''input.hook'', ''reg.write'', ''reg.delete'', ''ui.invoke'',
      ''daemon.downloadUpdate''}" for m
    using that by (auto simp: inspection_methods_def)
  show ?thesis
    unfolding dispatch_table_def list.pred_inject prod.case inspection_defs param_defs Let_def
    by (intro conjI impI TrueI frame_intros query_const) (simp_all add: act)
qed

lemma dispatch_const:
  "(m, f) \<in> set (dispatch_table B eng logs) \<Longrightarrow> m \<in> set inspection_methods \<Longrightarrow>
   const_comp (f req snap old)"
  using inspection_table[of req snap old eng logs] by (auto simp: list_all_iff)

lemma inspection_frame:
  assumes "req_method req \<in> set inspection_methods"
  shows "fst (snd (handle B eng req snap old (s, lg))) = s"
proof -
  let ?t = "dispatch_table B eng (get_recent_logs 100 (log_at DEBUG (clk_timestamp eng)
    (''Handling request: '' @ req_method req @ '' (id='' @ req_id req @ '')'') lg))"
  show ?thesis
  proof (cases "map_of ?t (req_method req)")
    case None
    then show ?thesis by (rule handle_unknown)
  next
    case (Some f)
    then have "const_comp (f req snap old)"
      using dispatch_const[OF map_of_SomeD assms] by blast
    then show ?thesis using handle_run(1)[OF Some] by (simp add: const_compD)
  qed
qed

end

section \<open>Desired-state actions settle\<close>

context ensuring_backend
begin

lemma ensure_visible_reply:
  assumes "fst (h_ensure_visible B req snap old s) = Ok r"
  shows "\<exists>hs h vis c s'. str_param req ''hwnd'' = Some hs \<and> bool_param req ''visible'' = Some vis \<and>
    parse_hwnd hs = Some h \<and> ensure_visible B h vis s = (Ok c, s') \<and>
    h_ensure_visible B req snap old s = (Ok (reply (changed_json c)), s')"
proof -
  from assms obtain hs vis h where p: "str_param req ''hwnd'' = Some hs" "bool_param req ''visible'' = Some vis"
    "parse_hwnd hs = Some h"
    by (auto simp: h_ensure_visible_def need_hwnd_def andThen_def need_def throw_def ret_def both_def
        split: option.splits)
  obtain c s' where "ensure_visible B h vis s = (Ok c, s')" using ensure_visible_returns by blast
  with p show ?thesis
    by (auto simp: h_ensure_visible_def need_hwnd_def andThen_def need_def ret_def both_def)
qed

lemma ensure_foreground_reply:
  assumes "fst (h_ensure_foreground B req snap old s) = Ok r"
  shows "\<exists>hs h c s'. str_param req ''hwnd'' = Some hs \<and> parse_hwnd hs = Some h \<and>
    ensure_foreground B h s = (Ok c, s') \<and>
    h_ensure_foreground B req snap old s = (Ok (reply (changed_json c)), s')"
proof -
  from assms obtain hs h where p: "str_param req ''hwnd'' = Some hs" "parse_hwnd hs = Some h"
    by (auto simp: h_ensure_foreground_def hwnd_param_def need_hwnd_def andThen_def need_def throw_def
        ret_def split: option.splits)
  obtain c s' where "ensure_foreground B h s = (Ok c, s')" using ensure_foreground_returns by blast
  with p show ?thesis
    by (auto simp: h_ensure_foreground_def hwnd_param_def need_hwnd_def andThen_def need_def ret_def)
qed

text \<open>Repeating an accepted request, whatever the snapshot, is accepted and changes nothing.\<close>

lemma ensure_visible_again:
  assumes "h_ensure_visible B req snap old s = (Ok r, s')"
  shows "h_ensure_visible B req snap2 old2 s' = (Ok (reply (changed_json False)), s')"
proof -
  from assms have "fst (h_ensure_visible B req snap old s) = Ok r" by simp
  from ensure_visible_reply[OF this] assms
  obtain hs h vis c where p: "str_param req ''hwnd'' = Some hs" "bool_param req ''visible'' = Some vis"
    "parse_hwnd hs = Some h" and e: "ensure_visible B h vis s = (Ok c, s')" by auto
  from ensure_visible_settles[OF e] p show ?thesis
    by (simp add: h_ensure_visible_def need_hwnd_def andThen_def need_def ret_def both_def)
qed

lemma ensure_foreground_again:
  assumes "h_ensure_foreground B req snap old s = (Ok r, s')"
  shows "h_ensure_foreground B req snap2 old2 s' = (Ok (reply (changed_json False)), s')"
proof -
  from assms have "fst (h_ensure_foreground B req snap old s) = Ok r" by simp
  from ensure_foreground_reply[OF this] assms
  obtain hs h c where p: "str_param req ''hwnd'' = Some hs" "parse_hwnd hs = Some h"
    and e: "ensure_foreground B h s = (Ok c, s')" by auto
  from ensure_foreground_settles[OF e] p show ?thesis
    by (simp add: h_ensure_foreground_def hwnd_param_def need_hwnd_def andThen_def need_def ret_def)
qed

end

text \<open>From the handlers to \<open>handle\<close>.\<close>

definition timed :: "CoreEngine \<Rightarrow> CoreResponse \<Rightarrow> CoreResponse" where
  "timed eng r = r\<lparr>metrics := om_set ''duration_ms'' (num_of_int (clk_duration eng)) (metrics r)\<rparr>"

lemma timed_sel [simp]:
  "resp_id (timed eng r) = resp_id r" "resp_ok (timed eng r) = resp_ok r"
  "resp_result (timed eng r) = resp_result r" "error_code (timed eng r) = error_code r"
  by (simp_all add: timed_def)

lemma handle_accepted:
  assumes "\<And>logs. map_of (dispatch_table B eng logs) (req_method req) = Some f"
    and "handle B eng req snap old (s, lg) = (Ok r, s', lg')" and "resp_ok r"
  obtains r0 where "f req snap old s = (Ok r0, s')" "r = timed eng r0"
proof -
  note run = handle_run[OF assms(1), of snap old s lg]
  from run(1) assms(2) have "snd (f req snap old s) = s'" by simp
  moreover from run(2) assms(2,3) obtain r0 where "fst (f req snap old s) = Ok r0" "r = timed eng r0"
    by (auto simp: timed_def with_error_def split: res.splits)
  ultimately show ?thesis using that by (metis prod.collapse)
qed

lemma handle_accepts:
  assumes "\<And>logs. map_of (dispatch_table B eng logs) (req_method req) = Some f"
    and "f req snap old s = (Ok r0, s')"
  shows "\<exists>lg'. handle B eng req snap old (s, lg) = (Ok (timed eng r0), s', lg')"
  using handle_run[OF assms(1), of snap old s lg] assms(2)
  by (cases "handle B eng req snap old (s, lg)") (auto simp: timed_def)

lemma dispatch_ensure:
  "map_of (dispatch_table B eng logs) ''window.ensureVisible'' = Some (h_ensure_visible B)"
  "map_of (dispatch_table B eng logs) ''window.ensureForeground'' = Some (h_ensure_foreground B)"
  by (simp_all add: dispatch_table_def)

context ensuring_backend
begin

lemma ensure_request_again:
  assumes m: "req_method req \<in> {''window.ensureVisible'', ''window.ensureForeground''}"
    and h: "handle B eng req snap old (s, lg) = (Ok r, s', lg')" "resp_ok r"
  shows "\<exists>r2 lg3. handle B eng2 req snap2 old2 (s', lg2) = (Ok r2, s', lg3) \<and>
    resp_ok r2 \<and> resp_result r2 = changed_json False"
proof -
  have ok: "resp_ok (reply v)" "resp_result (reply v) = v" for v
    by (simp_all add: reply_def)
  show ?thesis
  proof (cases "req_method req = ''window.ensureVisible''")
    case True
    then have f: "\<And>e logs. map_of (dispatch_table B e logs) (req_method req) = Some (h_ensure_visible B)"
      by (simp add: dispatch_ensure)
    from handle_accepted[OF f h] obtain r0 where "h_ensure_visible B req snap old s = (Ok r0, s')" .
    from handle_accepts[OF f ensure_visible_again[OF this, of snap2 old2], of eng2 lg2]
    show ?thesis using ok by (metis timed_sel(2,3))
  next
    case False
    with m have f: "\<And>e logs. map_of (dispatch_table B e logs) (req_method req) = Some (h_ensure_foreground B)"
      by (simp add: dispatch_ensure)
    from handle_accepted[OF f h] obtain r0 where "h_ensure_foreground B req snap old s = (Ok r0, s')" .
    from handle_accepts[OF f ensure_foreground_again[OF this, of snap2 old2], of eng2 lg2]
    show ?thesis using ok by (metis timed_sel(2,3))
  qed
qed

end

section \<open>Response identifiers\<close>

lemma resp_id_shapes [simp]:
  "resp_id (reply v) = []" "resp_id (refuse code msg) = []" "resp_id new_response = []"
  "resp_ok new_response" "resp_ok (reply v)" "\<not> resp_ok (refuse code msg)"
  by (simp_all add: reply_def refuse_def new_response_def)

text \<open>A response made by a handler other than \<open>events.poll\<close>.\<close>

definition anonymous :: "CoreResponse \<Rightarrow> bool" where
  "anonymous r \<longleftrightarrow> resp_id r = [] \<and> error_code r \<notin> {''E_BAD_METHOD'', ''E_BAD_REQUEST''}"

lemma anonymous_shapes [simp]:
  "anonymous (reply v)" "anonymous (new_response\<lparr>resp_ok := b\<rparr>)"
  "anonymous (new_response\<lparr>resp_result := v\<rparr>)" "anonymous (new_response\<lparr>resp_ok := b, resp_result := v\<rparr>)"
  "anonymous (refuse ''E_BAD_HWND'' msg)" "anonymous (refuse ''E_NOT_FOUND'' msg)"
  "anonymous (refuse ''E_READ_FAILED'' msg)" "anonymous (refuse ''E_ACCESS_DENIED'' msg)"
  by (simp_all add: anonymous_def reply_def refuse_def new_response_def)

lemma handler_ids_table:
  "list_all (\<lambda>(m, f). m \<noteq> ''events.poll'' \<longrightarrow> returns_only anonymous (f req snap old))
     (dispatch_table B eng logs)"
  unfolding dispatch_table_def list.pred_inject prod.case inspection_defs action_defs Let_def
  by (intro conjI impI TrueI result_intros; simp split: option.splits)

lemma handler_ids:
  "(m, f) \<in> set (dispatch_table B eng logs) \<Longrightarrow> m \<noteq> ''events.poll'' \<Longrightarrow>
   returns_only anonymous (f req snap old)"
  using handler_ids_table[of req snap old B eng logs] by (auto simp: list_all_iff)

lemma events_poll_id: "returns_only (\<lambda>r. resp_id r = req_id req) (h_events_poll B e req snap old)"
  unfolding h_events_poll_def Let_def by (intro result_intros; simp)

lemma dispatch_poll:
  "map_of (dispatch_table B eng logs) ''events.poll'' = Some (h_events_poll B (clk_elapsed eng))"
  by (simp add: dispatch_table_def)

lemma handle_id:
  assumes "fst (handle B eng req snap old (s, lg)) = Ok r"
  shows "resp_id r = (if req_method req = ''events.poll'' \<or> error_code r \<in> {''E_BAD_METHOD'', ''E_BAD_REQUEST''}
    then req_id req else [])"
proof -
  let ?t = "dispatch_table B eng (get_recent_logs 100 (log_at DEBUG (clk_timestamp eng)
    (''Handling request: '' @ req_method req @ '' (id='' @ req_id req @ '')'') lg))"
  show ?thesis
  proof (cases "map_of ?t (req_method req)")
    case None
    from handle_unknown(2)[OF this] assms show ?thesis by (auto simp: with_error_def base_response_def)
  next
    case (Some f)
    show ?thesis
    proof (cases "fst (f req snap old s)")
      case (Ok r0)
      with handle_run(2)[OF Some, of snap old s] assms have r: "r = timed eng r0"
        by (simp add: timed_def)
      show ?thesis
      proof (cases "req_method req = ''events.poll''")
        case True
        with Some dispatch_poll have "f = h_events_poll B (clk_elapsed eng)" by (metis option.inject)
        then show ?thesis using True r returns_onlyD[OF events_poll_id] Ok by auto
      next
        case False
        with returns_onlyD[OF handler_ids[OF map_of_SomeD[OF Some]] Ok]
        show ?thesis by (simp add: r anonymous_def)
      qed
    next
      case (Throw e)
      with handle_run(2)[OF Some, of snap old s] assms
      show ?thesis by (auto simp: with_error_def base_response_def)
    next
      case Stuck
      with handle_run(2)[OF Some, of snap old s] assms show ?thesis by simp
    qed
  qed
qed

section \<open>Environment variables\<close>

lemma env_object_lookup:
  assumes "v \<in> set vars"
  shows "map_of (env_object vars) (ev_name v) =
    (if sensitive (ev_name v) then Some (Str ''<REDACTED>'')
     else map_of (rev (map (\<lambda>v. (ev_name v, Str (ev_value v))) vars)) (ev_name v))"
  using assms unfolding env_object_def map_of_obj_of
  by (induction vars rule: rev_induct) auto

lemma env_object_keys: "fst ` set (env_object vars) = ev_name ` set vars"
proof -
  have "dom (map_of (env_object vars)) = ev_name ` set vars"
    by (simp add: env_object_def dom_map_of_conv_image_fst image_image)
  then show ?thesis by (simp add: dom_map_of_conv_image_fst)
qed

section \<open>Requests whose numbers fit\<close>

definition params_in_range :: "Object \<Rightarrow> bool" where
  "params_in_range params \<longleftrightarrow> (\<forall>(k, v) \<in> set params. case v of
     Num d \<Rightarrow> 0 \<le> dtrunc d \<and> dtrunc d < 2 ^ 31 \<and> (k \<in> {''r'', ''g'', ''b''} \<longrightarrow> dtrunc d < 256)
   | _ \<Rightarrow> True)"

lemma in_range_get_num:
  assumes "params_in_range (req_params req)" "num_param req k = Some d"
  shows "0 \<le> dtrunc d" "dtrunc d < 2 ^ 31" "k \<in> {''r'', ''g'', ''b''} \<Longrightarrow> dtrunc d < 256"
proof -
  from assms(2) have "(k, Num d) \<in> set (req_params req)"
    by (auto simp: get_num_def split: option.splits Value.splits dest: map_of_SomeD)
  with assms(1) show "0 \<le> dtrunc d" "dtrunc d < 2 ^ 31" "k \<in> {''r'', ''g'', ''b''} \<Longrightarrow> dtrunc d < 256"
    by (auto simp: params_in_range_def)
qed

lemma cast_range_defined: "lo \<le> dtrunc d \<Longrightarrow> dtrunc d \<le> hi \<Longrightarrow> cast_range lo hi d \<noteq> None"
  by (simp add: cast_range_def)

lemma in_range_casts:
  assumes "params_in_range (req_params req)" "num_param req k = Some d"
  shows "cast_int d \<noteq> None" "cast_u32 d \<noteq> None" "cast_u64 d \<noteq> None" "cast_llong d \<noteq> None"
  using in_range_get_num(1,2)[OF assms]
  by (auto simp: cast_int_def cast_u32_def cast_u64_def cast_llong_def cast_range_def)

lemma in_range_channels:
  assumes "params_in_range (req_params req)"
  shows "num_param req ''r'' = Some d \<Longrightarrow> cast_u8 d \<noteq> None"
    "num_param req ''g'' = Some d \<Longrightarrow> cast_u8 d \<noteq> None"
    "num_param req ''b'' = Some d \<Longrightarrow> cast_u8 d \<noteq> None"
  using in_range_get_num[OF assms, of "''r''" d] in_range_get_num[OF assms, of "''g''" d]
    in_range_get_num[OF assms, of "''b''" d] by (auto simp: cast_u8_def cast_range_def)

lemma dtrunc_small: "0 \<le> i \<Longrightarrow> i \<le> 100 \<Longrightarrow> dtrunc (double_of_int i) = i"
  by (rule dtrunc_double_of_int) simp

lemma in_range_default:
  assumes "params_in_range (req_params req)" "0 \<le> i" "i \<le> 100"
  shows "cast_int (value_or (num_param req k) (double_of_int i)) \<noteq> None"
    "cast_u64 (value_or (num_param req k) (double_of_int i)) \<noteq> None"
    "cast_llong (value_or (num_param req k) (double_of_int i)) \<noteq> None"
  using in_range_casts[OF assms(1), of k] dtrunc_small[OF assms(2,3)] assms(2,3)
  by (cases "num_param req k"; simp add: value_or_def cast_int_def cast_u64_def cast_llong_def cast_range_def)+

lemma hwnd_param_answers: "answering (hwnd_param req)" "answering (need_hwnd hs)"
  unfolding hwnd_param_def need_hwnd_def by (intro answering_andThen answer_intros)+

lemma rect_answers:
  assumes "params_in_range (req_params req)" "region_param req = Some region"
  shows "answering (rect_of region)"
proof -
  obtain l t r b where "region = (l, t, r, b)" by (cases region)
  then show ?thesis using assms in_range_casts(1)[OF assms(1)] unfolding rect_of_def
    by (auto intro!: answering_defined_then answering_ret)
qed

lemma fake_handlers_answer:
  assumes "params_in_range (req_params req)"
  shows "list_all (\<lambda>(m, f). m \<noteq> ''window.getTree'' \<longrightarrow> answering (f req snap old))
    (dispatch_table fake_backend eng logs)"
  unfolding dispatch_table_def list.pred_inject prod.case inspection_defs action_defs Let_def
    fake_backend_sel fake_backend_action_sel fake_query_defs fake_action_defs
  apply (intro conjI impI TrueI hwnd_param_answers answering_need_then answering_defined_then
      answer_intros answering_andThen)
  apply (simp_all only: both_Some in_range_default[OF assms] order_refl zero_le_numeral simp_thms)
  apply ((elim conjE)?, erule in_range_casts[OF assms] in_range_channels[OF assms] rect_answers[OF assms])+
  by simp

lemma fake_dispatch_answers:
  "params_in_range (req_params req) \<Longrightarrow> (m, f) \<in> set (dispatch_table fake_backend eng logs) \<Longrightarrow>
   m \<noteq> ''window.getTree'' \<Longrightarrow> answering (f req snap old)"
  using fake_handlers_answer[of req snap old eng logs] by (auto simp: list_all_iff)

lemma fake_tree_handler_answers:
  assumes "\<And>h. answers (fst (fake_get_window_tree snap h s))"
  shows "answers (fst (h_get_tree fake_backend req snap old s))"
  using assms[of 0] assms
  by (auto simp: h_get_tree_def andThen_def ret_def need_hwnd_def need_def throw_def answers_def
      split: option.splits prod.splits res.splits) (metis fst_conv)+

lemma dispatch_tree: "map_of (dispatch_table B eng logs) ''window.getTree'' = Some (h_get_tree B)"
  by (simp add: dispatch_table_def)

lemma fake_handle_answers:
  assumes "params_in_range (req_params req)" and "\<And>h. answers (fst (fake_get_window_tree snap h s))"
  shows "\<exists>r. fst (handle fake_backend eng req snap old (s, lg)) = Ok r"
proof -
  let ?t = "dispatch_table fake_backend eng (get_recent_logs 100 (log_at DEBUG (clk_timestamp eng)
    (''Handling request: '' @ req_method req @ '' (id='' @ req_id req @ '')'') lg))"
  show ?thesis
  proof (cases "map_of ?t (req_method req)")
    case None
    then show ?thesis by (simp add: handle_unknown(2))
  next
    case (Some f)
    have "answers (fst (f req snap old s))"
    proof (cases "req_method req = ''window.getTree''")
      case True
      with Some dispatch_tree have "f = h_get_tree fake_backend" by (metis option.inject)
      then show ?thesis using fake_tree_handler_answers[OF assms(2)] by simp
    next
      case False
      with fake_dispatch_answers[OF assms(1) map_of_SomeD[OF Some]] have "answering (f req snap old)" .
      then show ?thesis by (simp add: answering_def)
    qed
    then show ?thesis using handle_run(2)[OF Some, of snap old s] by (auto simp: answers_def split: res.splits)
  qed
qed

section \<open>Properties\<close>

text \<open>Inputs for the witnesses: one visible window and an engine with its readings of the clock.\<close>

definition sample_engine :: CoreEngine where
  "sample_engine = \<lparr>admin_logs_enabled = False, clk_elapsed = 0, clk_duration = 1, clk_timestamp = ''t''\<rparr>"

definition sample_state :: FakeBackend where
  "sample_state = new_fake_backend
     [\<lparr>fw_hwnd = 1, fw_parent = 0, fw_owner = 0, fw_title = ''A'', fw_cls = ''C'', fw_visible = True\<rparr>]"

definition sample_request :: "string \<Rightarrow> Object \<Rightarrow> CoreRequest" where
  "sample_request m params = \<lparr>req_id = ''7'', req_method = m, req_params = params\<rparr>"

definition hide_params :: Object where
  "hide_params = [(''hwnd'', Str (hwnd_to_string 1)), (''visible'', Bool False)]"

text \<open>C2: an inspection method leaves the backend exactly as it was, whatever its parameters, the
  snapshot and the clock, and also when the request is refused.\<close>

theorem inspection_side_effect_free:
  "req_method req \<in> set inspection_methods \<Longrightarrow>
   fst (snd (handle fake_backend eng req snap old (s, lg))) = s"
  by (rule fake.inspection_frame)

theorem inspection_side_effect_free_witness:
  "req_method (sample_request ''window.getInfo'' hide_params) \<in> set inspection_methods \<and>
   fst (snd (handle fake_backend sample_engine (sample_request ''window.getInfo'' hide_params)
     \<lparr>top = [1]\<rparr> None (sample_state, new_logger))) = sample_state"
  using inspection_side_effect_free[of "sample_request ''window.getInfo'' hide_params" sample_engine
      "\<lparr>top = [1]\<rparr>" None sample_state new_logger]
  by (simp add: sample_request_def inspection_methods_def)

text \<open>C8: desired-state actions are idempotent. Once an \<open>ensureVisible\<close> or
  \<open>ensureForeground\<close> request has been accepted, the same request, on any later snapshot and
  at any later time, is accepted, reports \<open>changed: false\<close> and changes nothing.\<close>

theorem ensure_idempotent:
  assumes "req_method req \<in> {''window.ensureVisible'', ''window.ensureForeground''}"
    and "handle fake_backend eng req snap old (s, lg) = (Ok r, s', lg')" and "resp_ok r"
  shows "\<exists>r2 lg3. handle fake_backend eng2 req snap2 old2 (s', lg2) = (Ok r2, s', lg3) \<and>
    resp_ok r2 \<and> resp_result r2 = changed_json False"
  using assms by (rule fake.ensure_request_again)

lemma sample_hide:
  "\<exists>s' lg'. handle fake_backend sample_engine (sample_request ''window.ensureVisible'' hide_params)
     \<lparr>top = [1]\<rparr> None (sample_state, new_logger) = (Ok (timed sample_engine (reply (changed_json True))), s', lg')"
proof -
  note p = parse_hwnd_to_string[of 1]
  have w: "map_of (fb_windows sample_state) 1 =
      Some \<lparr>fw_hwnd = 1, fw_parent = 0, fw_owner = 0, fw_title = ''A'', fw_cls = ''C'', fw_visible = True\<rparr>"
    by (simp add: sample_state_def new_fake_backend_def om_emplace_def)
  have "\<exists>s'. h_ensure_visible fake_backend (sample_request ''window.ensureVisible'' hide_params)
      \<lparr>top = [1]\<rparr> None sample_state = (Ok (reply (changed_json True)), s')"
    by (simp add: h_ensure_visible_def sample_request_def hide_params_def get_str_def get_bool_def both_def
        andThen_def need_def ret_def need_hwnd_def p fake_ensure_visible_def w)
  then obtain s' where "h_ensure_visible fake_backend (sample_request ''window.ensureVisible'' hide_params)
      \<lparr>top = [1]\<rparr> None sample_state = (Ok (reply (changed_json True)), s')" ..
  from handle_accepts[where f = "h_ensure_visible fake_backend" and B = fake_backend and
      eng = sample_engine and lg = new_logger, OF _ this]
  show ?thesis by (auto simp: sample_request_def dispatch_ensure)
qed

theorem ensure_idempotent_witness:
  "\<exists>s' lg' r2 lg3.
     handle fake_backend sample_engine (sample_request ''window.ensureVisible'' hide_params)
       \<lparr>top = [1]\<rparr> None (sample_state, new_logger) = (Ok (timed sample_engine (reply (changed_json True))), s', lg') \<and>
     handle fake_backend sample_engine (sample_request ''window.ensureVisible'' hide_params)
       \<lparr>top = []\<rparr> None (s', new_logger) = (Ok r2, s', lg3) \<and> resp_result r2 = changed_json False"
proof -
  obtain s' lg' where h: "handle fake_backend sample_engine (sample_request ''window.ensureVisible'' hide_params)
     \<lparr>top = [1]\<rparr> None (sample_state, new_logger) = (Ok (timed sample_engine (reply (changed_json True))), s', lg')"
    using sample_hide by blast
  have "req_method (sample_request ''window.ensureVisible'' hide_params) \<in> {''window.ensureVisible'', ''window.ensureForeground''}"
    by (simp add: sample_request_def)
  from ensure_idempotent[OF this h, of sample_engine "\<lparr>top = []\<rparr>" None new_logger] h show ?thesis by auto
qed

text \<open>C29: what \<open>handle\<close> answers to, on every backend. Exceptions never escape it, and the
  response carries the request's identifier only when no handler produced it (unknown method,
  or a handler that threw) or when the method is \<open>events.poll\<close>: every other handler returns a
  default-constructed response whose identifier is empty.\<close>

theorem handle_identifiers:
  "fst (handle B eng req snap old st) \<noteq> Throw e \<and>
   (case fst (handle B eng req snap old (s, lg)) of
      Ok r \<Rightarrow> resp_id r = (if req_method req = ''events.poll'' \<or>
          error_code r \<in> {''E_BAD_METHOD'', ''E_BAD_REQUEST''} then req_id req else [])
    | _ \<Rightarrow> True)"
  using handle_no_throw[of B eng req snap old st e] handle_id[of B eng req snap old s lg]
  by (auto split: res.split)

lemma dispatch_names: "map fst (dispatch_table B eng logs) = map fst (dispatch_table B' eng' logs')"
  by (simp add: dispatch_table_def)

lemma dispatch_distinct: "distinct (map fst (dispatch_table B eng logs))"
  by (simp add: dispatch_table_def)

text \<open>A method outside the dispatch table is answered with \<open>E_BAD_METHOD\<close> and touches
  nothing; the table has one entry per name.\<close>

theorem unknown_method_refused:
  assumes "req_method req \<notin> set (map fst (dispatch_table B eng []))"
  shows "\<exists>r lg'. handle B eng req snap old (s, lg) = (Ok r, s, lg') \<and> \<not> resp_ok r \<and>
    error_code r = ''E_BAD_METHOD'' \<and> resp_id r = req_id req"
proof -
  have n: "map_of (dispatch_table B eng logs) (req_method req) = None" for logs
    using assms dispatch_names[of B eng "[]" B eng logs] by (simp add: map_of_eq_None_iff flip: set_map)
  from handle_unknown[OF n, of snap old s lg] show ?thesis
    by (cases "handle B eng req snap old (s, lg)") (auto simp: with_error_def base_response_def)
qed

theorem unknown_method_refused_witness:
  "\<exists>r lg'. handle fake_backend sample_engine (sample_request ''daemon.status'' []) \<lparr>top = []\<rparr> None
     (sample_state, new_logger) = (Ok r, sample_state, lg') \<and> \<not> resp_ok r \<and>
     error_code r = ''E_BAD_METHOD'' \<and> resp_id r = ''7''"
  using unknown_method_refused[of "sample_request ''daemon.status'' []" fake_backend sample_engine
      "\<lparr>top = []\<rparr>" None sample_state new_logger]
  by (simp add: sample_request_def dispatch_table_def)

lemma dispatch_env: "map_of (dispatch_table B eng logs) ''env.get'' = Some (h_env_get B)"
  by (simp add: dispatch_table_def)





lemma dispatch_key: "map_of (dispatch_table B eng logs) ''input.keyPress'' = Some (h_key_press B)"
  by (simp add: dispatch_table_def)

text \<open>The condition on numbers is needed. On every backend, a key code outside the range of
  \<open>int\<close> makes \<open>input.keyPress\<close> convert it all the same, which is undefined behaviour.\<close>

theorem key_code_overflow_undefined:
  assumes "req_method req = ''input.keyPress''" and "num_param req ''vk'' = Some d"
    and "dtrunc d < - (2 ^ 31) \<or> 2 ^ 31 \<le> dtrunc d"
  shows "fst (handle B eng req snap old (s, lg)) = Stuck"
proof -
  have f: "\<And>logs. map_of (dispatch_table B eng logs) (req_method req) = Some (h_key_press B)"
    by (simp add: assms(1) dispatch_key)
  have "fst (h_key_press B req snap old s) = Stuck"
    using assms(2,3)
    by (auto simp: h_key_press_def andThen_def need_def ret_def defined_def stuck_def cast_int_def cast_range_def)
  then show ?thesis using handle_run(2)[OF f, of snap old s lg] by simp
qed

theorem key_code_overflow_undefined_witness:
  "fst (handle fake_backend sample_engine (sample_request ''input.keyPress'' [(''vk'', num_of_int (2 ^ 40))])
     \<lparr>top = []\<rparr> None (sample_state, new_logger)) = Stuck"
proof (rule key_code_overflow_undefined)
  show "req_method (sample_request ''input.keyPress'' [(''vk'', num_of_int (2 ^ 40))]) = ''input.keyPress''"
    by (simp add: sample_request_def)
  show "num_param (sample_request ''input.keyPress'' [(''vk'', num_of_int (2 ^ 40))]) ''vk'' = Some (double_of_int (2 ^ 40))"
    by (simp add: sample_request_def get_num_def)
  have "dtrunc (double_of_int (2 ^ 40)) = 2 ^ 40" by (rule dtrunc_double_of_int) simp
  then show "dtrunc (double_of_int (2 ^ 40)) < - (2 ^ 31) \<or> 2 ^ 31 \<le> dtrunc (double_of_int (2 ^ 40))"
    by simp
qed

definition read_hwnd_entry :: "Value \<Rightarrow> hwnd_u64 option" where
  "read_hwnd_entry v = (case v of Obj o' \<Rightarrow>
     (case get_str o' ''hwnd'' of Some t \<Rightarrow> parse_hwnd t | None \<Rightarrow> None) | _ \<Rightarrow> None)"

lemma read_hwnd_list: "hwnd_list hs = Arr vs \<Longrightarrow> map read_hwnd_entry vs = map Some hs"
  by (auto simp: hwnd_list_def read_hwnd_entry_def get_str_def parse_hwnd_to_string)

lemma dispatch_list_top: "map_of (dispatch_table B eng logs) ''window.listTop'' = Some (h_list_top B)"
  by (simp add: dispatch_table_def)

text \<open>Window handles cross the wire unharmed. On every backend, the handles in the answer to
  \<open>window.listTop\<close> read back, with the reader the other methods use for their parameters, as
  the handles the backend listed, in order.\<close>

theorem listed_handles_read_back:
  assumes "req_method req = ''window.listTop''" and "list_top B snap s = (Ok hs, s')"
  shows "\<exists>r lg' vs. handle B eng req snap old (s, lg) = (Ok r, s', lg') \<and>
    resp_result r = Arr vs \<and> map read_hwnd_entry vs = map Some hs"
proof -
  have f: "\<And>logs. map_of (dispatch_table B eng logs) (req_method req) = Some (h_list_top B)"
    by (simp add: assms(1) dispatch_list_top)
  have "h_list_top B req snap old s = (Ok (reply (hwnd_list hs)), s')"
    using assms(2) by (simp add: h_list_top_def andThen_def ret_def)
  from handle_accepts[OF f this] obtain lg' where
    h: "handle B eng req snap old (s, lg) = (Ok (timed eng (reply (hwnd_list hs))), s', lg')" by blast
  obtain vs where "hwnd_list hs = Arr vs" by (simp add: hwnd_list_def)
  with h read_hwnd_list[OF this] show ?thesis by (auto simp: reply_def)
qed

theorem listed_handles_read_back_witness:
  "\<exists>r lg' vs. handle fake_backend sample_engine (sample_request ''window.listTop'' []) \<lparr>top = [1, 0xFFFFFFFFFFFFFFFF]\<rparr>
     None (sample_state, new_logger) = (Ok r, sample_state, lg') \<and>
     resp_result r = Arr vs \<and> map read_hwnd_entry vs = [Some 1, Some 0xFFFFFFFFFFFFFFFF]"
proof -
  have m: "req_method (sample_request ''window.listTop'' []) = ''window.listTop''" by (simp add: sample_request_def)
  have l: "list_top fake_backend \<lparr>top = [1, 0xFFFFFFFFFFFFFFFF]\<rparr> sample_state = (Ok [1, 0xFFFFFFFFFFFFFFFF], sample_state)"
    by (simp add: fake_list_top_def ret_def)
  from listed_handles_read_back[OF m l, of sample_engine None new_logger] show ?thesis by simp
qed

text \<open>Which texts are requests. \<open>parse_request_json\<close> accepts exactly the JSON objects that
  have a string \<open>id\<close>, a string \<open>method\<close> and an object \<open>params\<close>, returns those three
  (further members are ignored), and returns or throws on every other text.\<close>

theorem request_accepted_iff:
  "(parse_request_json s = Ok req \<longleftrightarrow>
     (\<exists>o'. parse s = Ok (Obj o') \<and> map_of o' ''id'' = Some (Str (req_id req)) \<and>
        map_of o' ''method'' = Some (Str (req_method req)) \<and>
        map_of o' ''params'' = Some (Obj (req_params req)))) \<and>
   parse_request_json s \<noteq> Stuck"
proof (cases "parse s")
  case Stuck
  then show ?thesis using parse_answers[of s] by (simp add: answers_def)
next
  case (Throw e)
  then show ?thesis by (simp add: parse_request_json_def)
next
  case (Ok v)
  then show ?thesis
    by (cases v) (auto simp: parse_request_json_def split: option.splits Value.splits)
qed

text \<open>A client that parses a response gets the object the engine built: its identifier, its
  verdict, and the result or the error. The result must be a value a \<open>std::map\<close> based JSON tree
  can hold and its numbers whole, as all numbers the engine produces are, image scores apart.\<close>

theorem response_read_back:
  assumes "wire_value (resp_result r)" and "wire_value (Obj (metrics r))"
  shows "parse (serialize_response_json r canonical) = Ok (Obj (to_json_obj r canonical)) \<and>
    map_of (to_json_obj r canonical) ''id'' = Some (Str (resp_id r)) \<and>
    map_of (to_json_obj r canonical) ''ok'' = Some (Bool (resp_ok r)) \<and>
    map_of (to_json_obj r canonical) ''result'' = (if resp_ok r then Some (resp_result r) else None) \<and>
    map_of (to_json_obj r canonical) ''error'' =
      (if resp_ok r then None else Some (make_error (error_code r) (error_message r)))"
proof -
  from wire_round_trip[OF wire_to_json_obj[OF assms], of canonical]
  have "parse (serialize_response_json r canonical) = Ok (Obj (to_json_obj r canonical))"
    by (simp add: serialize_response_json_def)
  then show ?thesis unfolding to_json_obj_def map_of_obj_of by simp
qed

theorem response_read_back_witness:
  "parse (serialize_response_json (reply (hwnd_list [1])) True) =
     Ok (Obj (to_json_obj (reply (hwnd_list [1])) True))"
proof -
  have "wire_value (hwnd_list [1])" by (simp add: hwnd_list_def wire_obj_of)
  moreover have "wire_value (Obj [])" by (simp add: wire_obj)
  ultimately show ?thesis
    using response_read_back[of "reply (hwnd_list [1])" True] by (simp add: reply_def new_response_def)
qed

end
