(* ===== verification/Core_Invariant.thy ===== *)
theory Core_Invariant
  imports Core_Contract
begin

text \<open>
  The engine touches the backend only through the interface: whatever all methods of a backend
  preserve, \<open>handle\<close> preserves. The locale \<open>invariant_backend\<close> is that interface for the
  methods that act; the fake backend is an instance with its class invariant and the shape of its
  window tree, which no request changes.
\<close>

section \<open>Preserving a predicate on the state\<close>

named_theorems keep_intros

definition keeps :: "('s \<Rightarrow> bool) \<Rightarrow> ('s, 'a) comp \<Rightarrow> bool" where
  "keeps P m \<longleftrightarrow> (\<forall>s. P s \<longrightarrow> P (snd (m s)))"

lemma keepsD: "keeps P m \<Longrightarrow> P s \<Longrightarrow> P (snd (m s))"
  by (simp add: keeps_def)

lemma keeps_const: "const_comp m \<Longrightarrow> keeps P m"
  by (simp add: keeps_def const_comp_def)

lemma keeps_basic [keep_intros]:
  "keeps P (ret a)" "keeps P (throw e)" "keeps P stuck" "keeps P (need x msg)" "keeps P (defined x)" "keeps P (lift_res r)"
  by (intro keeps_const frame_intros)+

lemma keeps_andThen [keep_intros]:
  "keeps P m \<Longrightarrow> (\<And>a. keeps P (f a)) \<Longrightarrow> keeps P (andThen m f)"
  unfolding keeps_def andThen_def by (auto split: prod.splits res.splits)

lemma keeps_if [keep_intros]: "(b \<Longrightarrow> keeps P m) \<Longrightarrow> (\<not> b \<Longrightarrow> keeps P m') \<Longrightarrow> keeps P (if b then m else m')"
  by simp

lemma keeps_option [keep_intros]:
  "keeps P m \<Longrightarrow> (\<And>a. keeps P (f a)) \<Longrightarrow> keeps P (case x of None \<Rightarrow> m | Some a \<Rightarrow> f a)"
  by (cases x) simp_all

lemma keeps_prod [keep_intros]: "(\<And>a b. keeps P (f a b)) \<Longrightarrow> keeps P (case x of (a, b) \<Rightarrow> f a b)"
  by (cases x) simp

section \<open>The interface\<close>

locale invariant_backend = inspecting_backend B for B :: "'s IBackend" +
  fixes Inv :: "'s \<Rightarrow> bool"
  assumes capture_keeps: "keeps Inv (capture_snapshot B)"
    and set_config_keeps: "keeps Inv (set_config B cfg)"
    and ensure_visible_keeps: "keeps Inv (ensure_visible B h v)"
    and ensure_foreground_keeps: "keeps Inv (ensure_foreground B h)"
    and highlight_keeps: "keeps Inv (highlight_window B h)"
    and set_property_keeps: "keeps Inv (set_property B h name value)"
    and post_message_keeps: "keeps Inv (post_message B h msg wp lp)"
    and send_input_keeps: "keeps Inv (send_input B bs)"
    and mouse_click_keeps: "keeps Inv (send_mouse_click B x y b)"
    and key_press_keeps: "keeps Inv (send_key_press B k)"
    and send_text_keeps: "keeps Inv (send_text B text)"
    and control_click_keeps: "keeps Inv (control_click B h x y b)"
    and control_send_keeps: "keeps Inv (control_send B h text)"
    and kill_keeps: "keeps Inv (kill_process B pid)"
    and reg_write_keeps: "keeps Inv (reg_write B path rv)"
    and reg_delete_keeps: "keeps Inv (reg_delete B path name)"
    and clipboard_write_keeps: "keeps Inv (clipboard_write B text)"
    and service_control_keeps: "keeps Inv (service_control B name action)"
    and env_set_keeps: "keeps Inv (env_set B name value)"
    and create_mutex_keeps: "keeps Inv (sync_create_mutex B name own)"
    and mem_write_keeps: "keeps Inv (mem_write B pid addr bs)"
    and input_hook_keeps: "keeps Inv (input_hook_enable B enabled)"
    and invoke_keeps: "keeps Inv (invoke_ui_element B h aid)"
    and download_keeps: "keeps Inv (download_update B url ty)"
begin

lemmas action_keeps = capture_keeps set_config_keeps ensure_visible_keeps ensure_foreground_keeps
  highlight_keeps set_property_keeps post_message_keeps send_input_keeps mouse_click_keeps key_press_keeps
  send_text_keeps control_click_keeps control_send_keeps kill_keeps reg_write_keeps reg_delete_keeps
  clipboard_write_keeps service_control_keeps env_set_keeps create_mutex_keeps mem_write_keeps
  input_hook_keeps invoke_keeps download_keeps

lemma table_keeps:
  "list_all (\<lambda>(m, f). keeps Inv (f req snap old)) (dispatch_table B eng logs)"
  unfolding dispatch_table_def list.pred_inject prod.case inspection_defs action_defs param_defs Let_def
  by (intro conjI TrueI keep_intros action_keeps query_const[THEN keeps_const]) simp

lemma handle_keeps:
  assumes "Inv s"
  shows "Inv (fst (snd (handle B eng req snap old (s, lg))))"
proof -
  let ?t = "dispatch_table B eng (get_recent_logs 100 (log_at DEBUG (clk_timestamp eng)
    (''Handling request: '' @ req_method req @ '' (id='' @ req_id req @ '')'') lg))"
  show ?thesis
  proof (cases "map_of ?t (req_method req)")
    case None
    then show ?thesis using assms by (simp add: handle_unknown)
  next
    case (Some f)
    then have "keeps Inv (f req snap old)"
      using table_keeps[of req snap old eng] map_of_SomeD[OF Some] by (auto simp: list_all_iff)
    then show ?thesis using handle_run(1)[OF Some] assms by (simp add: keepsD)
  qed
qed

end

section \<open>The fake backend\<close>

text \<open>The class invariant, and the relation between windows and their children.\<close>

definition fake_shape :: "(hwnd_u64 \<times> hwnd_u64) set \<Rightarrow> FakeBackend \<Rightarrow> bool" where
  "fake_shape R s \<longleftrightarrow> fake_inv s \<and> child_rel (fb_windows s) = R"

lemma om_set_children:
  assumes "om_wf w" "map_of w h = Some x" "fw_parent y = fw_parent x"
  shows "children_of (om_set h y w) p = children_of w p"
  using assms
proof (induction w)
  case (Cons q w)
  show ?case
  proof (cases "fst q = h")
    case True
    then show ?thesis using Cons.prems by (cases q) (auto simp: children_of_def)
  next
    case False
    then have "fst q < h" using Cons.prems by (auto simp: om_wf_Cons dest!: map_of_SomeD)
    then show ?thesis using Cons False by (cases q) (auto simp: children_of_def om_wf_Cons)
  qed
qed simp

lemma fake_shape_keeps [keep_intros]:
  "keeps (fake_shape R) (inject msg)" "keeps (fake_shape R) (reads f)"
  "keeps (fake_shape R) (fake_ensure_foreground h)" "keeps (fake_shape R) (fake_ensure_visible h v)"
proof -
  show "keeps (fake_shape R) (inject msg)" "keeps (fake_shape R) (fake_ensure_foreground h)" "keeps (fake_shape R) (reads f)"
    by (auto simp: keeps_def fake_shape_def inject_def fake_inv_def fake_ensure_foreground_def reads_def)
  show "keeps (fake_shape R) (fake_ensure_visible h v)"
    unfolding keeps_def fake_shape_def
  proof (intro allI impI)
    fix s
    assume s: "fake_inv s \<and> child_rel (fb_windows s) = R"
    then have "child_rel (fb_windows (snd (fake_ensure_visible h v s))) = child_rel (fb_windows s)"
      by (auto simp: fake_ensure_visible_def fake_inv_def child_rel_def om_set_children split: option.splits)
    then show "fake_inv (snd (fake_ensure_visible h v s)) \<and> child_rel (fb_windows (snd (fake_ensure_visible h v s))) = R"
      using s fake_inv_step(1) by simp
  qed
qed

interpretation shape: invariant_backend fake_backend "fake_shape R" for R
proof (unfold_locales)
qed (simp_all add: fake_query_defs fake_action_defs fake_capture_snapshot_def keep_intros)

end
