(* ===== verification/Server_State.thy ===== *)
theory Server_State
  imports Types "HOL-Library.Multiset"
begin

text \<open>
  \<open>daemon/src/server_state.hpp\<close> and the critical sections of \<open>daemon/src/server.cpp\<close> and
  \<open>daemon/src/tcp_server.cpp\<close>. The daemon's threads share one \<open>ServerState\<close>; everything
  they do to it happens while \<open>mu\<close> is held, so each locked block is one function on the record
  here. The locked blocks of the two servers have the same text except where a definition says
  otherwise. Times are readings of \<open>steady_clock\<close> in nanoseconds.

  Shown here: the store invariant and that every section keeps it; exactly when the eviction loop
  ends and what it removes; that an identifier never changes its snapshot. The clients reach the
  store through the locale \<open>snapshot_store\<close>, interpreted for the pinning of both servers.
\<close>

section \<open>State\<close>

record PersistentSession =
  ps_last_snap_id :: string
  ps_subscribed :: bool
  ps_last_activity :: int

record ServerState =
  snap_counter :: "64 word"
  snaps :: "(string, Snapshot) omap"
  pinned_counts :: "(string, int) omap"
  lru_order :: "string list"
  max_event_log :: "64 word"
  max_snapshots :: "64 word"
  max_sessions :: "64 word"
  max_mem_read_size :: "64 word"
  uia_depth :: int
  service_timeout_sec :: int
  max_connections :: int
  session_ttl_sec :: int
  active_connections :: int
  request_timeout_ms :: int
  poll_interval_ms :: int
  max_wait_ms :: int
  discovery_port :: int
  sessions :: "(string, PersistentSession) omap"

record ClientSession =
  cs_id :: string
  cs_authenticated :: bool
  cs_last_snap_id :: string
  cs_subscribed :: bool

text \<open>The member initialisers.\<close>

definition new_server_state :: ServerState where
  "new_server_state = \<lparr>snap_counter = 1, snaps = [], pinned_counts = [], lru_order = [],
     max_event_log = 1000, max_snapshots = 1000, max_sessions = 256,
     max_mem_read_size = 1024 * 1024, uia_depth = 5, service_timeout_sec = 30,
     max_connections = 32, session_ttl_sec = 3600, active_connections = 0,
     request_timeout_ms = 5000, poll_interval_ms = 100, max_wait_ms = 30000,
     discovery_port = 1986, sessions = []\<rparr>"

definition new_client_session :: ClientSession where
  "new_client_session = \<lparr>cs_id = [], cs_authenticated = False, cs_last_snap_id = [], cs_subscribed = False\<rparr>"

definition new_persistent_session :: PersistentSession where
  "new_persistent_session = \<lparr>ps_last_snap_id = [], ps_subscribed = False, ps_last_activity = 0\<rparr>"

section \<open>Critical sections\<close>

definition make_snap_id :: "64 word \<Rightarrow> string" where
  "make_snap_id n = ''s-'' @ to_string_nat (unat n)"

text \<open>\<open>duration_cast<seconds>\<close> truncates towards zero.\<close>

definition seconds_of :: "int \<Rightarrow> int" where
  "seconds_of ns = (if ns < 0 then - ((- ns) div 10 ^ 9) else ns div 10 ^ 9)"

definition expired :: "ServerState \<Rightarrow> int \<Rightarrow> PersistentSession \<Rightarrow> bool" where
  "expired st now ps \<longleftrightarrow> session_ttl_sec st < seconds_of (now - ps_last_activity ps)"

definition cleanup_sessions :: "int \<Rightarrow> ServerState \<Rightarrow> ServerState" where
  "cleanup_sessions now st = st\<lparr>sessions := filter (\<lambda>p. \<not> expired st now (snd p)) (sessions st)\<rparr>"

text \<open>The \<open>session_id\<close> block: a known session is recovered, an unknown one created.\<close>

definition enter_session ::
  "string \<Rightarrow> int \<Rightarrow> ClientSession \<Rightarrow> ServerState \<Rightarrow> ClientSession \<times> ServerState" where
  "enter_session sid now session st =
     (case map_of (sessions st) sid of
        Some ps \<Rightarrow> (session\<lparr>cs_id := sid, cs_last_snap_id := ps_last_snap_id ps, cs_subscribed := ps_subscribed ps\<rparr>,
          st\<lparr>sessions := om_set sid (ps\<lparr>ps_last_activity := now\<rparr>) (sessions st)\<rparr>)
      | None \<Rightarrow> (session\<lparr>cs_id := sid\<rparr>,
          st\<lparr>sessions := om_set sid (new_persistent_session\<lparr>ps_last_activity := now\<rparr>) (sessions st)\<rparr>))"

text \<open>The TCP server refuses to create a session beyond the limit.\<close>

definition tcp_enter_session ::
  "string \<Rightarrow> int \<Rightarrow> ClientSession \<Rightarrow> ServerState \<Rightarrow> (ClientSession \<times> ServerState) option" where
  "tcp_enter_session sid now session st =
     (if unat (max_sessions st) \<le> length (sessions st) \<and> map_of (sessions st) sid = None then None
      else Some (enter_session sid now session st))"

text \<open>\<open>sessions[id]\<close> followed by an assignment to some of its fields.\<close>

definition persist :: "string \<Rightarrow> (PersistentSession \<Rightarrow> PersistentSession) \<Rightarrow> ServerState \<Rightarrow> ServerState" where
  "persist sid f st = st\<lparr>sessions := om_set sid
     (f (case map_of (sessions st) sid of Some ps \<Rightarrow> ps | None \<Rightarrow> new_persistent_session)) (sessions st)\<rparr>"

text \<open>The three statements that give a snapshot the next identifier.\<close>

definition store_snapshot :: "Snapshot \<Rightarrow> ServerState \<Rightarrow> string \<times> ServerState" where
  "store_snapshot s st = (let sid = make_snap_id (snap_counter st) in
     (sid, st\<lparr>snap_counter := snap_counter st + 1, snaps := om_emplace sid s (snaps st),
              lru_order := lru_order st @ [sid]\<rparr>))"

definition subscribe_section ::
  "Snapshot \<Rightarrow> ClientSession \<Rightarrow> ServerState \<Rightarrow> string \<times> ClientSession \<times> ServerState" where
  "subscribe_section s session st =
     (let (sid, st1) = store_snapshot s st in
      (sid, session\<lparr>cs_subscribed := True, cs_last_snap_id := sid\<rparr>,
       if cs_id session = [] then st1
       else persist (cs_id session) (\<lambda>ps. ps\<lparr>ps_subscribed := True, ps_last_snap_id := sid\<rparr>) st1))"

definition unsubscribe_section :: "ClientSession \<Rightarrow> ServerState \<Rightarrow> ClientSession \<times> ServerState" where
  "unsubscribe_section session st =
     (session\<lparr>cs_subscribed := False, cs_last_snap_id := []\<rparr>,
      if cs_id session \<noteq> [] \<and> map_of (sessions st) (cs_id session) \<noteq> None
      then persist (cs_id session) (\<lambda>ps. ps\<lparr>ps_subscribed := False, ps_last_snap_id := []\<rparr>) st
      else st)"

definition terminate_section :: "ClientSession \<Rightarrow> ServerState \<Rightarrow> ClientSession \<times> ServerState" where
  "terminate_section session st =
     (if cs_id session = [] then (session, st)
      else (session\<lparr>cs_id := []\<rparr>, st\<lparr>sessions := om_erase (cs_id session) (sessions st)\<rparr>))"

text \<open>
  The eviction loop. Reading \<open>pinned_counts[oldest]\<close> creates the entry; a pinned identifier
  goes to the back of the queue, any other is dropped. The loop need not end.
\<close>

definition count_at :: "(string, int) omap \<Rightarrow> string \<Rightarrow> int" where
  "count_at m k = (case map_of m k of Some n \<Rightarrow> n | None \<Rightarrow> 0)"

partial_function (option) evict :: "ServerState \<Rightarrow> ServerState option" where
  "evict st =
     (if length (lru_order st) \<le> unat (max_snapshots st) then Some st
      else let oldest = hd (lru_order st);
               pins = om_emplace oldest 0 (pinned_counts st)
        in if 0 < count_at pins oldest
           then evict (st\<lparr>pinned_counts := pins, lru_order := tl (lru_order st) @ [oldest]\<rparr>)
           else evict (st\<lparr>lru_order := tl (lru_order st), snaps := om_erase oldest (snaps st),
                          pinned_counts := om_erase oldest pins\<rparr>))"

definition capture_section :: "Snapshot \<Rightarrow> ServerState \<Rightarrow> (string \<times> ServerState) option" where
  "capture_section s st = (let (sid, st1) = store_snapshot s st in map_option (Pair sid) (evict st1))"

text \<open>Pinning; only the pipe server moves the identifier to the back of the queue.\<close>

definition pin_section :: "string \<Rightarrow> ServerState \<Rightarrow> (Snapshot \<times> ServerState) option" where
  "pin_section sid st =
     (case map_of (snaps st) sid of None \<Rightarrow> None
      | Some s \<Rightarrow> Some (s, st\<lparr>pinned_counts := om_set sid (count_at (pinned_counts st) sid + 1) (pinned_counts st),
                            lru_order := removeAll sid (lru_order st) @ [sid]\<rparr>))"

definition tcp_pin_section :: "string \<Rightarrow> ServerState \<Rightarrow> (Snapshot \<times> ServerState) option" where
  "tcp_pin_section sid st =
     (case map_of (snaps st) sid of None \<Rightarrow> None
      | Some s \<Rightarrow> Some (s, st\<lparr>pinned_counts := om_set sid (count_at (pinned_counts st) sid + 1) (pinned_counts st)\<rparr>))"

definition unpin_section :: "string \<Rightarrow> ServerState \<Rightarrow> ServerState" where
  "unpin_section sid st =
     (if sid = [] then st
      else st\<lparr>pinned_counts := om_set sid (count_at (pinned_counts st) sid - 1) (pinned_counts st)\<rparr>)"

definition poll_section ::
  "Snapshot \<Rightarrow> ClientSession \<Rightarrow> ServerState \<Rightarrow> ClientSession \<times> ServerState" where
  "poll_section fresh session st =
     (let (sid, st1) = store_snapshot fresh st in
      (session\<lparr>cs_last_snap_id := sid\<rparr>,
       if cs_id session = [] then st1
       else persist (cs_id session) (\<lambda>ps. ps\<lparr>ps_last_snap_id := sid\<rparr>) st1))"

section \<open>The eviction loop\<close>

abbreviation is_pinned :: "ServerState \<Rightarrow> string \<Rightarrow> bool" where
  "is_pinned st i \<equiv> 0 < count_at (pinned_counts st) i"

text \<open>How many entries are too many, and how many the loop may drop.\<close>

definition excess :: "ServerState \<Rightarrow> nat" where
  "excess st = length (lru_order st) - unat (max_snapshots st)"

definition droppable :: "ServerState \<Rightarrow> string list" where
  "droppable st = filter (\<lambda>i. \<not> is_pinned st i) (lru_order st)"

lemma count_at_simps [simp]:
  "om_wf m \<Longrightarrow> count_at (om_set k n m) i = (if i = k then n else count_at m i)"
  "count_at (om_erase k m) i = (if i = k then 0 else count_at m i)"
  by (simp_all add: count_at_def omap_simps)

lemma count_at_emplace_zero [simp]: "om_wf m \<Longrightarrow> count_at (om_emplace k 0 m) i = count_at m i"
  by (auto simp: count_at_def omap_simps split: option.splits)

lemma om_erase_emplace: "om_erase k (om_emplace k v m) = om_erase k m"
proof -
  have "map_of m k = None \<Longrightarrow> om_erase k (om_set k v m) = om_erase k m"
    by (induction m) (auto simp: om_erase_def split: if_splits)
  then show ?thesis by (simp add: om_emplace_def split: option.split)
qed

lemma om_emplace_pinned: "0 < count_at m k \<Longrightarrow> om_emplace k v m = m"
  by (auto simp: om_emplace_def count_at_def split: option.splits)

text \<open>The three ways one iteration goes.\<close>

lemma evict_stop: "excess st = 0 \<Longrightarrow> evict st = Some st"
  by (subst evict.simps) (simp add: excess_def)

lemma evict_rotate:
  assumes "0 < excess st" and "lru_order st = i # r" and "is_pinned st i"
  shows "evict st = evict (st\<lparr>lru_order := r @ [i]\<rparr>)"
proof -
  have "st\<lparr>pinned_counts := pinned_counts st, lru_order := r @ [i]\<rparr> = st\<lparr>lru_order := r @ [i]\<rparr>" by simp
  then show ?thesis using assms
    by (subst evict.simps) (simp add: excess_def om_emplace_pinned Let_def)
qed

lemma evict_drop:
  assumes "0 < excess st" and "lru_order st = i # r" and "\<not> is_pinned st i" and "om_wf (pinned_counts st)"
  shows "evict st = evict (st\<lparr>lru_order := r, snaps := om_erase i (snaps st),
           pinned_counts := om_erase i (pinned_counts st)\<rparr>)"
  using assms by (subst evict.simps) (simp add: excess_def om_erase_emplace Let_def)

text \<open>
  What the loop computes: scanning from the oldest entry, it drops the first \<open>k\<close> unpinned
  identifiers and moves the pinned ones it meets to the back.
\<close>

fun scan_lru :: "(string \<Rightarrow> bool) \<Rightarrow> nat \<Rightarrow> string list \<Rightarrow> string list \<Rightarrow> string list" where
  "scan_lru p 0 q kept = q @ kept"
| "scan_lru p (Suc k) [] kept = kept"
| "scan_lru p (Suc k) (i # q) kept =
     (if p i then scan_lru p (Suc k) q (kept @ [i]) else scan_lru p k q kept)"

definition without :: "string list \<Rightarrow> (string, 'v) omap \<Rightarrow> (string, 'v) omap" where
  "without is m = filter (\<lambda>e. fst e \<notin> set is) m"

lemma without_simps: "without [] m = m" "without (i # is) m = without is (om_erase i m)"
  by (auto simp: without_def om_erase_def intro: filter_cong)

lemma om_wf_without [simp]: "om_wf m \<Longrightarrow> om_wf (without is m)"
  by (induction m) (auto simp: without_def om_wf_Cons)

lemma map_of_without: "map_of (without is m) i = (if i \<in> set is then None else map_of m i)"
  by (induction m) (auto simp: without_def)

lemma count_at_without: "count_at (without is m) i = (if i \<in> set is then 0 else count_at m i)"
  by (simp add: count_at_def map_of_without)

lemma evict_scan:
  assumes "om_wf (pinned_counts st)" and "lru_order st = q @ kept"
    and "k = excess st" and "k \<le> length (filter (\<lambda>i. \<not> is_pinned st i) q)"
  shows "evict st = Some (st\<lparr>lru_order := scan_lru (is_pinned st) k q kept,
    snaps := without (take k (filter (\<lambda>i. \<not> is_pinned st i) q)) (snaps st),
    pinned_counts := without (take k (filter (\<lambda>i. \<not> is_pinned st i) q)) (pinned_counts st)\<rparr>)"
  using assms
proof (induction q arbitrary: st kept k)
  case Nil
  then show ?case by (simp add: evict_stop without_simps)
next
  case (Cons i q)
  show ?case
  proof (cases k)
    case 0
    then show ?thesis using Cons.prems by (simp add: evict_stop without_simps)
  next
    case (Suc j)
    show ?thesis
    proof (cases "is_pinned st i")
      case True
      let ?st = "st\<lparr>lru_order := q @ (kept @ [i])\<rparr>"
      have "evict st = evict ?st"
        using Cons.prems Suc True evict_rotate[of st i "q @ kept"] by simp
      moreover have "excess ?st = k" using Cons.prems by (simp add: excess_def)
      moreover have "scan_lru (is_pinned st) k (i # q) kept = scan_lru (is_pinned st) k q (kept @ [i])"
        using Suc True by simp
      ultimately show ?thesis using Cons.IH[of ?st "kept @ [i]" k] Cons.prems True by simp
    next
      case False
      let ?st = "st\<lparr>lru_order := q @ kept, snaps := om_erase i (snaps st),
        pinned_counts := om_erase i (pinned_counts st)\<rparr>"
      have ev: "evict st = evict ?st" using Cons.prems Suc False by (subst evict_drop) simp_all
      have ex: "excess ?st = j" using Cons.prems Suc by (simp add: excess_def)
      have pin: "is_pinned ?st = is_pinned st" using False by (auto simp: fun_eq_iff)
      have wf: "om_wf (pinned_counts ?st)" using Cons.prems by (simp add: omap_simps)
      have fl: "filter (\<lambda>i. \<not> is_pinned ?st i) q = filter (\<lambda>i. \<not> is_pinned st i) q"
        using False by (intro filter_cong) auto
      have le: "j \<le> length (filter (\<lambda>i. \<not> is_pinned ?st i) q)"
        unfolding fl using Cons.prems Suc False by simp
      show ?thesis
        unfolding ev using Cons.IH[OF wf _ ex[symmetric] le, of kept] Suc False
        unfolding fl pin by (simp add: without_simps)
    qed
  qed
qed

lemma evict_result:
  assumes "om_wf (pinned_counts st)" and "excess st \<le> length (droppable st)"
  shows "evict st = Some (st\<lparr>lru_order := scan_lru (is_pinned st) (excess st) (lru_order st) [],
    snaps := without (take (excess st) (droppable st)) (snaps st),
    pinned_counts := without (take (excess st) (droppable st)) (pinned_counts st)\<rparr>)"
  using evict_scan[of st "lru_order st" "[]"] assms by (simp add: droppable_def)

lemma evict_returned:
  assumes "evict st = Some st'"
  shows "om_wf (pinned_counts st) \<longrightarrow> excess st \<le> length (droppable st)"
proof (rule evict.raw_induct[where P = "\<lambda>st _. om_wf (pinned_counts st) \<longrightarrow> excess st \<le> length (droppable st)",
      OF _ assms])
  fix ev st st'
  assume IH: "\<And>x y. ev x = Some y \<Longrightarrow> om_wf (pinned_counts x) \<longrightarrow> excess x \<le> length (droppable x)"
    and body: "(if length (lru_order st) \<le> unat (max_snapshots st) then Some st
      else let oldest = hd (lru_order st); pins = om_emplace oldest 0 (pinned_counts st)
        in if 0 < count_at pins oldest
           then ev (st\<lparr>pinned_counts := pins, lru_order := tl (lru_order st) @ [oldest]\<rparr>)
           else ev (st\<lparr>lru_order := tl (lru_order st), snaps := om_erase oldest (snaps st),
                       pinned_counts := om_erase oldest pins\<rparr>)) = Some st'"
  show "om_wf (pinned_counts st) \<longrightarrow> excess st \<le> length (droppable st)"
  proof (cases "excess st = 0")
    case False
    then obtain i r where lru: "lru_order st = i # r"
      by (cases "lru_order st") (auto simp: excess_def)
    have big: "\<not> length (lru_order st) \<le> unat (max_snapshots st)"
      using False by (simp add: excess_def)
    show ?thesis
    proof (cases "is_pinned st i")
      case True
      let ?st = "st\<lparr>pinned_counts := om_emplace i 0 (pinned_counts st), lru_order := r @ [i]\<rparr>"
      have "ev ?st = Some st'" using body big lru True by (simp add: om_emplace_pinned Let_def)
      from IH[OF this] show ?thesis
        using lru True by (simp add: om_emplace_pinned excess_def droppable_def)
    next
      case nopin: False
      let ?st = "st\<lparr>lru_order := r, snaps := om_erase i (snaps st),
        pinned_counts := om_erase i (om_emplace i 0 (pinned_counts st))\<rparr>"
      have drop: "droppable ?st = filter (\<lambda>j. \<not> is_pinned st j) r"
        unfolding droppable_def using nopin by (auto simp: om_erase_emplace intro: filter_cong)
      have "om_wf (pinned_counts st) \<Longrightarrow> ev ?st = Some st'"
        using body big lru nopin by (simp add: Let_def)
      from IH[OF this] show ?thesis
        using lru nopin drop by (auto simp: om_erase_emplace omap_simps excess_def droppable_def)
    qed
  qed simp
qed

lemma evict_iff:
  assumes "om_wf (pinned_counts st)"
  shows "evict st \<noteq> None \<longleftrightarrow> length (filter (is_pinned st) (lru_order st)) \<le> unat (max_snapshots st)"
proof -
  have "evict st \<noteq> None \<longleftrightarrow> excess st \<le> length (droppable st)"
    using evict_returned[of st] evict_result[of st] assms by auto
  also have "\<dots> \<longleftrightarrow> length (filter (is_pinned st) (lru_order st)) \<le> unat (max_snapshots st)"
    using sum_length_filter_compl[of "is_pinned st" "lru_order st"]
    by (auto simp: excess_def droppable_def)
  finally show ?thesis .
qed

lemma evict_SomeE:
  assumes "evict st = Some st'" and "om_wf (pinned_counts st)"
  obtains "excess st \<le> length (droppable st)"
    and "st' = st\<lparr>lru_order := scan_lru (is_pinned st) (excess st) (lru_order st) [],
      snaps := without (take (excess st) (droppable st)) (snaps st),
      pinned_counts := without (take (excess st) (droppable st)) (pinned_counts st)\<rparr>"
  using evict_returned[OF assms(1)] evict_result[OF assms(2)] assms by auto

lemma scan_lru_perm:
  "k \<le> length (filter (\<lambda>i. \<not> p i) q) \<Longrightarrow>
   mset (scan_lru p k q kept @ take k (filter (\<lambda>i. \<not> p i) q)) = mset (q @ kept)"
  by (induction p k q kept rule: scan_lru.induct) auto

lemma evict_lru:
  assumes "evict st = Some st'" and "om_wf (pinned_counts st)" and "distinct (lru_order st)"
  shows "distinct (lru_order st')"
    and "set (lru_order st') = set (lru_order st) - set (take (excess st) (droppable st))"
    and "length (lru_order st') = min (length (lru_order st)) (unat (max_snapshots st))"
proof -
  let ?d = "take (excess st) (droppable st)"
  from assms(1,2) obtain le: "excess st \<le> length (droppable st)"
    and st': "lru_order st' = scan_lru (is_pinned st) (excess st) (lru_order st) []"
    by (elim evict_SomeE) auto
  have perm: "mset (lru_order st' @ ?d) = mset (lru_order st)"
    using scan_lru_perm[of "excess st" "is_pinned st" "lru_order st" "[]"] le
    by (simp add: st' droppable_def)
  then have d: "distinct (lru_order st' @ ?d)" using assms(3) by (metis mset_eq_imp_distinct_iff)
  from perm have s: "set (lru_order st') \<union> set ?d = set (lru_order st)"
    by (metis mset_eq_setD set_append)
  from perm have l: "length (lru_order st') + length ?d = length (lru_order st)"
    by (metis length_append mset_eq_length)
  show "distinct (lru_order st')" using d by simp
  show "set (lru_order st') = set (lru_order st) - set ?d" using s d by auto
  show "length (lru_order st') = min (length (lru_order st)) (unat (max_snapshots st))"
    using l le by (auto simp: excess_def min_def split: if_splits)
qed

section \<open>The store invariant\<close>

definition issued :: "ServerState \<Rightarrow> string \<Rightarrow> bool" where
  "issued st i \<longleftrightarrow> (\<exists>n < snap_counter st. i = make_snap_id n)"

definition store_wf :: "ServerState \<Rightarrow> bool" where
  "store_wf st \<longleftrightarrow> om_wf (snaps st) \<and> om_wf (pinned_counts st) \<and> om_wf (sessions st) \<and>
     distinct (lru_order st) \<and> set (lru_order st) = fst ` set (snaps st) \<and>
     (\<forall>i \<in> set (lru_order st). issued st i)"

text \<open>The identifier counter has not reached the end of its range.\<close>

definition roomy :: "ServerState \<Rightarrow> bool" where
  "roomy st \<longleftrightarrow> snap_counter st < - 1"

lemma make_snap_id_inject [simp]: "make_snap_id m = make_snap_id n \<longleftrightarrow> m = n"
  using dec_str_inject[of "unat m" "unat n"] by (auto simp: make_snap_id_def to_string_nat_def word_unat_eq_iff)

lemma make_snap_id_nonempty [simp]: "make_snap_id n \<noteq> []"
  by (simp add: make_snap_id_def)

lemma not_issued_next: "\<not> issued st (make_snap_id (snap_counter st))"
  by (auto simp: issued_def)

lemma roomy_next:
  assumes "roomy st"
  shows "n < snap_counter st + 1 \<longleftrightarrow> n = snap_counter st \<or> n < snap_counter st"
proof -
  have "snap_counter st + 1 \<noteq> 0" using assms by (auto simp: roomy_def eq_neg_iff_add_eq_0[symmetric])
  then have "unat (snap_counter st + 1) = Suc (unat (snap_counter st))"
    using unatSuc[of "snap_counter st"] by (simp add: add.commute)
  then show ?thesis by (auto simp: word_less_nat_alt less_Suc_eq word_unat_eq_iff)
qed

lemma issued_store:
  assumes "roomy st" and "store_snapshot s st = (i, st')"
  shows "issued st' j \<longleftrightarrow> j = i \<or> issued st j"
  using assms by (auto simp: issued_def store_snapshot_def Let_def roomy_next)

lemma stored_issued: "store_wf st \<Longrightarrow> map_of (snaps st) i = Some s \<Longrightarrow> issued st i"
  by (force simp: store_wf_def dest: map_of_SomeD)

lemma store_snapshot_law:
  assumes "store_wf st" and "roomy st" and "store_snapshot s st = (i, st')"
  shows "\<not> issued st i" and "store_wf st'" and "map_of (snaps st') = (map_of (snaps st))(i \<mapsto> s)"
proof -
  have i: "i = make_snap_id (snap_counter st)"
    and st': "st' = st\<lparr>snap_counter := snap_counter st + 1, snaps := om_emplace i s (snaps st),
      lru_order := lru_order st @ [i]\<rparr>"
    using assms(3) by (auto simp: store_snapshot_def Let_def)
  show new: "\<not> issued st i" by (simp add: i not_issued_next)
  then have none: "map_of (snaps st) i = None"
    using stored_issued[OF assms(1)] by fastforce
  then show "map_of (snaps st') = (map_of (snaps st))(i \<mapsto> s)"
    using assms(1) by (simp add: st' store_wf_def omap_simps)
  have "i \<notin> set (lru_order st)" using new assms(1) by (auto simp: store_wf_def)
  then show "store_wf st'"
    using assms(1) none issued_store[OF assms(2,3)]
    by (auto simp: store_wf_def st' omap_simps om_emplace_def set_om_set_keys)
qed

lemma evict_law:
  assumes "store_wf st" and "evict st = Some st'"
  shows "store_wf st'" and "map_of (snaps st') \<subseteq>\<^sub>m map_of (snaps st)" and "issued st' = issued st"
proof -
  let ?d = "take (excess st) (droppable st)"
  have wf: "om_wf (pinned_counts st)" "distinct (lru_order st)" using assms(1) by (simp_all add: store_wf_def)
  obtain st': "st' = st\<lparr>lru_order := scan_lru (is_pinned st) (excess st) (lru_order st) [],
      snaps := without ?d (snaps st), pinned_counts := without ?d (pinned_counts st)\<rparr>"
    using evict_SomeE[OF assms(2) wf(1)] by metis
  show iss: "issued st' = issued st" by (simp add: st' issued_def fun_eq_iff)
  show "map_of (snaps st') \<subseteq>\<^sub>m map_of (snaps st)"
    by (auto simp: st' map_le_def map_of_without dom_def split: if_splits)
  have "fst ` set (snaps st') = fst ` set (snaps st) - set ?d"
    by (auto simp: st' without_def)
  then show "store_wf st'"
    using assms(1) evict_lru[OF assms(2) wf] iss by (simp add: store_wf_def) (simp add: st')
qed

lemma stored_in_queue: "store_wf st \<Longrightarrow> map_of (snaps st) i = Some s \<Longrightarrow> i \<in> set (lru_order st)"
  by (auto simp: store_wf_def dest: map_of_SomeD intro: rev_image_eqI)

lemma pin_law:
  assumes "store_wf st" and "pin_section i st = Some (s, st')"
  shows "map_of (snaps st) i = Some s" and "store_wf st'" and "snaps st' = snaps st" and "issued st' = issued st"
proof -
  from assms(2) show s: "map_of (snaps st) i = Some s" by (auto simp: pin_section_def split: option.splits)
  then have st': "st' = st\<lparr>pinned_counts := om_set i (count_at (pinned_counts st) i + 1) (pinned_counts st),
      lru_order := removeAll i (lru_order st) @ [i]\<rparr>"
    using assms(2) by (simp add: pin_section_def)
  show "snaps st' = snaps st" and iss: "issued st' = issued st" by (simp_all add: st' issued_def fun_eq_iff)
  have "set (lru_order st') = set (lru_order st)" using stored_in_queue[OF assms(1) s] by (auto simp: st')
  then show "store_wf st'"
    using assms(1) iss by (simp add: store_wf_def) (simp add: st' omap_simps distinct_removeAll)
qed

lemma tcp_pin_law:
  assumes "store_wf st" and "tcp_pin_section i st = Some (s, st')"
  shows "map_of (snaps st) i = Some s" and "store_wf st'" and "snaps st' = snaps st" and "issued st' = issued st"
proof -
  from assms(2) show s: "map_of (snaps st) i = Some s" by (auto simp: tcp_pin_section_def split: option.splits)
  then have st': "st' = st\<lparr>pinned_counts := om_set i (count_at (pinned_counts st) i + 1) (pinned_counts st)\<rparr>"
    using assms(2) by (simp add: tcp_pin_section_def)
  show "snaps st' = snaps st" and iss: "issued st' = issued st" by (simp_all add: st' issued_def fun_eq_iff)
  then show "store_wf st'" using assms(1) by (simp add: store_wf_def) (simp add: st' omap_simps)
qed

lemma unpin_law:
  assumes "store_wf st"
  shows "store_wf (unpin_section i st)" and "snaps (unpin_section i st) = snaps st"
    and "issued (unpin_section i st) = issued st"
  using assms by (auto simp: unpin_section_def store_wf_def issued_def omap_simps fun_eq_iff)

section \<open>The interface of the store\<close>

text \<open>
  A later state of the store: still well formed, identifiers stay issued, and an identifier that
  was issued before names the snapshot it named then, or none.
\<close>

definition evolves ::
  "('t \<Rightarrow> bool) \<Rightarrow> ('t \<Rightarrow> string \<Rightarrow> 'v option) \<Rightarrow> ('t \<Rightarrow> string \<Rightarrow> bool) \<Rightarrow> 't \<Rightarrow> 't \<Rightarrow> bool" where
  "evolves good look known t t' \<longleftrightarrow> good t' \<and>
     (\<forall>i. known t i \<longrightarrow> known t' i \<and> (\<forall>s. look t' i = Some s \<longrightarrow> look t i = Some s))"

locale snapshot_store =
  fixes good :: "'t \<Rightarrow> bool"
    and look :: "'t \<Rightarrow> string \<Rightarrow> 'v option"
    and known :: "'t \<Rightarrow> string \<Rightarrow> bool"
    and room :: "'t \<Rightarrow> bool"
    and put :: "'v \<Rightarrow> 't \<Rightarrow> string \<times> 't"
    and pin :: "string \<Rightarrow> 't \<Rightarrow> ('v \<times> 't) option"
    and unpin :: "string \<Rightarrow> 't \<Rightarrow> 't"
    and trim :: "'t \<Rightarrow> 't option"
  assumes find_known: "good t \<Longrightarrow> look t i = Some s \<Longrightarrow> known t i"
    and put_fresh: "good t \<Longrightarrow> room t \<Longrightarrow> put s t = (i, t') \<Longrightarrow> \<not> known t i"
    and put_wf: "good t \<Longrightarrow> room t \<Longrightarrow> put s t = (i, t') \<Longrightarrow> good t'"
    and put_find: "good t \<Longrightarrow> room t \<Longrightarrow> put s t = (i, t') \<Longrightarrow> look t' = (look t)(i \<mapsto> s)"
    and put_known: "room t \<Longrightarrow> put s t = (i, t') \<Longrightarrow> known t' j \<longleftrightarrow> j = i \<or> known t j"
    and pin_wf: "good t \<Longrightarrow> pin i t = Some (s, t') \<Longrightarrow> good t'"
    and pin_find: "good t \<Longrightarrow> pin i t = Some (s, t') \<Longrightarrow> look t i = Some s \<and> look t' = look t"
    and pin_known: "good t \<Longrightarrow> pin i t = Some (s, t') \<Longrightarrow> known t' = known t"
    and unpin_wf: "good t \<Longrightarrow> good (unpin i t)"
    and unpin_find: "good t \<Longrightarrow> look (unpin i t) = look t"
    and unpin_known: "good t \<Longrightarrow> known (unpin i t) = known t"
    and trim_wf: "good t \<Longrightarrow> trim t = Some t' \<Longrightarrow> good t'"
    and trim_find: "good t \<Longrightarrow> trim t = Some t' \<Longrightarrow> look t' \<subseteq>\<^sub>m look t"
    and trim_known: "good t \<Longrightarrow> trim t = Some t' \<Longrightarrow> known t' = known t"
begin

lemma evolves_refl: "good t \<Longrightarrow> evolves good look known t t"
  by (simp add: evolves_def)

lemma evolves_trans:
  "evolves good look known t t' \<Longrightarrow> evolves good look known t' t'' \<Longrightarrow> evolves good look known t t''"
  by (auto simp: evolves_def)

lemma put_evolves:
  "good t \<Longrightarrow> room t \<Longrightarrow> put s t = (i, t') \<Longrightarrow> evolves good look known t t'"
  using put_fresh put_wf put_find put_known by (auto simp: evolves_def)

lemma pin_evolves: "good t \<Longrightarrow> pin i t = Some (s, t') \<Longrightarrow> evolves good look known t t'"
  by (simp add: evolves_def pin_wf pin_find pin_known)

lemma unpin_evolves: "good t \<Longrightarrow> evolves good look known t (unpin i t)"
  by (simp add: evolves_def unpin_wf unpin_find unpin_known)

lemma trim_evolves:
  assumes "good t" "trim t = Some t'"
  shows "evolves good look known t t'"
  using trim_wf[OF assms] trim_known[OF assms] trim_find[OF assms]
  by (auto simp: evolves_def dest: map_le_implies_dom_le) (metis domI map_le_def)

text \<open>Pinning reads what was put, as long as nothing has dropped it.\<close>

lemma pin_reads_put:
  assumes "good t" "room t" "put s t = (i, t')" "evolves good look known t' t''" "pin i t'' = Some (s', u)"
  shows "s' = s"
proof -
  have "known t' i" using put_known[OF assms(2,3)] by simp
  moreover have "look t'' i = Some s'" using pin_find assms(4,5) by (auto simp: evolves_def)
  ultimately have "look t' i = Some s'" using assms(4) by (simp add: evolves_def)
  then show ?thesis using put_find[OF assms(1-3)] by simp
qed

end

lemmas store_laws = stored_issued store_snapshot_law issued_store unpin_law evict_law

abbreviation find_snap :: "ServerState \<Rightarrow> string \<Rightarrow> Snapshot option" where
  "find_snap st \<equiv> map_of (snaps st)"

lemma unpin_find: "store_wf st \<Longrightarrow> find_snap (unpin_section i st) = find_snap st"
  by (simp add: unpin_law)

interpretation pipe_store: snapshot_store store_wf find_snap issued roomy store_snapshot pin_section
  unpin_section evict
proof unfold_locales
  fix st i s st'
  assume "store_wf st" "pin_section i st = Some (s, st')"
  then show "find_snap st i = Some s \<and> find_snap st' = find_snap st" by (simp add: pin_law)
qed (erule store_laws pin_law unpin_find; assumption)+

interpretation tcp_store: snapshot_store store_wf find_snap issued roomy store_snapshot tcp_pin_section
  unpin_section evict
proof unfold_locales
  fix st i s st'
  assume "store_wf st" "tcp_pin_section i st = Some (s, st')"
  then show "find_snap st i = Some s \<and> find_snap st' = find_snap st" by (simp add: tcp_pin_law)
qed (erule store_laws tcp_pin_law unpin_find; assumption)+

section \<open>What the sections keep\<close>

abbreviation later :: "ServerState \<Rightarrow> ServerState \<Rightarrow> bool" where
  "later \<equiv> evolves store_wf find_snap issued"

text \<open>A section that writes no field of the snapshot store.\<close>

definition same_store :: "ServerState \<Rightarrow> ServerState \<Rightarrow> bool" where
  "same_store st st' \<longleftrightarrow> snap_counter st' = snap_counter st \<and> snaps st' = snaps st \<and>
     pinned_counts st' = pinned_counts st \<and> lru_order st' = lru_order st"

lemma same_store_later: "store_wf st \<Longrightarrow> same_store st st' \<Longrightarrow> om_wf (sessions st') \<Longrightarrow> later st st'"
  by (simp add: same_store_def evolves_def store_wf_def issued_def)

lemma om_wf_filter: "om_wf m \<Longrightarrow> om_wf (filter P m)"
  by (induction m) (auto simp: om_wf_Cons)

lemma cleanup_later: "store_wf st \<Longrightarrow> later st (cleanup_sessions now st)"
  by (rule same_store_later)
    (auto simp: cleanup_sessions_def same_store_def store_wf_def intro: om_wf_filter)

lemma enter_session_later: "store_wf st \<Longrightarrow> later st (snd (enter_session sid now session st))"
  by (rule same_store_later)
    (auto simp: enter_session_def same_store_def store_wf_def omap_simps split: option.splits)

lemma persist_later: "store_wf st \<Longrightarrow> later st (persist sid f st)"
  by (rule same_store_later) (auto simp: persist_def same_store_def store_wf_def omap_simps)

lemma terminate_later: "store_wf st \<Longrightarrow> later st (snd (terminate_section session st))"
  by (rule same_store_later)
    (auto simp: terminate_section_def same_store_def store_wf_def omap_simps)

lemma unsubscribe_later: "store_wf st \<Longrightarrow> later st (snd (unsubscribe_section session st))"
  by (auto simp: unsubscribe_section_def intro: persist_later pipe_store.evolves_refl)

lemma later_wf: "later st st' \<Longrightarrow> store_wf st'"
  by (simp add: evolves_def)

lemma subscribe_later:
  assumes "store_wf st" "roomy st"
  shows "later st (snd (snd (subscribe_section s session st)))"
proof (cases "store_snapshot s st")
  case (Pair i st1)
  with assms have "later st st1" by (rule pipe_store.put_evolves)
  then show ?thesis using Pair
    by (auto simp: subscribe_section_def
        intro: pipe_store.evolves_trans persist_later dest: later_wf)
qed

lemma poll_later:
  assumes "store_wf st" "roomy st"
  shows "later st (snd (poll_section s session st))"
proof (cases "store_snapshot s st")
  case (Pair i st1)
  with assms have "later st st1" by (rule pipe_store.put_evolves)
  then show ?thesis using Pair
    by (auto simp: poll_section_def intro: pipe_store.evolves_trans persist_later dest: later_wf)
qed

lemma capture_later:
  assumes "store_wf st" "roomy st" "capture_section s st = Some (i, st')"
  shows "later st st'"
proof (cases "store_snapshot s st")
  case (Pair j st1)
  with assms have "later st st1" by (intro pipe_store.put_evolves)
  moreover have "evict st1 = Some st'" using assms(3) Pair by (auto simp: capture_section_def)
  ultimately show ?thesis by (blast intro: pipe_store.evolves_trans pipe_store.trim_evolves dest: later_wf)
qed

section \<open>Properties of the store\<close>

definition two_snaps :: "int \<Rightarrow> 64 word \<Rightarrow> ServerState" where
  "two_snaps pins limit = new_server_state\<lparr>snap_counter := 3,
     snaps := [(make_snap_id 1, \<lparr>top = [7]\<rparr>), (make_snap_id 2, \<lparr>top = [8]\<rparr>)],
     pinned_counts := [(make_snap_id 1, pins)], lru_order := [make_snap_id 1, make_snap_id 2],
     max_snapshots := limit\<rparr>"

lemma two_snaps_ids: "make_snap_id 1 = ''s-1''" "make_snap_id 2 = ''s-2''" "make_snap_id 3 = ''s-3''"
  by code_simp+

lemma two_snaps_sel:
  "snap_counter (two_snaps pins limit) = 3" "lru_order (two_snaps pins limit) = [''s-1'', ''s-2'']"
  "snaps (two_snaps pins limit) = [(''s-1'', \<lparr>top = [7]\<rparr>), (''s-2'', \<lparr>top = [8]\<rparr>)]"
  "pinned_counts (two_snaps pins limit) = [(''s-1'', pins)]" "sessions (two_snaps pins limit) = []"
  "max_snapshots (two_snaps pins limit) = limit"
  by (simp_all add: two_snaps_def new_server_state_def two_snaps_ids)

lemma two_snaps_wf: "store_wf (two_snaps pins limit)" "roomy (two_snaps pins limit)"
proof -
  have "issued (two_snaps pins limit) ''s-1''" "issued (two_snaps pins limit) ''s-2''"
    unfolding issued_def two_snaps_sel using two_snaps_ids(1,2)[symmetric]
    by (intro exI[of _ 1] exI[of _ 2], simp)+
  then show "store_wf (two_snaps pins limit)"
    by (simp add: store_wf_def two_snaps_sel om_wf_def insert_commute)
  show "roomy (two_snaps pins limit)" by (simp add: roomy_def two_snaps_sel)
qed

text \<open>The loop that evicts snapshots ends exactly when the pinned snapshots fit into the limit.\<close>

theorem eviction_ends_iff:
  assumes "store_wf st"
  shows "evict st \<noteq> None \<longleftrightarrow> length (filter (is_pinned st) (lru_order st)) \<le> unat (max_snapshots st)"
  by (rule evict_iff) (use assms in \<open>simp add: store_wf_def\<close>)

theorem eviction_ends_iff_witness:
  "store_wf (two_snaps 1 0) \<and> evict (two_snaps 1 0) = None \<and> evict (two_snaps 1 1) \<noteq> None"
  using eviction_ends_iff[OF two_snaps_wf(1), of 1 0] eviction_ends_iff[OF two_snaps_wf(1), of 1 1]
  by (simp add: two_snaps_wf) (simp add: two_snaps_sel count_at_def)

text \<open>C18: what eviction does. It leaves as many snapshots as the limit allows, or all of them if there
  were fewer; it drops the least recently used unpinned ones and never a pinned one; what it keeps
  is unchanged.\<close>

theorem eviction_result:
  assumes "store_wf st" and "evict st = Some st'"
  shows "length (snaps st') = min (length (snaps st)) (unat (max_snapshots st)) \<and>
    (\<forall>i. find_snap st' i = (if i \<in> set (take (excess st) (droppable st)) then None else find_snap st i)) \<and>
    (\<forall>i. is_pinned st i \<longrightarrow> find_snap st' i = find_snap st i \<and> is_pinned st' i)"
proof -
  have wf: "om_wf (pinned_counts st)" "distinct (lru_order st)" using assms(1) by (simp_all add: store_wf_def)
  have len: "length (snaps t) = length (lru_order t)" if "store_wf t" for t
    using that by (metis om_wf_distinct store_wf_def distinct_card length_map set_map)
  have "length (snaps st') = min (length (snaps st)) (unat (max_snapshots st))"
    using evict_lru(3)[OF assms(2) wf] by (simp add: len assms evict_law(1)[OF assms])
  moreover obtain "snaps st' = without (take (excess st) (droppable st)) (snaps st)"
      "pinned_counts st' = without (take (excess st) (droppable st)) (pinned_counts st)"
    using evict_SomeE[OF assms(2) wf(1)] by (metis (no_types, lifting) ServerState.select_convs(2,3)
        ServerState.surjective ServerState.update_convs(2-4))
  moreover have "is_pinned st i \<Longrightarrow> i \<notin> set (take (excess st) (droppable st))" for i
    by (auto simp: droppable_def dest: in_set_takeD)
  ultimately show ?thesis by (simp add: map_of_without count_at_without)
qed

theorem eviction_result_witness:
  "\<exists>st'. evict (two_snaps 1 1) = Some st' \<and> length (snaps st') = 1 \<and> find_snap st' ''s-1'' = Some \<lparr>top = [7]\<rparr>"
proof -
  have p: "is_pinned (two_snaps 1 1) ''s-1''" "length (snaps (two_snaps 1 1)) = 2"
    "max_snapshots (two_snaps 1 1) = 1" "find_snap (two_snaps 1 1) ''s-1'' = Some \<lparr>top = [7]\<rparr>"
    by (simp_all add: two_snaps_sel count_at_def)
  have "length (filter (is_pinned (two_snaps 1 1)) (lru_order (two_snaps 1 1))) \<le> 1"
    by (simp add: two_snaps_sel count_at_def)
  then obtain st' where "evict (two_snaps 1 1) = Some st'"
    using evict_iff[of "two_snaps 1 1"] two_snaps_wf(1)[of 1 1] p by (auto simp: store_wf_def)
  with eviction_result[OF two_snaps_wf(1) this] p show ?thesis by auto
qed

lemma capture_run:
  assumes "capture_section s st = Some (i, st')"
  obtains st1 where "store_snapshot s st = (i, st1)" and "evict st1 = Some st'"
  using assms by (auto simp: capture_section_def split: prod.splits)

lemma fresh_capture:
  assumes "store_wf st" and "roomy st" and "capture_section s st = Some (i, st')"
    and "\<not> is_pinned st i"
  shows "find_snap st' i = (if length (filter (is_pinned st) (lru_order st)) < unat (max_snapshots st)
    then Some s else None)"
proof -
  from assms(3) obtain st1 where put: "store_snapshot s st = (i, st1)" and ev: "evict st1 = Some st'"
    by (rule capture_run)
  note law = store_snapshot_law[OF assms(1,2) put]
  have st1: "lru_order st1 = lru_order st @ [i]" "pinned_counts st1 = pinned_counts st"
    "max_snapshots st1 = max_snapshots st"
    using put by (auto simp: store_snapshot_def Let_def)
  have wf1: "om_wf (pinned_counts st1)" using law(2) by (simp add: store_wf_def)
  have le: "excess st1 \<le> length (droppable st1)" using evict_returned[OF ev] wf1 by simp
  have dr: "droppable st1 = droppable st @ [i]" using assms(4) by (simp add: droppable_def st1)
  have "i \<notin> set (droppable st)" using law(1) assms(1) by (auto simp: droppable_def store_wf_def)
  then have "i \<in> set (take (excess st1) (droppable st1)) \<longleftrightarrow> length (droppable st) < excess st1"
    using le by (auto simp: dr take_Cons' dest: in_set_takeD)
  moreover have "snaps st' = without (take (excess st1) (droppable st1)) (snaps st1)"
    using evict_SomeE[OF ev wf1] by (metis (no_types, lifting) ServerState.select_convs(2)
        ServerState.surjective ServerState.update_convs(2-4))
  moreover have "length (droppable st) < excess st1 \<longleftrightarrow>
      \<not> length (filter (is_pinned st) (lru_order st)) < unat (max_snapshots st)"
    using sum_length_filter_compl[of "is_pinned st" "lru_order st"]
    by (auto simp: excess_def droppable_def st1)
  ultimately show ?thesis by (simp add: map_of_without law(3))
qed

text \<open>Whether the identifier that \<open>snapshot.capture\<close> returns can be used. The new snapshot
  is itself evicted before the call returns unless fewer snapshots are pinned than the limit.\<close>

theorem fresh_capture_available:
  assumes "store_wf st" and "roomy st" and "capture_section s st = Some (i, st')"
    and "\<not> is_pinned st i"
  shows "find_snap st' i = (if length (filter (is_pinned st) (lru_order st)) < unat (max_snapshots st)
    then Some s else None)"
  by (rule fresh_capture[OF assms])

theorem fresh_capture_available_witness:
  "\<exists>st'. capture_section \<lparr>top = []\<rparr> (two_snaps 1 1) = Some (''s-3'', st') \<and> find_snap st' ''s-3'' = None"
proof -
  let ?st = "two_snaps 1 1"
  have id: "make_snap_id (snap_counter ?st) = ''s-3''" by (simp add: two_snaps_sel two_snaps_ids)
  obtain st1 where put: "store_snapshot \<lparr>top = []\<rparr> ?st = (''s-3'', st1)"
    using id by (simp add: store_snapshot_def Let_def)
  have "length (filter (is_pinned st1) (lru_order st1)) \<le> unat (max_snapshots st1)"
    using put by (auto simp: store_snapshot_def Let_def two_snaps_sel count_at_def)
  moreover have "om_wf (pinned_counts st1)"
    using store_snapshot_law(2)[OF two_snaps_wf put] by (simp add: store_wf_def)
  ultimately obtain st' where "evict st1 = Some st'" using evict_iff by fast
  then have cap: "capture_section \<lparr>top = []\<rparr> ?st = Some (''s-3'', st')"
    using put by (simp add: capture_section_def)
  show ?thesis using fresh_capture_available[OF two_snaps_wf cap] cap
    by (simp add: two_snaps_sel count_at_def)
qed

end
