(* ===== verification/Server.thy ===== *)
theory Server
  imports Server_State Core
begin

text \<open>
  The request loop of \<open>daemon/src/server.cpp\<close>: \<open>handle_client\<close>, one thread per pipe client.
  A thread works on its own variables (\<open>Conn\<close>) and on what all threads share (\<open>World\<close>:
  the server state, the backend and the logger). Between two locked blocks or backend calls other
  threads may run, so the body of the loop is cut there: a \<open>phase\<close> names the point the thread
  has reached and what it still holds in local variables, and one function performs each piece.
  \<open>pipe_step\<close> chains them; \<open>drive\<close> runs a thread alone to the end of its message.

  A piece that never returns (undefined behaviour, or the eviction loop on too many pinned
  snapshots) leads to \<open>Hung\<close>. Readings of the clocks and whether the watchdog fired are
  inputs. The watchdog's future is joined before the response is sent, so a request that timed out
  has still run to its end.
\<close>

section \<open>Threads and what they share\<close>

record 's World =
  w_st :: ServerState
  w_backend :: 's
  w_log :: Logger

record Conn =
  cn_session :: ClientSession
  cn_pinned_sid :: string
  cn_resp :: CoreResponse
  cn_canonical :: bool
  cn_sent :: "string list"

record ServerConfig =
  cfg_read_only :: bool
  cfg_require_auth :: bool
  cfg_admin_logs :: bool
  cfg_auth_keys :: string

record Tick =
  tk_now :: int
  tk_timestamp :: string
  tk_elapsed :: int
  tk_duration :: int
  tk_timeout :: bool

datatype phase =
    Reading
  | Entering CoreRequest
  | Routing CoreRequest
  | Subscribing Snapshot
  | Guarding CoreRequest
  | Storing Snapshot
  | Pinning CoreRequest
  | Choosing CoreRequest Snapshot
  | Running CoreRequest Snapshot "Snapshot option"
  | Refreshing
  | Committing Snapshot
  | Sending
  | Unpinning
  | Closed
  | Hung

type_synonym 's thread = "phase \<times> 's World \<times> Conn"

text \<open>A default-constructed set of local variables.\<close>

definition new_conn :: Conn where
  "new_conn = \<lparr>cn_session = new_client_session, cn_pinned_sid = [], cn_resp = new_response,
     cn_canonical = False, cn_sent = []\<rparr>"

definition w_logged :: "LogLevel \<Rightarrow> Tick \<Rightarrow> string \<Rightarrow> 's World \<Rightarrow> 's World" where
  "w_logged level tk msg w = w\<lparr>w_log := log_at level (tk_timestamp tk) msg (w_log w)\<rparr>"

definition engine :: "ServerConfig \<Rightarrow> Tick \<Rightarrow> CoreEngine" where
  "engine cfg tk = \<lparr>admin_logs_enabled = cfg_admin_logs cfg, clk_elapsed = tk_elapsed tk,
     clk_duration = tk_duration tk, clk_timestamp = tk_timestamp tk\<rparr>"

definition fail :: "string \<Rightarrow> string \<Rightarrow> Conn \<Rightarrow> Conn" where
  "fail code msg c = c\<lparr>cn_resp := (cn_resp c)\<lparr>resp_ok := False, error_code := code, error_message := msg\<rparr>\<rparr>"

definition succeed :: "Object \<Rightarrow> Conn \<Rightarrow> Conn" where
  "succeed o' c = c\<lparr>cn_resp := (cn_resp c)\<lparr>resp_ok := True, resp_result := Obj o'\<rparr>\<rparr>"

text \<open>The \<open>catch\<close> block of the pipe server.\<close>

definition pipe_catch :: "exn \<Rightarrow> Conn \<Rightarrow> Conn" where
  "pipe_catch e c = c\<lparr>cn_resp := (cn_resp c)\<lparr>resp_ok := False, error_code := ''E_BAD_REQUEST'',
     error_message := what e, resp_result := Null\<rparr>\<rparr>"

text \<open>\<open>backend->capture_snapshot()\<close> inside the \<open>try\<close> block.\<close>

definition capture_then ::
  "'s IBackend \<Rightarrow> (exn \<Rightarrow> Conn \<Rightarrow> Conn) \<Rightarrow> (Snapshot \<Rightarrow> phase) \<Rightarrow> 's World \<Rightarrow> Conn \<Rightarrow> 's thread" where
  "capture_then B catch k w c =
     (case capture_snapshot B (w_backend w) of
        (Ok s, b) \<Rightarrow> (k s, w\<lparr>w_backend := b\<rparr>, c)
      | (Throw e, b) \<Rightarrow> (Sending, w\<lparr>w_backend := b\<rparr>, catch e c)
      | (Stuck, b) \<Rightarrow> (Hung, w\<lparr>w_backend := b\<rparr>, c))"

section \<open>The pieces of the loop\<close>

definition pipe_open :: "ServerConfig \<Rightarrow> Tick \<Rightarrow> 's World \<Rightarrow> 's thread" where
  "pipe_open cfg tk w =
     (let w1 = w_logged INFO tk ''New client connection established.''
            (w\<lparr>w_st := (w_st w)\<lparr>active_connections := active_connections (w_st w) + 1\<rparr>\<rparr>)
      in if \<not> cfg_require_auth cfg \<and> cfg_auth_keys cfg = []
         then (Reading, w_logged DEBUG tk ''Local auto-auth enabled (no keys, not require-auth).'' w1,
               new_conn\<lparr>cn_session := new_client_session\<lparr>cs_authenticated := True\<rparr>\<rparr>)
         else (Reading, w1, new_conn))"

definition pipe_receive :: "Tick \<Rightarrow> string \<Rightarrow> 's World \<Rightarrow> Conn \<Rightarrow> 's thread" where
  "pipe_receive tk msg w c =
     (let c0 = c\<lparr>cn_resp := new_response, cn_canonical := False, cn_pinned_sid := []\<rparr> in
      case parse_request_json msg of
        Throw e \<Rightarrow> (Sending, w, pipe_catch e c0)
      | Stuck \<Rightarrow> (Hung, w, c0)
      | Ok req \<Rightarrow>
          (let c1 = c0\<lparr>cn_resp := (cn_resp c0)\<lparr>resp_id := req_id req\<rparr>\<rparr> in
           if \<not> cs_authenticated (cn_session c1) \<and> req_method req \<noteq> ''hello''
           then (Sending, w_logged WARN tk (''Unauthorized request attempted: '' @ req_method req) w,
                 fail ''E_UNAUTHORIZED'' ''authentication required'' c1)
           else (Entering req, w, c1)))"

definition pipe_session :: "Tick \<Rightarrow> CoreRequest \<Rightarrow> 's World \<Rightarrow> Conn \<Rightarrow> 's thread" where
  "pipe_session tk req w c =
     (case get_str (req_params req) ''session_id'' of
        None \<Rightarrow> (Routing req, w, c)
      | Some sid \<Rightarrow>
          (let (session, st) = enter_session sid (tk_now tk) (cn_session c) (w_st w);
               note = (if map_of (sessions (w_st w)) sid = None
                       then ''Created persistent session: '' else ''Recovered session: '')
           in (Routing req, w_logged DEBUG tk (note @ sid) (w\<lparr>w_st := st\<rparr>), c\<lparr>cn_session := session\<rparr>)))"

definition unsubscribed :: "'s World \<Rightarrow> Conn \<Rightarrow> 's thread" where
  "unsubscribed w c =
     (let (session, st) = unsubscribe_section (cn_session c) (w_st w)
      in (Sending, w\<lparr>w_st := st\<rparr>,
          succeed (obj_of [(''unsubscribed'', Bool True)]) (c\<lparr>cn_session := session\<rparr>)))"

definition pipe_route :: "'s IBackend \<Rightarrow> Tick \<Rightarrow> CoreRequest \<Rightarrow> 's World \<Rightarrow> Conn \<Rightarrow> 's thread" where
  "pipe_route B tk req w c =
     (if req_method req = ''events.subscribe'' then capture_then B pipe_catch Subscribing w c
      else if req_method req = ''events.unsubscribe'' then unsubscribed w c
      else if req_method req = ''session.terminate'' \<and> cs_id (cn_session c) \<noteq> [] then
        (let (session, st) = terminate_section (cn_session c) (w_st w)
         in (Guarding req,
             w_logged INFO tk (''Session terminated explicitly: '' @ cs_id (cn_session c)) (w\<lparr>w_st := st\<rparr>),
             c\<lparr>cn_session := session\<rparr>))
      else (Guarding req, w, c))"

definition do_subscribe :: "Snapshot \<Rightarrow> 's World \<Rightarrow> Conn \<Rightarrow> 's thread" where
  "do_subscribe s w c =
     (let (sid, session, st) = subscribe_section s (cn_session c) (w_st w)
      in (Sending, w\<lparr>w_st := st\<rparr>,
          succeed (obj_of [(''subscribed'', Bool True), (''snapshot_id'', Str sid)])
            (c\<lparr>cn_session := session\<rparr>)))"

text \<open>The methods refused in read-only mode.\<close>

definition write_method :: "string \<Rightarrow> bool" where
  "write_method m \<longleftrightarrow> m = ''window.postMessage'' \<or> m = ''input.send'' \<or> str_contains ''reg.write'' m"

definition guard ::
  "(exn \<Rightarrow> Conn \<Rightarrow> Conn) \<Rightarrow> ServerConfig \<Rightarrow> 's IBackend \<Rightarrow> CoreRequest \<Rightarrow> 's World \<Rightarrow> Conn \<Rightarrow> 's thread" where
  "guard catch cfg B req w c =
     (if cfg_read_only cfg \<and> write_method (req_method req)
      then (Sending, w, fail ''E_ACCESS_DENIED'' ''daemon is running in read-only mode'' c)
      else let c1 = c\<lparr>cn_canonical := value_or (get_bool (req_params req) ''canonical'') (cn_canonical c)\<rparr>
        in if req_method req = ''snapshot.capture'' then capture_then B catch Storing w c1
           else (Pinning req, w, c1))"

definition do_store :: "Snapshot \<Rightarrow> 's World \<Rightarrow> Conn \<Rightarrow> 's thread" where
  "do_store s w c =
     (case capture_section s (w_st w) of
        None \<Rightarrow> (Hung, w, c)
      | Some (sid, st) \<Rightarrow> (Sending, w\<lparr>w_st := st\<rparr>, succeed (obj_of [(''snapshot_id'', Str sid)]) c))"

definition pipe_pin :: "'s IBackend \<Rightarrow> CoreRequest \<Rightarrow> 's World \<Rightarrow> Conn \<Rightarrow> 's thread" where
  "pipe_pin B req w c =
     (case get_str (req_params req) ''snapshot_id'' of
        None \<Rightarrow> capture_then B pipe_catch (Choosing req) w c
      | Some sid \<Rightarrow> (case pin_section sid (w_st w) of
            None \<Rightarrow> (Sending, w, fail ''E_BAD_SNAPSHOT'' ''unknown or evicted snapshot_id'' c)
          | Some (snap, st) \<Rightarrow> (Choosing req snap, w\<lparr>w_st := st\<rparr>, c\<lparr>cn_pinned_sid := sid\<rparr>)))"

text \<open>Which snapshot, if any, the events are computed against.\<close>

definition baseline :: "CoreRequest \<Rightarrow> ClientSession \<Rightarrow> ServerState \<Rightarrow> Snapshot option" where
  "baseline req session st =
     (case get_str (req_params req) ''old_snapshot_id'' of
        Some osid \<Rightarrow> map_of (snaps st) osid
      | None \<Rightarrow> (if req_method req = ''events.poll'' \<and> cs_last_snap_id session \<noteq> []
                 then map_of (snaps st) (cs_last_snap_id session) else None))"

definition choose_old :: "CoreRequest \<Rightarrow> Snapshot \<Rightarrow> 's World \<Rightarrow> Conn \<Rightarrow> 's thread" where
  "choose_old req snap w c = (Running req snap (baseline req (cn_session c) (w_st w)), w, c)"

text \<open>
  The engine under the watchdog. \<open>late\<close> is what the server writes into the response when the
  time is up.
\<close>

definition run_core ::
  "(Conn \<Rightarrow> Conn) \<Rightarrow> (exn \<Rightarrow> Conn \<Rightarrow> Conn) \<Rightarrow> ServerConfig \<Rightarrow> 's IBackend \<Rightarrow> Tick \<Rightarrow> CoreRequest \<Rightarrow> Snapshot \<Rightarrow>
   Snapshot option \<Rightarrow> 's World \<Rightarrow> Conn \<Rightarrow> 's thread" where
  "run_core late catch cfg B tk req snap old w c =
     (case handle B (engine cfg tk) req snap old (w_backend w, w_log w) of
        (Stuck, b, lg) \<Rightarrow> (Hung, w\<lparr>w_backend := b, w_log := lg\<rparr>, c)
      | (Throw e, b, lg) \<Rightarrow> (Sending, w\<lparr>w_backend := b, w_log := lg\<rparr>, catch e c)
      | (Ok r, b, lg) \<Rightarrow>
          (let c1 = (if tk_timeout tk then late c else c\<lparr>cn_resp := r\<rparr>)
           in (if req_method req = ''events.poll'' \<and> resp_ok (cn_resp c1) then Refreshing else Sending,
               w\<lparr>w_backend := b, w_log := lg\<rparr>, c1)))"

definition pipe_late :: "Conn \<Rightarrow> Conn" where
  "pipe_late = fail ''E_TIMEOUT'' ''request timed out in core engine''"

definition do_commit :: "Snapshot \<Rightarrow> 's World \<Rightarrow> Conn \<Rightarrow> 's thread" where
  "do_commit fresh w c =
     (let (session, st) = poll_section fresh (cn_session c) (w_st w)
      in (Sending, w\<lparr>w_st := st\<rparr>, c\<lparr>cn_session := session\<rparr>))"

definition send_response :: "'s World \<Rightarrow> Conn \<Rightarrow> 's thread" where
  "send_response w c =
     (Unpinning, w, c\<lparr>cn_sent := cn_sent c @ [serialize_response_json (cn_resp c) (cn_canonical c)]\<rparr>)"

definition do_unpin :: "'s World \<Rightarrow> Conn \<Rightarrow> 's thread" where
  "do_unpin w c = (Reading, w\<lparr>w_st := unpin_section (cn_pinned_sid c) (w_st w)\<rparr>, c)"

text \<open>The end of the thread: what was pinned is unpinned (again), the guard counts down.\<close>

definition pipe_close :: "Tick \<Rightarrow> 's World \<Rightarrow> Conn \<Rightarrow> 's thread" where
  "pipe_close tk w c =
     (let st = unpin_section (cn_pinned_sid c) (w_st w)
      in (Closed, w_logged INFO tk ''Client connection closed.''
            (w\<lparr>w_st := st\<lparr>active_connections := active_connections st - 1\<rparr>\<rparr>), c))"

fun pipe_step :: "ServerConfig \<Rightarrow> 's IBackend \<Rightarrow> Tick \<Rightarrow> 's thread \<Rightarrow> 's thread" where
  "pipe_step cfg B tk (Entering req, w, c) = pipe_session tk req w c"
| "pipe_step cfg B tk (Routing req, w, c) = pipe_route B tk req w c"
| "pipe_step cfg B tk (Subscribing s, w, c) = do_subscribe s w c"
| "pipe_step cfg B tk (Guarding req, w, c) = guard pipe_catch cfg B req w c"
| "pipe_step cfg B tk (Storing s, w, c) = do_store s w c"
| "pipe_step cfg B tk (Pinning req, w, c) = pipe_pin B req w c"
| "pipe_step cfg B tk (Choosing req snap, w, c) = choose_old req snap w c"
| "pipe_step cfg B tk (Running req snap old, w, c) =
     run_core pipe_late pipe_catch cfg B tk req snap old w c"
| "pipe_step cfg B tk (Refreshing, w, c) = capture_then B pipe_catch Committing w c"
| "pipe_step cfg B tk (Committing s, w, c) = do_commit s w c"
| "pipe_step cfg B tk (Sending, w, c) = send_response w c"
| "pipe_step cfg B tk (Unpinning, w, c) = do_unpin w c"
| "pipe_step cfg B tk (Reading, w, c) = (Reading, w, c)"
| "pipe_step cfg B tk (Closed, w, c) = (Closed, w, c)"
| "pipe_step cfg B tk (Hung, w, c) = (Hung, w, c)"

section \<open>A thread on its own\<close>

text \<open>How far a phase is from the end of the message.\<close>

primrec rank :: "phase \<Rightarrow> nat" where
  "rank Reading = 0"
| "rank Closed = 0"
| "rank Hung = 0"
| "rank Unpinning = 1"
| "rank Sending = 2"
| "rank (Committing s) = 3"
| "rank Refreshing = 4"
| "rank (Running req s old) = 5"
| "rank (Choosing req s) = 6"
| "rank (Pinning req) = 7"
| "rank (Storing s) = 3"
| "rank (Guarding req) = 8"
| "rank (Subscribing s) = 3"
| "rank (Routing req) = 9"
| "rank (Entering req) = 10"

lemmas piece_defs = pipe_session_def pipe_route_def do_subscribe_def unsubscribed_def guard_def do_store_def
  pipe_pin_def choose_old_def run_core_def do_commit_def send_response_def do_unpin_def capture_then_def

lemma pipe_step_rank: "0 < rank (fst t) \<Longrightarrow> rank (fst (pipe_step cfg B tk t)) < rank (fst t)"
  by (cases "(cfg, B, tk, t)" rule: pipe_step.cases)
    (auto simp: piece_defs Let_def split: prod.splits option.splits res.splits)

text \<open>Each piece reads the clocks at its own time.\<close>

function drive :: "(Tick \<Rightarrow> 's thread \<Rightarrow> 's thread) \<Rightarrow> (nat \<Rightarrow> Tick) \<Rightarrow> 's thread \<Rightarrow> 's thread" where
  "drive step tks t =
     (let t' = step (tks (rank (fst t))) t
      in if rank (fst t') < rank (fst t) then drive step tks t' else t)"
  by pat_completeness auto
termination
  by (relation "measure (\<lambda>(step, tks, t). rank (fst t))") auto

declare drive.simps [simp del]

text \<open>One message, start to end, with no other thread in between.\<close>

definition pipe_message ::
  "ServerConfig \<Rightarrow> 's IBackend \<Rightarrow> (nat \<Rightarrow> Tick) \<Rightarrow> string \<Rightarrow> 's World \<Rightarrow> Conn \<Rightarrow> 's thread" where
  "pipe_message cfg B tks msg w c = drive (pipe_step cfg B) tks (pipe_receive (tks 11) msg w c)"

end
