(* ===== verification/Tcp_Server.thy ===== *)
theory Tcp_Server
  imports Server
begin

text \<open>
  The request loop of \<open>daemon/src/tcp_server.cpp\<close>: \<open>handle_socket_client\<close> after the
  handshake. It repeats the text of the pipe server with these differences: the session variable is
  declared inside the loop and so starts afresh with every message, nothing is checked about
  authentication (the handshake has done that), new sessions are refused beyond the limit, pinning
  does not touch the eviction queue, nothing is logged, and \<open>catch (...)\<close> keeps neither the
  text of the exception nor an earlier result out of the response.
\<close>

definition tcp_catch :: "exn \<Rightarrow> Conn \<Rightarrow> Conn" where
  "tcp_catch e c = c\<lparr>cn_resp := (cn_resp c)\<lparr>resp_ok := False, error_code := ''E_BAD_REQUEST''\<rparr>\<rparr>"

definition tcp_receive :: "string \<Rightarrow> 's World \<Rightarrow> Conn \<Rightarrow> 's thread" where
  "tcp_receive msg w c =
     (let c0 = c\<lparr>cn_resp := new_response, cn_canonical := False, cn_pinned_sid := [],
                 cn_session := new_client_session\<rparr> in
      case parse_request_json msg of
        Throw e \<Rightarrow> (Sending, w, tcp_catch e c0)
      | Stuck \<Rightarrow> (Hung, w, c0)
      | Ok req \<Rightarrow> (Entering req, w, c0\<lparr>cn_resp := (cn_resp c0)\<lparr>resp_id := req_id req\<rparr>\<rparr>))"

definition tcp_session :: "Tick \<Rightarrow> CoreRequest \<Rightarrow> 's World \<Rightarrow> Conn \<Rightarrow> 's thread" where
  "tcp_session tk req w c =
     (case get_str (req_params req) ''session_id'' of
        None \<Rightarrow> (Routing req, w, c)
      | Some sid \<Rightarrow> (case tcp_enter_session sid (tk_now tk) (cn_session c) (w_st w) of
            None \<Rightarrow> (Sending, w, fail ''E_TOO_MANY_SESSIONS'' ''session limit reached'' c)
          | Some (session, st) \<Rightarrow> (Routing req, w\<lparr>w_st := st\<rparr>, c\<lparr>cn_session := session\<rparr>)))"

definition tcp_route :: "'s IBackend \<Rightarrow> CoreRequest \<Rightarrow> 's World \<Rightarrow> Conn \<Rightarrow> 's thread" where
  "tcp_route B req w c =
     (if req_method req = ''events.subscribe'' then capture_then B tcp_catch Subscribing w c
      else if req_method req = ''events.unsubscribe'' then unsubscribed w c
      else if req_method req = ''session.terminate'' then
        (let (session, st) = terminate_section (cn_session c) (w_st w)
         in (Guarding req, w\<lparr>w_st := st\<rparr>, c\<lparr>cn_session := session\<rparr>))
      else (Guarding req, w, c))"

definition tcp_pin :: "'s IBackend \<Rightarrow> CoreRequest \<Rightarrow> 's World \<Rightarrow> Conn \<Rightarrow> 's thread" where
  "tcp_pin B req w c =
     (case get_str (req_params req) ''snapshot_id'' of
        None \<Rightarrow> capture_then B tcp_catch (Choosing req) w c
      | Some sid \<Rightarrow> (case tcp_pin_section sid (w_st w) of
            None \<Rightarrow> (Sending, w, fail ''E_BAD_SNAPSHOT'' ''unknown snapshot'' c)
          | Some (snap, st) \<Rightarrow> (Choosing req snap, w\<lparr>w_st := st\<rparr>, c\<lparr>cn_pinned_sid := sid\<rparr>)))"

text \<open>A request that timed out gets the code only.\<close>

definition tcp_late :: "Conn \<Rightarrow> Conn" where
  "tcp_late c = c\<lparr>cn_resp := (cn_resp c)\<lparr>resp_ok := False, error_code := ''E_TIMEOUT''\<rparr>\<rparr>"

fun tcp_step :: "ServerConfig \<Rightarrow> 's IBackend \<Rightarrow> Tick \<Rightarrow> 's thread \<Rightarrow> 's thread" where
  "tcp_step cfg B tk (Entering req, w, c) = tcp_session tk req w c"
| "tcp_step cfg B tk (Routing req, w, c) = tcp_route B req w c"
| "tcp_step cfg B tk (Subscribing s, w, c) = do_subscribe s w c"
| "tcp_step cfg B tk (Guarding req, w, c) = guard tcp_catch cfg B req w c"
| "tcp_step cfg B tk (Storing s, w, c) = do_store s w c"
| "tcp_step cfg B tk (Pinning req, w, c) = tcp_pin B req w c"
| "tcp_step cfg B tk (Choosing req snap, w, c) = choose_old req snap w c"
| "tcp_step cfg B tk (Running req snap old, w, c) =
     run_core tcp_late tcp_catch cfg B tk req snap old w c"
| "tcp_step cfg B tk (Refreshing, w, c) = capture_then B tcp_catch Committing w c"
| "tcp_step cfg B tk (Committing s, w, c) = do_commit s w c"
| "tcp_step cfg B tk (Sending, w, c) = send_response w c"
| "tcp_step cfg B tk (Unpinning, w, c) = do_unpin w c"
| "tcp_step cfg B tk (Reading, w, c) = (Reading, w, c)"
| "tcp_step cfg B tk (Closed, w, c) = (Closed, w, c)"
| "tcp_step cfg B tk (Hung, w, c) = (Hung, w, c)"

definition tcp_message ::
  "ServerConfig \<Rightarrow> 's IBackend \<Rightarrow> (nat \<Rightarrow> Tick) \<Rightarrow> string \<Rightarrow> 's World \<Rightarrow> Conn \<Rightarrow> 's thread" where
  "tcp_message cfg B tks msg w c = drive (tcp_step cfg B) tks (tcp_receive msg w c)"

lemmas tcp_piece_defs = tcp_session_def tcp_route_def tcp_pin_def

lemma tcp_step_rank: "0 < rank (fst t) \<Longrightarrow> rank (fst (tcp_step cfg B tk t)) < rank (fst t)"
  by (cases "(cfg, B, tk, t)" rule: tcp_step.cases)
    (auto simp: piece_defs tcp_piece_defs Let_def split: prod.splits option.splits res.splits)

end
