(* ===== verification/Daemon.thy ===== *)
theory Daemon
  imports Tcp_Server
begin

text \<open>
  The daemon as a whole: the threads of \<open>server.cpp\<close> and \<open>tcp_server.cpp\<close> interleaved over
  one shared state. A step of the daemon is one piece of one thread: the accept loop of
  \<open>run_server\<close>, the start of a client thread, the arrival of a message, the next piece of a
  request, a lost connection, or a round of the cleanup thread. Which thread goes next, the bytes
  that arrive and the clocks are free, so what holds of every reachable state holds of every
  schedule.
\<close>

section \<open>Steps\<close>

datatype client =
    Spawned
  | PipeClient phase Conn
  | TcpClient phase Conn

record 's Daemon =
  d_world :: "'s World"
  d_clients :: "client list"

abbreviation d_st :: "'s Daemon \<Rightarrow> ServerState" where
  "d_st d \<equiv> w_st (d_world d)"

definition set_client :: "nat \<Rightarrow> (phase \<Rightarrow> Conn \<Rightarrow> client) \<Rightarrow> 's thread \<Rightarrow> 's Daemon \<Rightarrow> 's Daemon" where
  "set_client i K t d = (case t of (ph, w, c) \<Rightarrow> d\<lparr>d_world := w, d_clients := (d_clients d)[i := K ph c]\<rparr>)"

definition accept_pipe :: "Tick \<Rightarrow> 's Daemon \<Rightarrow> 's Daemon" where
  "accept_pipe tk d =
     (let d1 = d\<lparr>d_world := w_logged DEBUG tk ''Named Pipe connection accepted.'' (d_world d)\<rparr>
      in if max_connections (d_st d1) \<le> active_connections (d_st d1) then d1
         else d1\<lparr>d_clients := d_clients d1 @ [Spawned]\<rparr>)"

definition accept_tcp :: "'s Daemon \<Rightarrow> 's Daemon" where
  "accept_tcp d = d\<lparr>d_clients := d_clients d @ [TcpClient Reading new_conn]\<rparr>"

definition cleanup :: "Tick \<Rightarrow> 's Daemon \<Rightarrow> 's Daemon" where
  "cleanup tk d = d\<lparr>d_world := (d_world d)\<lparr>w_st := cleanup_sessions (tk_now tk) (d_st d)\<rparr>\<rparr>"

inductive daemon_step :: "ServerConfig \<Rightarrow> 's IBackend \<Rightarrow> 's Daemon \<Rightarrow> 's Daemon \<Rightarrow> bool"
  for cfg :: ServerConfig and B :: "'s IBackend" where
  accept: "daemon_step cfg B d (accept_pipe tk d)"
| accept_socket: "daemon_step cfg B d (accept_tcp d)"
| clean: "daemon_step cfg B d (cleanup tk d)"
| start: "i < length (d_clients d) \<Longrightarrow> d_clients d ! i = Spawned \<Longrightarrow>
    daemon_step cfg B d (set_client i PipeClient (pipe_open cfg tk (d_world d)) d)"
| pipe_arrival: "i < length (d_clients d) \<Longrightarrow> d_clients d ! i = PipeClient Reading c \<Longrightarrow>
    daemon_step cfg B d (set_client i PipeClient (pipe_receive tk msg (d_world d) c) d)"
| pipe_piece: "i < length (d_clients d) \<Longrightarrow> d_clients d ! i = PipeClient ph c \<Longrightarrow> 0 < rank ph \<Longrightarrow>
    daemon_step cfg B d (set_client i PipeClient (pipe_step cfg B tk (ph, d_world d, c)) d)"
| pipe_lost: "i < length (d_clients d) \<Longrightarrow> d_clients d ! i = PipeClient Reading c \<Longrightarrow>
    daemon_step cfg B d (set_client i PipeClient (pipe_close tk (d_world d) c) d)"
| tcp_arrival: "i < length (d_clients d) \<Longrightarrow> d_clients d ! i = TcpClient Reading c \<Longrightarrow>
    daemon_step cfg B d (set_client i TcpClient (tcp_receive msg (d_world d) c) d)"
| tcp_piece: "i < length (d_clients d) \<Longrightarrow> d_clients d ! i = TcpClient ph c \<Longrightarrow> 0 < rank ph \<Longrightarrow>
    daemon_step cfg B d (set_client i TcpClient (tcp_step cfg B tk (ph, d_world d, c)) d)"
| tcp_lost: "i < length (d_clients d) \<Longrightarrow> d_clients d ! i = TcpClient Reading c \<Longrightarrow>
    daemon_step cfg B d (set_client i TcpClient (Closed, d_world d, c) d)"

text \<open>States reachable in a given number of steps.\<close>

inductive daemon_run :: "ServerConfig \<Rightarrow> 's IBackend \<Rightarrow> nat \<Rightarrow> 's Daemon \<Rightarrow> 's Daemon \<Rightarrow> bool"
  for cfg :: ServerConfig and B :: "'s IBackend" where
  run_refl: "daemon_run cfg B 0 d d"
| run_step: "daemon_run cfg B n d d' \<Longrightarrow> daemon_step cfg B d' d'' \<Longrightarrow> daemon_run cfg B (Suc n) d d''"

section \<open>What a step does to the shared state\<close>

text \<open>Every step runs at most one locked block.\<close>

inductive section_step :: "ServerState \<Rightarrow> ServerState \<Rightarrow> bool" where
  sec_none: "section_step st st"
| sec_enter: "section_step st (snd (enter_session sid now session st))"
| sec_subscribe: "section_step st (snd (snd (subscribe_section s session st)))"
| sec_unsubscribe: "section_step st (snd (unsubscribe_section session st))"
| sec_terminate: "section_step st (snd (terminate_section session st))"
| sec_capture: "capture_section s st = Some (i, st') \<Longrightarrow> section_step st st'"
| sec_pin: "pin_section i st = Some (s, st') \<Longrightarrow> section_step st st'"
| sec_tcp_pin: "tcp_pin_section i st = Some (s, st') \<Longrightarrow> section_step st st'"
| sec_unpin: "section_step st (unpin_section i st)"
| sec_poll: "section_step st (snd (poll_section s session st))"
| sec_cleanup: "section_step st (cleanup_sessions now st)"
| sec_open: "section_step st (st\<lparr>active_connections := n\<rparr>)"
| sec_close: "section_step st ((unpin_section i st)\<lparr>active_connections := n\<rparr>)"

lemma w_logged_sel [simp]:
  "w_st (w_logged level tk msg w) = w_st w" "w_backend (w_logged level tk msg w) = w_backend w"
  by (simp_all add: w_logged_def)

abbreviation t_st :: "'s thread \<Rightarrow> ServerState" where
  "t_st t \<equiv> w_st (fst (snd t))"

lemma capture_then_st [simp]: "t_st (capture_then B catch k w c) = w_st w"
  by (auto simp: capture_then_def split: prod.splits res.splits)

lemma run_core_st [simp]: "t_st (run_core late catch cfg B tk req snap old w c) = w_st w"
  by (auto simp: run_core_def Let_def split: prod.splits res.splits)

lemma guard_st [simp]: "t_st (guard catch cfg B req w c) = w_st w"
  by (auto simp: guard_def Let_def)

lemma receive_st [simp]: "t_st (pipe_receive tk msg w c) = w_st w" "t_st (tcp_receive msg w c) = w_st w"
  by (auto simp: pipe_receive_def tcp_receive_def Let_def split: res.splits)

lemma store_section: "section_step (w_st w) (t_st (do_store s w c))"
  by (auto simp: do_store_def intro: section_step.intros split: option.splits)

lemma pin_section_steps:
  "section_step (w_st w) (t_st (pipe_pin B req w c))" "section_step (w_st w) (t_st (tcp_pin B req w c))"
  by (auto simp: pipe_pin_def tcp_pin_def intro: section_step.intros split: option.splits)

lemma session_section:
  "section_step (w_st w) (t_st (pipe_session tk req w c))" "section_step (w_st w) (t_st (tcp_session tk req w c))"
  by (auto simp: pipe_session_def tcp_session_def tcp_enter_session_def case_prod_beta Let_def
      intro: section_step.intros split: option.splits)

lemma route_section:
  "section_step (w_st w) (t_st (pipe_route B tk req w c))" "section_step (w_st w) (t_st (tcp_route B req w c))"
  by (auto simp: pipe_route_def tcp_route_def unsubscribed_def case_prod_beta Let_def
      intro: section_step.intros)

lemma other_sections:
  "section_step (w_st w) (t_st (do_subscribe s w c))" "section_step (w_st w) (t_st (do_commit s w c))"
  "section_step (w_st w) (t_st (send_response w c))" "section_step (w_st w) (t_st (do_unpin w c))"
  "section_step (w_st w) (t_st (choose_old req snap w c))"
  by (auto simp: do_subscribe_def do_commit_def send_response_def do_unpin_def choose_old_def
      case_prod_beta Let_def intro: section_step.intros)

lemmas piece_sections = store_section pin_section_steps session_section route_section other_sections

lemma pipe_step_section: "section_step (w_st (fst (snd t))) (t_st (pipe_step cfg B tk t))"
  by (cases "(cfg, B, tk, t)" rule: pipe_step.cases) (simp_all add: piece_sections sec_none)

lemma tcp_step_section: "section_step (w_st (fst (snd t))) (t_st (tcp_step cfg B tk t))"
  by (cases "(cfg, B, tk, t)" rule: tcp_step.cases) (simp_all add: piece_sections sec_none)

lemma set_client_sel [simp]:
  "d_world (set_client i K t d) = fst (snd t)"
  "d_clients (set_client i K t d) = (d_clients d)[i := K (fst t) (snd (snd t))]"
  by (simp_all add: set_client_def case_prod_beta)

lemma open_close_st:
  "t_st (pipe_open cfg tk w) = (w_st w)\<lparr>active_connections := active_connections (w_st w) + 1\<rparr>"
  "t_st (pipe_close tk w c) = (unpin_section (cn_pinned_sid c) (w_st w))
     \<lparr>active_connections := active_connections (unpin_section (cn_pinned_sid c) (w_st w)) - 1\<rparr>"
  by (simp_all add: pipe_open_def pipe_close_def Let_def)

lemma daemon_step_section: "daemon_step cfg B d d' \<Longrightarrow> section_step (d_st d) (d_st d')"
  by (induction rule: daemon_step.induct)
    (auto simp: accept_pipe_def accept_tcp_def cleanup_def open_close_st Let_def
      intro: section_step.intros pipe_step_section[of "(a, b, c)" for a b c, simplified]
        tcp_step_section[of "(a, b, c)" for a b c, simplified])

section \<open>Snapshots are immutable\<close>

lemma section_later: "section_step st st' \<Longrightarrow> store_wf st \<Longrightarrow> roomy st \<Longrightarrow> later st st'"
proof (induction rule: section_step.induct)
  case (sec_open st n)
  then show ?case by (intro same_store_later) (auto simp: same_store_def store_wf_def)
next
  case (sec_close st n i)
  have "later st (unpin_section i st)" using sec_close by (simp add: pipe_store.unpin_evolves)
  moreover have "later (unpin_section i st) ((unpin_section i st)\<lparr>active_connections := n\<rparr>)"
    using later_wf[OF calculation]
    by (intro same_store_later) (auto simp: same_store_def store_wf_def)
  ultimately show ?case by (rule pipe_store.evolves_trans)
qed (auto intro: pipe_store.evolves_refl enter_session_later subscribe_later unsubscribe_later
    terminate_later capture_later pipe_store.pin_evolves tcp_store.pin_evolves
    pipe_store.unpin_evolves poll_later cleanup_later)

text \<open>One step uses at most one new identifier.\<close>

lemma evict_counter: "evict st = Some st' \<Longrightarrow> om_wf (pinned_counts st) \<Longrightarrow> snap_counter st' = snap_counter st"
  by (elim evict_SomeE) auto

lemma store_counter:
  "store_snapshot s st = (i, st') \<Longrightarrow> snap_counter st' = snap_counter st + 1 \<and> pinned_counts st' = pinned_counts st"
  by (auto simp: store_snapshot_def Let_def)

lemma capture_counter:
  "capture_section s st = Some (i, st') \<Longrightarrow> om_wf (pinned_counts st) \<Longrightarrow> snap_counter st' = snap_counter st + 1"
  by (elim capture_run) (metis evict_counter store_counter)

lemma section_counter:
  "section_step st st' \<Longrightarrow> store_wf st \<Longrightarrow>
   snap_counter st' = snap_counter st \<or> snap_counter st' = snap_counter st + 1"
proof (induction rule: section_step.induct)
  case (sec_capture s st i st')
  then show ?case using capture_counter by (auto simp: store_wf_def)
qed (auto simp: enter_session_def subscribe_section_def unsubscribe_section_def terminate_section_def
    pin_section_def tcp_pin_section_def unpin_section_def poll_section_def cleanup_sessions_def
    persist_def store_snapshot_def Let_def split: option.splits)

lemma unat_succ_le: "unat ((w :: 64 word) + 1) \<le> Suc (unat w)"
  by (metis Suc_n_not_le_n add.commute le_cases unatSuc unat_0 unsigned_0 zero_le)

lemma run_later:
  assumes "daemon_run cfg B n d d'" and "store_wf (d_st d)" and "unat (snap_counter (d_st d)) + n < 2 ^ 64"
  shows "later (d_st d) (d_st d') \<and> unat (snap_counter (d_st d')) \<le> unat (snap_counter (d_st d)) + n"
  using assms
proof (induction rule: daemon_run.induct)
  case (run_refl d)
  then show ?case by (simp add: pipe_store.evolves_refl)
next
  case (run_step n d d' d'')
  then have IH: "later (d_st d) (d_st d')" "unat (snap_counter (d_st d')) \<le> unat (snap_counter (d_st d)) + n"
    by simp_all
  have "unat (snap_counter (d_st d')) < 2 ^ 64 - 1" using IH(2) run_step.prems(2) by simp
  then have room: "roomy (d_st d')" by (simp add: roomy_def word_less_nat_alt unsigned_minus_1_eq_mask mask_eq_exp_minus_1)
  note sec = daemon_step_section[OF run_step.hyps(2)] and wf = later_wf[OF IH(1)]
  have "later (d_st d) (d_st d'')"
    using IH(1) section_later[OF sec wf room] by (rule pipe_store.evolves_trans)
  moreover have "unat (snap_counter (d_st d'')) \<le> Suc (unat (snap_counter (d_st d')))"
    using section_counter[OF sec wf] unat_succ_le[of "snap_counter (d_st d')"] by auto
  ultimately show ?case using IH(2) by simp
qed

section \<open>Pins and their holders\<close>

text \<open>A thread holds an identifier from the moment it pins it to the moment it unpins it.\<close>

definition holding :: "phase \<Rightarrow> Conn \<Rightarrow> string \<Rightarrow> bool" where
  "holding ph c i \<longleftrightarrow> ph \<noteq> Reading \<and> ph \<noteq> Closed \<and> cn_pinned_sid c = i"

primrec holder :: "string \<Rightarrow> client \<Rightarrow> bool" where
  "holder i Spawned = False"
| "holder i (PipeClient ph c) = holding ph c i"
| "holder i (TcpClient ph c) = holding ph c i"

definition holders :: "string \<Rightarrow> client list \<Rightarrow> int" where
  "holders i cs = int (length (filter (holder i) cs))"

text \<open>The phases before the pin.\<close>

primrec early :: "phase \<Rightarrow> bool" where
  "early Reading = False"
| "early Closed = False"
| "early Hung = False"
| "early Unpinning = False"
| "early Sending = False"
| "early (Committing s) = False"
| "early Refreshing = False"
| "early (Running req s old) = False"
| "early (Choosing req s) = False"
| "early (Pinning req) = True"
| "early (Storing s) = True"
| "early (Guarding req) = True"
| "early (Subscribing s) = True"
| "early (Routing req) = True"
| "early (Entering req) = True"

text \<open>What a piece does to one count: it follows the holder, or an unpinned entry is forgotten.\<close>

definition follows :: "string \<Rightarrow> ServerState \<Rightarrow> bool \<Rightarrow> ServerState \<Rightarrow> bool \<Rightarrow> bool" where
  "follows i st h st' h' \<longleftrightarrow>
     count_at (pinned_counts st') i = count_at (pinned_counts st) i + of_bool h' - of_bool h \<or>
     count_at (pinned_counts st) i \<le> 0 \<and> count_at (pinned_counts st') i = 0 \<and> h' = h"

lemma follows_same: "pinned_counts st' = pinned_counts st \<Longrightarrow> h' = h \<Longrightarrow> follows i st h st' h'"
  by (simp add: follows_def)

lemma evict_counts:
  assumes "evict st = Some st'" "om_wf (pinned_counts st)"
  shows "count_at (pinned_counts st') i = count_at (pinned_counts st) i \<or>
    count_at (pinned_counts st) i \<le> 0 \<and> count_at (pinned_counts st') i = 0"
proof -
  have "pinned_counts st' = without (take (excess st) (droppable st)) (pinned_counts st)"
    using assms by (elim evict_SomeE) auto
  then show ?thesis by (auto simp: count_at_without droppable_def dest!: in_set_takeD)
qed

lemma catch_pinned [simp]:
  "cn_pinned_sid (pipe_catch e c) = cn_pinned_sid c" "cn_pinned_sid (tcp_catch e c) = cn_pinned_sid c"
  "cn_pinned_sid (fail x y c) = cn_pinned_sid c" "cn_pinned_sid (succeed o' c) = cn_pinned_sid c"
  "cn_pinned_sid (pipe_late c) = cn_pinned_sid c" "cn_pinned_sid (tcp_late c) = cn_pinned_sid c"
  by (simp_all add: pipe_catch_def tcp_catch_def fail_def succeed_def pipe_late_def tcp_late_def)

lemma section_pins [simp]:
  "pinned_counts (snd (enter_session sid now session st)) = pinned_counts st"
  "pinned_counts (snd (snd (subscribe_section s session st))) = pinned_counts st"
  "pinned_counts (snd (unsubscribe_section session st)) = pinned_counts st"
  "pinned_counts (snd (terminate_section session st)) = pinned_counts st"
  "pinned_counts (snd (poll_section s session st)) = pinned_counts st"
  by (auto simp: enter_session_def subscribe_section_def unsubscribe_section_def terminate_section_def
      poll_section_def persist_def store_snapshot_def Let_def split: option.splits)

lemma do_store_follows:
  assumes "om_wf (pinned_counts (w_st w))" "cn_pinned_sid c = []" "i \<noteq> []"
  shows "follows i (w_st w) False (t_st (do_store s w c))
    (holding (fst (do_store s w c)) (snd (snd (do_store s w c))) i)"
proof (cases "capture_section s (w_st w)")
  case None
  then show ?thesis using assms by (simp add: do_store_def follows_def holding_def)
next
  case (Some p)
  obtain sid st' where p: "p = (sid, st')" by fastforce
  with Some obtain st1 where put: "store_snapshot s (w_st w) = (sid, st1)" and ev: "evict st1 = Some st'"
    by (auto elim: capture_run)
  have "pinned_counts st1 = pinned_counts (w_st w)" using store_counter[OF put] by simp
  with evict_counts[OF ev, of i] assms show ?thesis
    by (auto simp: do_store_def Some p follows_def holding_def)
qed

definition thread_ok :: "phase \<Rightarrow> Conn \<Rightarrow> bool" where
  "thread_ok ph c \<longleftrightarrow> (early ph \<longrightarrow> cn_pinned_sid c = [])"

abbreviation t_holding :: "'s thread \<Rightarrow> string \<Rightarrow> bool" where
  "t_holding t i \<equiv> holding (fst t) (snd (snd t)) i"

abbreviation t_ok :: "'s thread \<Rightarrow> bool" where
  "t_ok t \<equiv> thread_ok (fst t) (snd (snd t))"

lemmas holding_simps = follows_def holding_def thread_ok_def

lemma capture_then_follows:
  assumes "cn_pinned_sid c = p" "\<And>e. cn_pinned_sid (catch e c) = p" "\<And>s. k s \<noteq> Reading \<and> k s \<noteq> Closed"
  shows "t_holding (capture_then B catch k w c) i = (p = i)"
    and "(\<And>s. early (k s) \<Longrightarrow> p = []) \<Longrightarrow> t_ok (capture_then B catch k w c)"
  using assms by (auto simp: capture_then_def holding_simps split: prod.splits res.splits)

lemma run_core_follows:
  assumes "\<And>e. cn_pinned_sid (catch e c) = cn_pinned_sid c" "cn_pinned_sid (late c) = cn_pinned_sid c"
  shows "t_holding (run_core late catch cfg B tk req snap old w c) i = (cn_pinned_sid c = i)"
    and "t_ok (run_core late catch cfg B tk req snap old w c)"
  using assms by (auto simp: run_core_def holding_simps Let_def split: prod.splits res.splits)

lemma guard_follows:
  assumes "cn_pinned_sid c = []" "\<And>e c. cn_pinned_sid (catch e c) = cn_pinned_sid c"
  shows "t_holding (guard catch cfg B req w c) i = ([] = i)" and "t_ok (guard catch cfg B req w c)"
  using assms
  by (auto simp: guard_def Let_def capture_then_follows) (auto simp: holding_simps)

lemma pin_follows:
  assumes "om_wf (pinned_counts (w_st w))" "cn_pinned_sid c = []" "i \<noteq> []"
  shows "follows i (w_st w) False (t_st (pipe_pin B req w c)) (t_holding (pipe_pin B req w c) i)"
    and "t_ok (pipe_pin B req w c)"
    and "follows i (w_st w) False (t_st (tcp_pin B req w c)) (t_holding (tcp_pin B req w c) i)"
    and "t_ok (tcp_pin B req w c)"
  using assms
  by (auto simp: pipe_pin_def tcp_pin_def capture_then_follows split: option.splits)
    (auto simp: holding_simps pin_section_def tcp_pin_section_def split: option.splits if_splits)

lemma session_follows:
  assumes "cn_pinned_sid c = []" "i \<noteq> []"
  shows "follows i (w_st w) False (t_st (pipe_session tk req w c)) (t_holding (pipe_session tk req w c) i)"
    and "t_ok (pipe_session tk req w c)"
    and "follows i (w_st w) False (t_st (tcp_session tk req w c)) (t_holding (tcp_session tk req w c) i)"
    and "t_ok (tcp_session tk req w c)"
  using assms
  by (auto simp: pipe_session_def tcp_session_def tcp_enter_session_def holding_simps case_prod_beta Let_def
      split: option.splits)

lemma route_follows:
  assumes "cn_pinned_sid c = []" "i \<noteq> []"
  shows "follows i (w_st w) False (t_st (pipe_route B tk req w c)) (t_holding (pipe_route B tk req w c) i)"
    and "t_ok (pipe_route B tk req w c)"
    and "follows i (w_st w) False (t_st (tcp_route B req w c)) (t_holding (tcp_route B req w c) i)"
    and "t_ok (tcp_route B req w c)"
  using assms
  by (auto simp: pipe_route_def tcp_route_def unsubscribed_def case_prod_beta Let_def capture_then_follows
      follows_same)
    (auto simp: holding_simps)

lemma unpin_follows:
  assumes "om_wf (pinned_counts (w_st w))" "i \<noteq> []"
  shows "follows i (w_st w) (cn_pinned_sid c = i) (t_st (do_unpin w c)) (t_holding (do_unpin w c) i)"
    and "t_ok (do_unpin w c)"
  using assms by (auto simp: do_unpin_def unpin_section_def holding_simps)

lemma other_follows:
  assumes "i \<noteq> []"
  shows "follows i (w_st w) (cn_pinned_sid c = i) (t_st (do_commit s w c)) (t_holding (do_commit s w c) i)"
    and "t_ok (do_commit s w c)"
    and "follows i (w_st w) (cn_pinned_sid c = i) (t_st (send_response w c)) (t_holding (send_response w c) i)"
    and "t_ok (send_response w c)"
    and "follows i (w_st w) (cn_pinned_sid c = i) (t_st (choose_old req snap w c)) (t_holding (choose_old req snap w c) i)"
    and "t_ok (choose_old req snap w c)"
    and "cn_pinned_sid c = [] \<Longrightarrow> follows i (w_st w) False (t_st (do_subscribe s w c)) (t_holding (do_subscribe s w c) i)"
    and "t_ok (do_subscribe s w c)"
  using assms
  by (auto simp: do_commit_def send_response_def choose_old_def do_subscribe_def case_prod_beta Let_def holding_simps)

lemma do_store_ok: "t_ok (do_store s w c)"
  by (auto simp: do_store_def thread_ok_def split: option.splits)

lemmas piece_follows = guard_follows pin_follows session_follows route_follows unpin_follows other_follows
  capture_then_follows run_core_follows do_store_follows do_store_ok follows_same

lemma refreshing_ok: "t_ok (capture_then B catch Committing w c)"
  by (auto simp: capture_then_def thread_ok_def split: prod.splits res.splits)

lemma mid_holding: "0 < rank ph \<Longrightarrow> holding ph c i = (cn_pinned_sid c = i)"
  by (cases ph) (simp_all add: holding_def)

lemma pipe_step_follows:
  assumes "om_wf (pinned_counts (w_st w))" "thread_ok ph c" "0 < rank ph" "i \<noteq> []"
  shows "follows i (w_st w) (holding ph c i) (t_st (pipe_step cfg B tk (ph, w, c)))
      (t_holding (pipe_step cfg B tk (ph, w, c)) i) \<and> t_ok (pipe_step cfg B tk (ph, w, c))"
proof -
  have pre: "early ph \<longrightarrow> cn_pinned_sid c = []" using assms(2) by (simp add: thread_ok_def)
  show ?thesis using assms(1,3,4) pre
    by (cases ph) (simp_all add: piece_follows refreshing_ok mid_holding)
qed

lemma tcp_step_follows:
  assumes "om_wf (pinned_counts (w_st w))" "thread_ok ph c" "0 < rank ph" "i \<noteq> []"
  shows "follows i (w_st w) (holding ph c i) (t_st (tcp_step cfg B tk (ph, w, c)))
      (t_holding (tcp_step cfg B tk (ph, w, c)) i) \<and> t_ok (tcp_step cfg B tk (ph, w, c))"
proof -
  have pre: "early ph \<longrightarrow> cn_pinned_sid c = []" using assms(2) by (simp add: thread_ok_def)
  show ?thesis using assms(1,3,4) pre
    by (cases ph) (simp_all add: piece_follows refreshing_ok mid_holding)
qed

lemma receive_follows:
  "i \<noteq> [] \<Longrightarrow> \<not> t_holding (pipe_receive tk msg w c) i" "t_ok (pipe_receive tk msg w c)"
  "i \<noteq> [] \<Longrightarrow> \<not> t_holding (tcp_receive msg w c) i" "t_ok (tcp_receive msg w c)"
  by (auto simp: pipe_receive_def tcp_receive_def holding_simps Let_def split: res.splits)

lemma idle_holding [simp]: "holding Reading c i = False" "holding Closed c i = False"
  by (simp_all add: holding_def)

primrec client_ok :: "client \<Rightarrow> bool" where
  "client_ok Spawned = True"
| "client_ok (PipeClient ph c) = thread_ok ph c"
| "client_ok (TcpClient ph c) = thread_ok ph c"

primrec is_tcp :: "client \<Rightarrow> bool" where
  "is_tcp Spawned = False"
| "is_tcp (PipeClient ph c) = False"
| "is_tcp (TcpClient ph c) = True"

text \<open>
  No count exceeds the number of threads that hold the identifier, and as long as no pipe client
  has connected the two are equal.
\<close>

definition pins_ok :: "'s Daemon \<Rightarrow> bool" where
  "pins_ok d \<longleftrightarrow> list_all client_ok (d_clients d) \<and>
     (\<forall>i. i \<noteq> [] \<longrightarrow> count_at (pinned_counts (d_st d)) i \<le> holders i (d_clients d) \<and>
        (list_all is_tcp (d_clients d) \<longrightarrow> count_at (pinned_counts (d_st d)) i = holders i (d_clients d)))"

lemma length_filter_update:
  assumes "i < length xs"
  shows "int (length (filter P (xs[i := y]))) =
    int (length (filter P xs)) - of_bool (P (xs ! i)) + of_bool (P y)"
proof -
  have "length (filter P xs) = length (filter P (take i xs @ xs ! i # drop (Suc i) xs))"
    using id_take_nth_drop[OF assms] by simp
  then show ?thesis by (simp add: upd_conv_take_nth_drop[OF assms])
qed

lemma holders_update:
  "i < length cs \<Longrightarrow>
   holders k (cs[i := c]) = holders k cs - of_bool (holder k (cs ! i)) + of_bool (holder k c)"
  by (simp add: holders_def length_filter_update)

lemma holders_nonneg: "0 \<le> holders k cs"
  by (simp add: holders_def)

lemma list_all_updateD: "list_all P (cs[i := c]) \<Longrightarrow> i < length cs \<Longrightarrow> P (cs ! i) \<Longrightarrow> list_all P cs"
  by (metis list_all_length length_list_update nth_list_update_neq)

lemma list_all_update: "list_all P cs \<Longrightarrow> P c \<Longrightarrow> list_all P (cs[i := c])"
  by (metis list_all_length length_list_update nth_list_update_eq nth_list_update_neq)

lemma pins_ok_thread:
  assumes ok: "pins_ok d" and i: "i < length (d_clients d)"
    and same: "\<And>k. k \<noteq> [] \<Longrightarrow> follows k (d_st d) (holder k (d_clients d ! i)) (t_st t) (holder k (K (fst t) (snd (snd t))))"
    and new: "client_ok (K (fst t) (snd (snd t)))"
    and kind: "is_tcp (K (fst t) (snd (snd t))) \<Longrightarrow> is_tcp (d_clients d ! i)"
  shows "pins_ok (set_client i K t d)"
  unfolding pins_ok_def set_client_sel
proof (intro conjI allI impI)
  let ?cs = "d_clients d" and ?c = "K (fst t) (snd (snd t))"
  show "list_all client_ok (?cs[i := ?c])" using ok new by (simp add: pins_ok_def list_all_update)
  fix k :: string
  assume k: "k \<noteq> []"
  note up = holders_update[OF i, of k ?c] and f = same[OF k]
  have le: "count_at (pinned_counts (d_st d)) k \<le> holders k ?cs" using ok k by (simp add: pins_ok_def)
  show "count_at (pinned_counts (t_st t)) k \<le> holders k (?cs[i := ?c])"
    using f le up holders_nonneg[of k "?cs[i := ?c]"] by (auto simp: follows_def)
  assume all: "list_all is_tcp (?cs[i := ?c])"
  then have "is_tcp ?c" using i by (simp add: list_all_length) (metis nth_list_update_eq)
  then have "list_all is_tcp ?cs" using all i kind by (blast intro: list_all_updateD)
  then have "count_at (pinned_counts (d_st d)) k = holders k ?cs" using ok k by (simp add: pins_ok_def)
  then show "count_at (pinned_counts (t_st t)) k = holders k (?cs[i := ?c])"
    using f up holders_nonneg[of k ?cs] by (auto simp: follows_def)
qed

lemma pins_ok_client: "pins_ok d \<Longrightarrow> i < length (d_clients d) \<Longrightarrow> client_ok (d_clients d ! i)"
  by (simp add: pins_ok_def list_all_length)

lemma pins_ok_step:
  assumes "daemon_step cfg B d d'" and "store_wf (d_st d)" and "pins_ok d"
  shows "pins_ok d'"
  using assms
proof (induction rule: daemon_step.induct)
  case (accept d tk)
  then show ?case by (auto simp: accept_pipe_def pins_ok_def holders_def Let_def)
next
  case (accept_socket d)
  then show ?case by (auto simp: accept_tcp_def pins_ok_def holders_def holding_simps)
next
  case (clean d tk)
  then show ?case by (auto simp: cleanup_def pins_ok_def cleanup_sessions_def)
next
  case (start i d tk)
  then show ?case
    by (intro pins_ok_thread)
      (auto simp: open_close_st follows_same, auto simp: pipe_open_def holding_simps Let_def)
next
  case (pipe_arrival i d c tk msg)
  then show ?case by (intro pins_ok_thread) (auto simp: receive_follows intro!: follows_same)
next
  case (pipe_piece i d ph c tk)
  then have "thread_ok ph c" using pins_ok_client by fastforce
  then show ?case using pipe_piece pipe_step_follows[of "d_world d" ph c _ cfg B tk]
    by (intro pins_ok_thread) (auto simp: store_wf_def)
next
  case (pipe_lost i d c tk)
  then have n: "holders k ((d_clients d)[i := PipeClient Closed c]) = holders k (d_clients d)" for k
    by (simp add: holders_update)
  have "\<not> list_all is_tcp ((d_clients d)[i := PipeClient Closed c])"
    using pipe_lost(1) by (auto simp: list_all_length)
  moreover have "count_at (pinned_counts (unpin_section j (d_st d))) k \<le> count_at (pinned_counts (d_st d)) k" for j k
    using pipe_lost(3) by (auto simp: unpin_section_def store_wf_def)
  then have "k \<noteq> [] \<Longrightarrow> count_at (pinned_counts (unpin_section j (d_st d))) k \<le> holders k (d_clients d)" for j k
    using pipe_lost(4) order_trans by (fastforce simp: pins_ok_def)
  ultimately show ?case using pipe_lost(4) n
    by (auto simp: pins_ok_def open_close_st thread_ok_def pipe_close_def Let_def intro: list_all_update)
next
  case (tcp_arrival i d c msg)
  then show ?case by (intro pins_ok_thread) (auto simp: receive_follows intro!: follows_same)
next
  case (tcp_piece i d ph c tk)
  then have "thread_ok ph c" using pins_ok_client by fastforce
  then show ?case using tcp_piece tcp_step_follows[of "d_world d" ph c _ cfg B tk]
    by (intro pins_ok_thread) (auto simp: store_wf_def)
next
  case (tcp_lost i d c)
  then show ?case by (intro pins_ok_thread) (auto simp: holding_simps)
qed

section \<open>Reachable states\<close>

text \<open>The state \<open>main\<close> builds: nothing stored, no session, no client.\<close>

definition initial :: "'s Daemon \<Rightarrow> bool" where
  "initial d \<longleftrightarrow> snap_counter (d_st d) = 1 \<and> snaps (d_st d) = [] \<and> pinned_counts (d_st d) = [] \<and>
     lru_order (d_st d) = [] \<and> sessions (d_st d) = [] \<and> active_connections (d_st d) = 0 \<and> d_clients d = []"

lemma initial_ok: "initial d \<Longrightarrow> store_wf (d_st d)" "initial d \<Longrightarrow> pins_ok d"
  by (simp_all add: initial_def store_wf_def pins_ok_def count_at_def holders_def)

lemma run_wf:
  assumes "daemon_run cfg B n d d'" and "initial d" and "n < 2 ^ 64 - 1"
  shows "store_wf (d_st d')" and "roomy (d_st d') \<or> n = 2 ^ 64 - 2"
proof -
  have c: "unat (snap_counter (d_st d)) = 1" using assms(2) by (simp add: initial_def)
  have r: "later (d_st d) (d_st d')" "unat (snap_counter (d_st d')) \<le> 1 + n"
    using run_later[OF assms(1) initial_ok(1)[OF assms(2)]] assms(3) c by simp_all
  show "store_wf (d_st d')" using r(1) by (rule later_wf)
  show "roomy (d_st d') \<or> n = 2 ^ 64 - 2"
    using r(2) assms(3) by (auto simp: roomy_def word_less_nat_alt unsigned_minus_1_eq_mask mask_eq_exp_minus_1)
qed

text \<open>Anything a step keeps in well-formed states holds in every reachable state.\<close>

lemma run_invariant:
  assumes "daemon_run cfg B n d d'" and "initial d" and "n < 2 ^ 64 - 1" and "P d"
    and step: "\<And>e e'. store_wf (d_st e) \<Longrightarrow> P e \<Longrightarrow> daemon_step cfg B e e' \<Longrightarrow> P e'"
  shows "P d'"
  using assms(1-4)
proof (induction rule: daemon_run.induct)
  case (run_step n d d' d'')
  then have "store_wf (d_st d')" by (intro run_wf(1)[of cfg B n d d']) simp_all
  then show ?case using run_step step by simp
qed simp

lemma run_pins_ok: "daemon_run cfg B n d d' \<Longrightarrow> initial d \<Longrightarrow> n < 2 ^ 64 - 1 \<Longrightarrow> pins_ok d'"
  by (erule (2) run_invariant) (auto simp: initial_ok intro: pins_ok_step)

section \<open>Eviction ends\<close>

definition busy :: "client \<Rightarrow> bool" where
  "busy c \<longleftrightarrow> (\<exists>i. i \<noteq> [] \<and> holder i c)"

lemma holder_unique: "holder i c \<Longrightarrow> holder j c \<Longrightarrow> i = j"
  by (cases c) (auto simp: holding_def)

lemma sum_holders:
  "distinct is \<Longrightarrow> [] \<notin> set is \<Longrightarrow> sum_list (map (\<lambda>i. holders i cs) is) \<le> int (length (filter busy cs))"
proof (induction cs)
  case Nil
  then show ?case by (induction "is") (auto simp: holders_def)
next
  case (Cons c cs)
  have one: "sum_list (map (\<lambda>i. of_bool (holder i c)) is) \<le> (of_bool (busy c) :: int)"
    using Cons.prems
  proof (induction "is")
    case (Cons i js)
    show ?case
    proof (cases "holder i c")
      case True
      then have "\<forall>j \<in> set js. \<not> holder j c" using holder_unique Cons.prems by fastforce
      then have "sum_list (map (\<lambda>i. of_bool (holder i c)) js) = (0 :: int)" by (induction js) auto
      moreover have "busy c" using True Cons.prems by (auto simp: busy_def intro!: exI[of _ i])
      ultimately show ?thesis using True by simp
    qed (use Cons in simp)
  qed simp
  have "holders i (c # cs) = of_bool (holder i c) + holders i cs" for i by (simp add: holders_def)
  then show ?case using one Cons by (cases "busy c") (simp_all add: sum_list_addf)
qed

lemma pinned_le_busy:
  assumes "store_wf (d_st d)" "pins_ok d"
  shows "length (filter (is_pinned (d_st d)) (lru_order (d_st d))) \<le> length (filter busy (d_clients d))"
proof -
  let ?is = "filter (is_pinned (d_st d)) (lru_order (d_st d))"
  have "\<not> issued (d_st d) []" using make_snap_id_nonempty by (metis issued_def)
  then have ne: "[] \<notin> set ?is" using assms(1) by (auto simp: store_wf_def)
  have "1 \<le> holders i (d_clients d)" if "i \<in> set ?is" for i
  proof -
    have "i \<noteq> []" using that ne by blast
    then have "count_at (pinned_counts (d_st d)) i \<le> holders i (d_clients d)" using assms(2) by (simp add: pins_ok_def)
    then show ?thesis using that by simp
  qed
  then have "sum_list (map (\<lambda>i. 1) ?is) \<le> sum_list (map (\<lambda>i. holders i (d_clients d)) ?is)"
    by (intro sum_list_mono) auto
  then have "int (length ?is) \<le> sum_list (map (\<lambda>i. holders i (d_clients d)) ?is)"
    by (simp add: sum_list_triv)
  also have "\<dots> \<le> int (length (filter busy (d_clients d)))"
    using assms(1) ne by (intro sum_holders) (auto simp: store_wf_def)
  finally show ?thesis by simp
qed

section \<open>Invariants of single threads\<close>

text \<open>
  An invariant that speaks about one thread at a time, possibly with the help of a property of the
  shared state, holds in all reachable states once each piece of code keeps it.
\<close>

locale thread_invariant =
  fixes cfg :: ServerConfig and B :: "'s IBackend"
    and S :: "ServerState \<Rightarrow> bool" and P :: "client \<Rightarrow> bool"
  assumes spawned: "P Spawned"
    and connected: "P (TcpClient Reading new_conn)"
    and opened: "S (w_st w) \<Longrightarrow> pipe_open cfg tk w = (ph', w', c') \<Longrightarrow> S (w_st w') \<and> P (PipeClient ph' c')"
    and pipe_received: "S (w_st w) \<Longrightarrow> P (PipeClient Reading c) \<Longrightarrow>
      pipe_receive tk msg w c = (ph', w', c') \<Longrightarrow> S (w_st w') \<and> P (PipeClient ph' c')"
    and pipe_stepped: "S (w_st w) \<Longrightarrow> P (PipeClient ph c) \<Longrightarrow> 0 < rank ph \<Longrightarrow>
      pipe_step cfg B tk (ph, w, c) = (ph', w', c') \<Longrightarrow> S (w_st w') \<and> P (PipeClient ph' c')"
    and pipe_closed: "S (w_st w) \<Longrightarrow> P (PipeClient Reading c) \<Longrightarrow>
      pipe_close tk w c = (ph', w', c') \<Longrightarrow> S (w_st w') \<and> P (PipeClient ph' c')"
    and tcp_received: "S (w_st w) \<Longrightarrow> P (TcpClient Reading c) \<Longrightarrow>
      tcp_receive msg w c = (ph', w', c') \<Longrightarrow> S (w_st w') \<and> P (TcpClient ph' c')"
    and tcp_stepped: "S (w_st w) \<Longrightarrow> P (TcpClient ph c) \<Longrightarrow> 0 < rank ph \<Longrightarrow>
      tcp_step cfg B tk (ph, w, c) = (ph', w', c') \<Longrightarrow> S (w_st w') \<and> P (TcpClient ph' c')"
    and tcp_closed: "P (TcpClient Reading c) \<Longrightarrow> P (TcpClient Closed c)"
    and cleaned: "S st \<Longrightarrow> S (cleanup_sessions now st)"
begin

lemma set_client_keeps:
  assumes "list_all P (d_clients d)" and "S (t_st t) \<and> P (K (fst t) (snd (snd t)))"
  shows "S (d_st (set_client i K t d)) \<and> list_all P (d_clients (set_client i K t d))"
  using assms by (auto intro: list_all_update)

lemma client_at: "list_all P cs \<Longrightarrow> i < length cs \<Longrightarrow> cs ! i = c \<Longrightarrow> P c"
  by (auto simp: list_all_length)

lemma step_keeps:
  assumes "daemon_step cfg B d d'" and "S (d_st d) \<and> list_all P (d_clients d)"
  shows "S (d_st d') \<and> list_all P (d_clients d')"
  using assms
proof (induction rule: daemon_step.induct)
  case (accept d tk)
  then show ?case by (simp add: accept_pipe_def Let_def spawned)
next
  case (accept_socket d)
  then show ?case by (simp add: accept_tcp_def connected)
next
  case (clean d tk)
  then show ?case by (simp add: cleanup_def cleaned)
next
  case (start i d tk)
  then show ?case by (intro set_client_keeps opened[of "d_world d" tk]) simp_all
next
  case (pipe_arrival i d c tk msg)
  then show ?case
    by (intro set_client_keeps pipe_received[of "d_world d" c tk msg]) (auto dest: client_at)
next
  case (pipe_piece i d ph c tk)
  then show ?case
    by (intro set_client_keeps pipe_stepped[of "d_world d" ph c tk]) (auto dest: client_at)
next
  case (pipe_lost i d c tk)
  then show ?case
    by (intro set_client_keeps pipe_closed[of "d_world d" c tk]) (auto dest: client_at)
next
  case (tcp_arrival i d c msg)
  then show ?case
    by (intro set_client_keeps tcp_received[of "d_world d" c msg]) (auto dest: client_at)
next
  case (tcp_piece i d ph c tk)
  then show ?case
    by (intro set_client_keeps tcp_stepped[of "d_world d" ph c tk]) (auto dest: client_at)
next
  case (tcp_lost i d c)
  then show ?case by (intro set_client_keeps) (auto dest: client_at intro: tcp_closed)
qed

lemma run_keeps:
  "daemon_run cfg B n d d' \<Longrightarrow> S (d_st d) \<and> list_all P (d_clients d) \<Longrightarrow>
   S (d_st d') \<and> list_all P (d_clients d')"
  by (induction rule: daemon_run.induct) (simp_all add: step_keeps)

lemma initial_keeps:
  assumes "daemon_run cfg B n d d'" "initial d" "S (d_st d)" "i < length (d_clients d')"
  shows "P (d_clients d' ! i)"
  using run_keeps[OF assms(1)] assms(2-4) by (simp add: initial_def list_all_length)

end

section \<open>Whole messages as runs\<close>

lemma run_trans:
  assumes "daemon_run cfg B n e f" and "daemon_run cfg B m d e"
  shows "daemon_run cfg B (m + n) d f"
  using assms by (induction rule: daemon_run.induct) (auto intro: daemon_run.intros)

lemma run_one: "daemon_step cfg B d d' \<Longrightarrow> daemon_run cfg B 1 d d'"
  using run_step[OF run_refl] by fastforce

lemma set_client_set [simp]: "set_client i K t (set_client i K t' d) = set_client i K t d"
  by (simp add: set_client_def case_prod_beta)

lemma drive_idle: "(\<And>tk. step tk t = t) \<Longrightarrow> drive step tks t = t"
  by (subst drive.simps) (simp add: Let_def)

lemma drive_next:
  "rank (fst (step (tks (rank (fst t))) t)) < rank (fst t) \<Longrightarrow>
   drive step tks t = drive step tks (step (tks (rank (fst t))) t)"
  by (subst drive.simps) (simp add: Let_def)

lemma drive_is_run:
  assumes dec: "\<And>tk t. 0 < rank (fst t) \<Longrightarrow> rank (fst (step tk t)) < rank (fst t)"
    and idle: "\<And>tk t. rank (fst t) = 0 \<Longrightarrow> step tk t = t"
    and piece: "\<And>tk d i ph c. i < length (d_clients d) \<Longrightarrow> d_clients d ! i = K ph c \<Longrightarrow> 0 < rank ph \<Longrightarrow>
      daemon_step cfg B d (set_client i K (step tk (ph, d_world d, c)) d)"
    and "i < length (d_clients d)"
  shows "\<exists>n \<le> rank (fst t). daemon_run cfg B n (set_client i K t d) (set_client i K (drive step tks t) d)"
proof (induction "rank (fst t)" arbitrary: t rule: less_induct)
  case less
  show ?case
  proof (cases "rank (fst t) = 0")
    case True
    then have "drive step tks t = t" by (intro drive_idle idle)
    then show ?thesis using run_refl by (intro exI[of _ 0]) simp
  next
    case False
    let ?t = "step (tks (rank (fst t))) t"
    have lt: "rank (fst ?t) < rank (fst t)" using False dec by simp
    from less[OF lt] obtain n where n: "n \<le> rank (fst ?t)"
      "daemon_run cfg B n (set_client i K ?t d) (set_client i K (drive step tks ?t) d)" by blast
    have "daemon_step cfg B (set_client i K t d) (set_client i K ?t d)"
      using piece[of i "set_client i K t d" "fst t" "snd (snd t)" "tks (rank (fst t))"] assms(4) False by simp
    from run_trans[OF n(2) run_one[OF this]] show ?thesis
      using n(1) lt drive_next[where step = step and tks = tks and t = t] by (intro exI[of _ "1 + n"]) simp
  qed
qed

lemma step_idle:
  "rank (fst t) = 0 \<Longrightarrow> pipe_step cfg B tk t = t" "rank (fst t) = 0 \<Longrightarrow> tcp_step cfg B tk t = t"
  by (cases t; cases "fst t"; simp)+

lemma tcp_message_run:
  assumes "i < length (d_clients d)" "d_clients d ! i = TcpClient Reading c"
  shows "\<exists>n \<le> 11. daemon_run cfg B n d (set_client i TcpClient (tcp_message cfg B tks msg (d_world d) c) d)"
proof -
  let ?t = "tcp_receive msg (d_world d) c"
  have "rank (fst ?t) \<le> 10" by (auto simp: tcp_receive_def Let_def split: res.splits)
  moreover obtain n where "n \<le> rank (fst ?t)"
    "daemon_run cfg B n (set_client i TcpClient ?t d) (set_client i TcpClient (drive (tcp_step cfg B) tks ?t) d)"
    using drive_is_run[of "tcp_step cfg B" TcpClient cfg B i d ?t tks] tcp_step_rank step_idle tcp_piece assms
    by blast
  ultimately show ?thesis using run_trans[OF _ run_one[OF tcp_arrival[OF assms]]]
    by (intro exI[of _ "1 + n"]) (auto simp: tcp_message_def)
qed

lemma pipe_message_run:
  assumes "i < length (d_clients d)" "d_clients d ! i = PipeClient Reading c"
  shows "\<exists>n \<le> 11. daemon_run cfg B n d (set_client i PipeClient (pipe_message cfg B tks msg (d_world d) c) d)"
proof -
  let ?t = "pipe_receive (tks 11) msg (d_world d) c"
  have "rank (fst ?t) \<le> 10" by (auto simp: pipe_receive_def Let_def split: res.splits)
  moreover obtain n where "n \<le> rank (fst ?t)"
    "daemon_run cfg B n (set_client i PipeClient ?t d) (set_client i PipeClient (drive (pipe_step cfg B) tks ?t) d)"
    using drive_is_run[of "pipe_step cfg B" PipeClient cfg B i d ?t tks] pipe_step_rank step_idle pipe_piece assms
    by blast
  ultimately show ?thesis using run_trans[OF _ run_one[OF pipe_arrival[OF assms]]]
    by (intro exI[of _ "1 + n"]) (auto simp: pipe_message_def)
qed

end
