(* ===== verification/Daemon_Contract.thy ===== *)
theory Daemon_Contract
  imports Daemon Core_Contract
begin

text \<open>
  What the daemon guarantees to its clients, whatever the schedule of its threads: stored snapshots
  never change, pins are accounted for, a subscribed session has a baseline, a request that
  read-only mode refuses never reaches the engine, an unauthenticated pipe client gets nowhere, and
  the limits on connections and sessions, as far as they hold.
\<close>

section \<open>Read-only mode\<close>

primrec phase_request :: "phase \<Rightarrow> CoreRequest option" where
  "phase_request Reading = None"
| "phase_request Closed = None"
| "phase_request Hung = None"
| "phase_request Unpinning = None"
| "phase_request Sending = None"
| "phase_request (Committing s) = None"
| "phase_request Refreshing = None"
| "phase_request (Running req s old) = Some req"
| "phase_request (Choosing req s) = Some req"
| "phase_request (Pinning req) = Some req"
| "phase_request (Storing s) = None"
| "phase_request (Guarding req) = Some req"
| "phase_request (Subscribing s) = None"
| "phase_request (Routing req) = Some req"
| "phase_request (Entering req) = Some req"

text \<open>Past the guard, no thread of a read-only daemon works on a method the guard refuses.\<close>

definition past_guard :: "phase \<Rightarrow> bool" where
  "past_guard ph \<longleftrightarrow> 0 < rank ph \<and> rank ph \<le> 7"

definition phase_allowed :: "ServerConfig \<Rightarrow> phase \<Rightarrow> bool" where
  "phase_allowed cfg ph \<longleftrightarrow> (cfg_read_only cfg \<longrightarrow> past_guard ph \<longrightarrow>
     (case phase_request ph of Some req \<Rightarrow> \<not> write_method (req_method req) | None \<Rightarrow> True))"

primrec client_allowed :: "ServerConfig \<Rightarrow> client \<Rightarrow> bool" where
  "client_allowed cfg Spawned = True"
| "client_allowed cfg (PipeClient ph c) = phase_allowed cfg ph"
| "client_allowed cfg (TcpClient ph c) = phase_allowed cfg ph"

lemma allowed_simps [simp]:
  "phase_allowed cfg Reading" "phase_allowed cfg Closed" "phase_allowed cfg Hung" "phase_allowed cfg Unpinning"
  "phase_allowed cfg Sending" "phase_allowed cfg (Committing s)" "phase_allowed cfg Refreshing"
  "phase_allowed cfg (Storing s)" "phase_allowed cfg (Guarding req)" "phase_allowed cfg (Subscribing s)"
  "phase_allowed cfg (Routing req)" "phase_allowed cfg (Entering req)"
  by (simp_all add: phase_allowed_def past_guard_def)

lemma allowed_req:
  "phase_allowed cfg (Pinning req) \<longleftrightarrow> (cfg_read_only cfg \<longrightarrow> \<not> write_method (req_method req))"
  "phase_allowed cfg (Choosing req s) \<longleftrightarrow> (cfg_read_only cfg \<longrightarrow> \<not> write_method (req_method req))"
  "phase_allowed cfg (Running req s old) \<longleftrightarrow> (cfg_read_only cfg \<longrightarrow> \<not> write_method (req_method req))"
  by (simp_all add: phase_allowed_def past_guard_def)

lemma capture_then_phase:
  "(\<And>s. Q (k s)) \<Longrightarrow> Q Sending \<Longrightarrow> Q Hung \<Longrightarrow> Q (fst (capture_then B catch k w c))"
  by (auto simp: capture_then_def split: prod.splits res.splits)

lemma step_allowed:
  "phase_allowed cfg ph \<Longrightarrow> phase_allowed cfg (fst (pipe_step cfg B tk (ph, w, c)))"
  "phase_allowed cfg ph \<Longrightarrow> phase_allowed cfg (fst (tcp_step cfg B tk (ph, w, c)))"
  by (cases ph; auto simp: piece_defs tcp_piece_defs allowed_req case_prod_beta Let_def
      split: prod.splits option.splits res.splits)+

lemma receive_allowed:
  "phase_allowed cfg (fst (pipe_receive tk msg w c))" "phase_allowed cfg (fst (tcp_receive msg w c))"
  by (auto simp: pipe_receive_def tcp_receive_def Let_def split: res.splits)

interpretation guarded: thread_invariant cfg B "\<lambda>_. True" "client_allowed cfg" for cfg B
  using step_allowed receive_allowed
  by unfold_locales (auto simp: pipe_open_def pipe_close_def Let_def dest!: arg_cong[where f = fst] split: if_splits)

section \<open>Authentication of pipe clients\<close>

text \<open>
  With keys configured, or with \<open>--require-auth\<close>, a pipe thread starts unauthenticated, and no
  statement ever sets the flag: such a thread only lets \<open>hello\<close> through.
\<close>

definition locked :: "ServerConfig \<Rightarrow> bool" where
  "locked cfg \<longleftrightarrow> cfg_require_auth cfg \<or> cfg_auth_keys cfg \<noteq> []"

definition only_hello :: "phase \<Rightarrow> bool" where
  "only_hello ph \<longleftrightarrow>
     (case phase_request ph of Some req \<Rightarrow> req_method req = ''hello''
      | None \<Rightarrow> (\<forall>s. ph \<noteq> Storing s \<and> ph \<noteq> Subscribing s \<and> ph \<noteq> Committing s) \<and> ph \<noteq> Refreshing)"

primrec client_locked :: "ServerConfig \<Rightarrow> client \<Rightarrow> bool" where
  "client_locked cfg Spawned = True"
| "client_locked cfg (PipeClient ph c) =
     (locked cfg \<longrightarrow> \<not> cs_authenticated (cn_session c) \<and> only_hello ph)"
| "client_locked cfg (TcpClient ph c) = True"

lemma only_hello_simps [simp]:
  "only_hello Reading" "only_hello Closed" "only_hello Hung" "only_hello Unpinning" "only_hello Sending"
  "\<not> only_hello (Committing s)" "\<not> only_hello Refreshing" "\<not> only_hello (Storing s)" "\<not> only_hello (Subscribing s)"
  "only_hello (Running req s old) \<longleftrightarrow> req_method req = ''hello''"
  "only_hello (Choosing req s) \<longleftrightarrow> req_method req = ''hello''"
  "only_hello (Pinning req) \<longleftrightarrow> req_method req = ''hello''"
  "only_hello (Guarding req) \<longleftrightarrow> req_method req = ''hello''"
  "only_hello (Routing req) \<longleftrightarrow> req_method req = ''hello''"
  "only_hello (Entering req) \<longleftrightarrow> req_method req = ''hello''"
  by (auto simp: only_hello_def)

lemma catch_session [simp]:
  "cn_session (pipe_catch e c) = cn_session c" "cn_session (tcp_catch e c) = cn_session c"
  "cn_session (fail x y c) = cn_session c" "cn_session (succeed o' c) = cn_session c"
  "cn_session (pipe_late c) = cn_session c" "cn_session (tcp_late c) = cn_session c"
  by (simp_all add: pipe_catch_def tcp_catch_def fail_def succeed_def pipe_late_def tcp_late_def)

lemma section_auth [simp]:
  "cs_authenticated (fst (enter_session sid now session st)) = cs_authenticated session"
  "cs_authenticated (fst (snd (subscribe_section s session st))) = cs_authenticated session"
  "cs_authenticated (fst (unsubscribe_section session st)) = cs_authenticated session"
  "cs_authenticated (fst (terminate_section session st)) = cs_authenticated session"
  "cs_authenticated (fst (poll_section s session st)) = cs_authenticated session"
  by (auto simp: enter_session_def subscribe_section_def unsubscribe_section_def terminate_section_def
      poll_section_def case_prod_beta Let_def split: option.splits)

lemma pipe_step_auth:
  "cs_authenticated (cn_session (snd (snd (pipe_step cfg B tk (ph, w, c))))) = cs_authenticated (cn_session c)"
  by (cases ph) (auto simp: piece_defs case_prod_beta Let_def split: prod.splits option.splits res.splits)

lemma pipe_step_hello: "only_hello ph \<Longrightarrow> only_hello (fst (pipe_step cfg B tk (ph, w, c)))"
  by (cases ph) (auto simp: piece_defs case_prod_beta Let_def split: prod.splits option.splits res.splits)

lemma pipe_receive_auth:
  "cs_authenticated (cn_session (snd (snd (pipe_receive tk msg w c)))) = cs_authenticated (cn_session c)"
  "\<not> cs_authenticated (cn_session c) \<Longrightarrow> only_hello (fst (pipe_receive tk msg w c))"
  by (auto simp: pipe_receive_def Let_def split: res.splits)

lemma pipe_open_auth: "cs_authenticated (cn_session (snd (snd (pipe_open cfg tk w)))) \<longleftrightarrow> \<not> locked cfg"
  "fst (pipe_open cfg tk w) = Reading"
  by (auto simp: pipe_open_def locked_def new_conn_def new_client_session_def Let_def)

interpretation locked_out: thread_invariant cfg B "\<lambda>_. True" "client_locked cfg" for cfg B
proof unfold_locales
  fix w ph c tk ph' w' c'
  assume "client_locked cfg (PipeClient ph c)" "pipe_step cfg B tk (ph, w, c) = (ph', w', c')"
  then show "True \<and> client_locked cfg (PipeClient ph' c')"
    using pipe_step_auth[where cfg = cfg and B = B and tk = tk and ph = ph and w = w and c = c] pipe_step_hello[where cfg = cfg and B = B and tk = tk and ph = ph and w = w and c = c] by auto
next
  fix w c tk msg ph' w' c'
  assume "client_locked cfg (PipeClient Reading c)" "pipe_receive tk msg w c = (ph', w', c')"
  then show "True \<and> client_locked cfg (PipeClient ph' c')"
    using pipe_receive_auth[where tk = tk and msg = msg and w = w and c = c] by auto
next
  fix w tk ph' w' c'
  assume "pipe_open cfg tk w = (ph', w', c')"
  then show "True \<and> client_locked cfg (PipeClient ph' c')"
    using pipe_open_auth[where cfg = cfg and tk = tk and w = w] by auto
qed (auto simp: pipe_close_def Let_def)

section \<open>Subscriptions have a baseline\<close>

definition session_based :: "ClientSession \<Rightarrow> bool" where
  "session_based session \<longleftrightarrow> (cs_subscribed session \<longrightarrow> cs_last_snap_id session \<noteq> [])"

definition sessions_based :: "ServerState \<Rightarrow> bool" where
  "sessions_based st \<longleftrightarrow> (\<forall>p \<in> set (sessions st). ps_subscribed (snd p) \<longrightarrow> ps_last_snap_id (snd p) \<noteq> [])"

primrec client_based :: "client \<Rightarrow> bool" where
  "client_based Spawned = True"
| "client_based (PipeClient ph c) = session_based (cn_session c)"
| "client_based (TcpClient ph c) = session_based (cn_session c)"

lemma based_lookup:
  "sessions_based st \<Longrightarrow> map_of (sessions st) sid = Some ps \<Longrightarrow> ps_subscribed ps \<Longrightarrow> ps_last_snap_id ps \<noteq> []"
  by (force simp: sessions_based_def dest: map_of_SomeD)

lemma based_set:
  "sessions_based st \<Longrightarrow> (ps_subscribed ps \<longrightarrow> ps_last_snap_id ps \<noteq> []) \<Longrightarrow>
   sessions_based (st\<lparr>sessions := om_set sid ps (sessions st)\<rparr>)"
  using set_om_set[of sid ps "sessions st"] by (fastforce simp: sessions_based_def)

lemma based_persist:
  assumes "sessions_based st" "\<And>ps. (ps_subscribed ps \<longrightarrow> ps_last_snap_id ps \<noteq> []) \<Longrightarrow>
    ps_subscribed (f ps) \<longrightarrow> ps_last_snap_id (f ps) \<noteq> []"
  shows "sessions_based (persist sid f st)"
  unfolding persist_def using assms based_lookup[OF assms(1)]
  by (intro based_set assms) (auto simp: new_persistent_session_def split: option.splits)

lemma store_sessions: "sessions (snd (store_snapshot s st)) = sessions st" "fst (store_snapshot s st) \<noteq> []"
  by (simp_all add: store_snapshot_def Let_def)

lemma store_based: "sessions_based (snd (store_snapshot s st)) = sessions_based st"
  by (simp add: sessions_based_def store_sessions)

lemma evict_frame:
  assumes "evict st = Some st'"
  shows "sessions st' = sessions st \<and> active_connections st' = active_connections st \<and>
    max_sessions st' = max_sessions st \<and> max_connections st' = max_connections st \<and>
    max_snapshots st' = max_snapshots st"
  by (rule evict.raw_induct[where P = "\<lambda>st st'. sessions st' = sessions st \<and>
      active_connections st' = active_connections st \<and> max_sessions st' = max_sessions st \<and>
      max_connections st' = max_connections st \<and> max_snapshots st' = max_snapshots st", OF _ assms])
    (fastforce simp: Let_def split: if_splits)

lemma capture_frame:
  assumes "capture_section s st = Some (i, st')"
  shows "sessions st' = sessions st \<and> active_connections st' = active_connections st \<and>
    max_sessions st' = max_sessions st \<and> max_connections st' = max_connections st \<and>
    max_snapshots st' = max_snapshots st"
  using assms
  by (elim capture_run) (auto simp: store_snapshot_def Let_def dest!: evict_frame)

lemma enter_based:
  assumes "sessions_based st" "session_based session"
  shows "sessions_based (snd (enter_session sid now session st))" "session_based (fst (enter_session sid now session st))"
  using assms based_lookup[OF assms(1), of sid]
  by (auto simp: enter_session_def session_based_def new_persistent_session_def intro!: based_set split: option.splits)

lemma subscribe_based:
  assumes "sessions_based st"
  shows "sessions_based (snd (snd (subscribe_section s session st)))"
    "session_based (fst (snd (subscribe_section s session st)))"
  using assms
  by (auto simp: subscribe_section_def session_based_def store_sessions case_prod_beta Let_def store_based
      intro!: based_persist)

lemma poll_based:
  assumes "sessions_based st"
  shows "sessions_based (snd (poll_section s session st))" "session_based (fst (poll_section s session st))"
  using assms
  by (auto simp: poll_section_def session_based_def store_sessions case_prod_beta Let_def store_based
      intro!: based_persist)

lemma unsubscribe_based:
  assumes "sessions_based st"
  shows "sessions_based (snd (unsubscribe_section session st))" "session_based (fst (unsubscribe_section session st))"
  using assms by (auto simp: unsubscribe_section_def session_based_def intro!: based_persist)

lemma terminate_based:
  assumes "sessions_based st" "session_based session"
  shows "sessions_based (snd (terminate_section session st))" "session_based (fst (terminate_section session st))"
  using assms by (auto simp: terminate_section_def session_based_def sessions_based_def om_erase_def)

lemma pins_based:
  "pin_section i st = Some (s, st') \<Longrightarrow> sessions_based st' = sessions_based st"
  "tcp_pin_section i st = Some (s, st') \<Longrightarrow> sessions_based st' = sessions_based st"
  "sessions_based (unpin_section i st) = sessions_based st"
  "capture_section s st = Some (i, st') \<Longrightarrow> sessions_based st' = sessions_based st"
  by (auto simp: pin_section_def tcp_pin_section_def unpin_section_def sessions_based_def
      dest!: capture_frame split: option.splits)

lemmas section_based = enter_based subscribe_based poll_based unsubscribe_based terminate_based pins_based

lemma step_based:
  assumes "sessions_based (w_st w)" "session_based (cn_session c)"
  shows "sessions_based (t_st (pipe_step cfg B tk (ph, w, c))) \<and>
      session_based (cn_session (snd (snd (pipe_step cfg B tk (ph, w, c)))))"
    and "sessions_based (t_st (tcp_step cfg B tk (ph, w, c))) \<and>
      session_based (cn_session (snd (snd (tcp_step cfg B tk (ph, w, c)))))"
  using assms
  by (cases ph; auto simp: piece_defs tcp_piece_defs tcp_enter_session_def case_prod_beta Let_def section_based
      split: prod.splits option.splits res.splits)+

lemma receive_based:
  "session_based (cn_session c) \<Longrightarrow> session_based (cn_session (snd (snd (pipe_receive tk msg w c))))"
  "session_based (cn_session (snd (snd (tcp_receive msg w c))))"
  by (auto simp: pipe_receive_def tcp_receive_def session_based_def new_client_session_def Let_def split: res.splits)

interpretation based: thread_invariant cfg B sessions_based client_based for cfg B
proof unfold_locales
  fix w ph c tk ph' w' c'
  assume "sessions_based (w_st w)" "client_based (PipeClient ph c)" "pipe_step cfg B tk (ph, w, c) = (ph', w', c')"
  then show "sessions_based (w_st w') \<and> client_based (PipeClient ph' c')"
    using step_based(1)[of w c cfg B tk ph] by auto
next
  fix w ph c tk ph' w' c'
  assume "sessions_based (w_st w)" "client_based (TcpClient ph c)" "tcp_step cfg B tk (ph, w, c) = (ph', w', c')"
  then show "sessions_based (w_st w') \<and> client_based (TcpClient ph' c')"
    using step_based(2)[of w c cfg B tk ph] by auto
next
  fix w c tk msg ph' w' c'
  assume "sessions_based (w_st w)" "client_based (PipeClient Reading c)" "pipe_receive tk msg w c = (ph', w', c')"
  then show "sessions_based (w_st w') \<and> client_based (PipeClient ph' c')"
    using receive_based(1)[where c = c and tk = tk and msg = msg and w = w] receive_st(1)[of tk msg w c] by auto
next
  fix w c msg ph' w' c'
  assume "sessions_based (w_st w)" "tcp_receive msg w c = (ph', w', c')"
  then show "sessions_based (w_st w') \<and> client_based (TcpClient ph' c')"
    using receive_based(2)[where c = c and msg = msg and w = w] receive_st(2)[of msg w c] by auto
next
  fix w tk ph' w' c'
  assume "sessions_based (w_st w)" "pipe_open cfg tk w = (ph', w', c')"
  then show "sessions_based (w_st w') \<and> client_based (PipeClient ph' c')"
    by (auto simp: pipe_open_def session_based_def sessions_based_def new_conn_def new_client_session_def Let_def
        split: if_splits)
next
  fix w c tk ph' w' c'
  assume "sessions_based (w_st w)" "client_based (PipeClient Reading c)" "pipe_close tk w c = (ph', w', c')"
  then show "sessions_based (w_st w') \<and> client_based (PipeClient ph' c')"
    using pins_based(3)[of "cn_pinned_sid c" "w_st w"] by (auto simp: pipe_close_def sessions_based_def Let_def)
qed (auto simp: session_based_def sessions_based_def new_conn_def new_client_session_def cleanup_sessions_def)

section \<open>Counting connections\<close>

primrec live :: "client \<Rightarrow> bool" where
  "live Spawned = False"
| "live (PipeClient ph c) = (ph \<noteq> Closed)"
| "live (TcpClient ph c) = False"

definition counted :: "'s Daemon \<Rightarrow> bool" where
  "counted d \<longleftrightarrow> active_connections (d_st d) = int (length (filter live (d_clients d)))"

lemma section_active [simp]:
  "active_connections (snd (enter_session sid now session st)) = active_connections st"
  "active_connections (snd (snd (subscribe_section s session st))) = active_connections st"
  "active_connections (snd (unsubscribe_section session st)) = active_connections st"
  "active_connections (snd (terminate_section session st)) = active_connections st"
  "active_connections (snd (poll_section s session st)) = active_connections st"
  "active_connections (unpin_section i st) = active_connections st"
  "active_connections (cleanup_sessions now st) = active_connections st"
  by (auto simp: enter_session_def subscribe_section_def unsubscribe_section_def terminate_section_def
      poll_section_def persist_def store_snapshot_def unpin_section_def cleanup_sessions_def Let_def
      split: option.splits)

lemma pins_active:
  "pin_section i st = Some (s, st') \<Longrightarrow> active_connections st' = active_connections st"
  "tcp_pin_section i st = Some (s, st') \<Longrightarrow> active_connections st' = active_connections st"
  by (auto simp: pin_section_def tcp_pin_section_def split: option.splits)

lemma step_active:
  "active_connections (t_st (pipe_step cfg B tk (ph, w, c))) = active_connections (w_st w)"
  "active_connections (t_st (tcp_step cfg B tk (ph, w, c))) = active_connections (w_st w)"
  by (cases ph; auto simp: piece_defs tcp_piece_defs tcp_enter_session_def case_prod_beta Let_def
      dest: capture_frame pins_active split: prod.splits option.splits res.splits)+

lemma step_open: "0 < rank ph \<Longrightarrow> fst (pipe_step cfg B tk (ph, w, c)) \<noteq> Closed"
  by (cases ph) (auto simp: piece_defs case_prod_beta Let_def split: prod.splits option.splits res.splits)

lemma receive_open: "fst (pipe_receive tk msg w c) \<noteq> Closed"
  by (auto simp: pipe_receive_def Let_def split: res.splits)

lemma counted_update:
  assumes "counted d" "i < length (d_clients d)"
    and "active_connections (t_st t) = active_connections (d_st d) -
      of_bool (live (d_clients d ! i)) + of_bool (live (K (fst t) (snd (snd t))))"
  shows "counted (set_client i K t d)"
  using assms by (simp add: counted_def length_filter_update)

lemma counted_step: "daemon_step cfg B d d' \<Longrightarrow> counted d \<Longrightarrow> counted d'"
proof (induction rule: daemon_step.induct)
  case (start i d tk)
  then show ?case by (intro counted_update) (auto simp: open_close_st pipe_open_auth)
next
  case (pipe_arrival i d c tk msg)
  then show ?case by (intro counted_update) (auto simp: receive_open)
next
  case (pipe_piece i d ph c tk)
  then show ?case by (intro counted_update) (auto simp: step_active step_open)
next
  case (pipe_lost i d c tk)
  then show ?case by (intro counted_update) (auto simp: open_close_st pipe_close_def Let_def)
next
  case (tcp_arrival i d c msg)
  then show ?case by (intro counted_update) auto
next
  case (tcp_piece i d ph c tk)
  then show ?case by (intro counted_update) (auto simp: step_active)
next
  case (tcp_lost i d c)
  then show ?case by (intro counted_update) auto
qed (simp_all add: counted_def accept_pipe_def accept_tcp_def cleanup_def Let_def)

lemma initial_counted: "initial d \<Longrightarrow> counted d"
  by (simp add: initial_def counted_def)

lemma run_counted: "daemon_run cfg B n d d' \<Longrightarrow> initial d \<Longrightarrow> counted d'"
  by (induction rule: daemon_run.induct) (auto simp: initial_counted intro: counted_step)

section \<open>Whole messages\<close>

text \<open>What every piece keeps holds when the thread is done with its message.\<close>

lemma drive_keeps:
  assumes "I t" and dec: "\<And>tk t. 0 < rank (fst t) \<Longrightarrow> rank (fst (step tk t)) < rank (fst t)"
    and keep: "\<And>tk t. I t \<Longrightarrow> 0 < rank (fst t) \<Longrightarrow> I (step tk t)"
    and idle: "\<And>tk t. rank (fst t) = 0 \<Longrightarrow> step tk t = t"
  shows "I (drive step tks t) \<and> rank (fst (drive step tks t)) = 0"
  using assms(1)
proof (induction "rank (fst t)" arbitrary: t rule: less_induct)
  case less
  show ?case
  proof (cases "rank (fst t) = 0")
    case True
    then show ?thesis using less.prems by (simp add: drive_idle idle)
  next
    case False
    let ?t = "step (tks (rank (fst t))) t"
    have lt: "rank (fst ?t) < rank (fst t)" using False dec by simp
    then show ?thesis
      using less.hyps[OF lt] keep[OF less.prems] False drive_next[where step = step and tks = tks and t = t] by simp
  qed
qed

lemma tcp_drive_keeps:
  assumes "I t" and "\<And>tk t. I t \<Longrightarrow> 0 < rank (fst t) \<Longrightarrow> I (tcp_step cfg B tk t)"
  shows "I (drive (tcp_step cfg B) tks t) \<and> rank (fst (drive (tcp_step cfg B) tks t)) = 0"
  by (rule drive_keeps) (simp_all add: assms tcp_step_rank step_idle)

lemma pipe_drive_keeps:
  assumes "I t" and "\<And>tk t. I t \<Longrightarrow> 0 < rank (fst t) \<Longrightarrow> I (pipe_step cfg B tk t)"
  shows "I (drive (pipe_step cfg B) tks t) \<and> rank (fst (drive (pipe_step cfg B) tks t)) = 0"
  by (rule drive_keeps) (simp_all add: assms pipe_step_rank step_idle)

subsection \<open>Sessions of other clients\<close>

text \<open>The thread works on none of the sessions but its own.\<close>

definition apart :: "string \<Rightarrow> PersistentSession option \<Rightarrow> 's thread \<Rightarrow> bool" where
  "apart sid ps t \<longleftrightarrow> om_wf (sessions (t_st t)) \<and> map_of (sessions (t_st t)) sid = ps \<and>
     cs_id (cn_session (snd (snd t))) \<noteq> sid \<and> sid \<noteq> [] \<and>
     (\<forall>req. fst t = Entering req \<longrightarrow> get_str (req_params req) ''session_id'' \<noteq> Some sid)"

lemma section_ids [simp]:
  "cs_id (fst (enter_session sid now session st)) = sid"
  "cs_id (fst (snd (subscribe_section s session st))) = cs_id session"
  "cs_id (fst (unsubscribe_section session st)) = cs_id session"
  "cs_id (fst (poll_section s session st)) = cs_id session"
  "cs_id (fst (terminate_section session st)) = []"
  by (auto simp: enter_session_def subscribe_section_def unsubscribe_section_def poll_section_def
      terminate_section_def case_prod_beta Let_def split: option.splits)

lemma section_sessions:
  assumes "om_wf (sessions st)"
  shows "om_wf (sessions (snd (enter_session k now session st)))"
    "sid \<noteq> k \<Longrightarrow> map_of (sessions (snd (enter_session k now session st))) sid = map_of (sessions st) sid"
    "om_wf (sessions (snd (snd (subscribe_section s session st))))"
    "sid \<noteq> cs_id session \<Longrightarrow>
      map_of (sessions (snd (snd (subscribe_section s session st)))) sid = map_of (sessions st) sid"
    "om_wf (sessions (snd (unsubscribe_section session st)))"
    "sid \<noteq> cs_id session \<Longrightarrow>
      map_of (sessions (snd (unsubscribe_section session st))) sid = map_of (sessions st) sid"
    "om_wf (sessions (snd (poll_section s session st)))"
    "sid \<noteq> cs_id session \<Longrightarrow>
      map_of (sessions (snd (poll_section s session st))) sid = map_of (sessions st) sid"
    "om_wf (sessions (snd (terminate_section session st)))"
    "sid \<noteq> cs_id session \<Longrightarrow>
      map_of (sessions (snd (terminate_section session st))) sid = map_of (sessions st) sid"
  using assms
  by (auto simp: enter_session_def subscribe_section_def unsubscribe_section_def poll_section_def
      terminate_section_def persist_def store_snapshot_def omap_simps Let_def split: option.splits)

lemma pins_sessions:
  "pin_section i st = Some (s, st') \<Longrightarrow> sessions st' = sessions st"
  "tcp_pin_section i st = Some (s, st') \<Longrightarrow> sessions st' = sessions st"
  "sessions (unpin_section i st) = sessions st"
  by (auto simp: pin_section_def tcp_pin_section_def unpin_section_def split: option.splits)

lemma step_apart:
  "apart sid ps t \<Longrightarrow> apart sid ps (pipe_step cfg B tk t)"
  "apart sid ps t \<Longrightarrow> apart sid ps (tcp_step cfg B tk t)"
  by (cases t; cases "fst t"; auto simp: apart_def piece_defs tcp_piece_defs tcp_enter_session_def
      case_prod_beta Let_def section_sessions pins_sessions
      dest: capture_frame pins_sessions(1,2) split: prod.splits option.splits res.splits)+

subsection \<open>Answers\<close>

text \<open>The pinned snapshots and the new one fit, so a capture ends.\<close>

definition fits :: "ServerState \<Rightarrow> bool" where
  "fits st \<longleftrightarrow> om_wf (pinned_counts st) \<and>
     length (filter (is_pinned st) (lru_order st @ [make_snap_id (snap_counter st)])) \<le> unat (max_snapshots st)"

lemma fits_capture: "fits st \<Longrightarrow> \<exists>i st'. capture_section s st = Some (i, st')"
proof -
  assume "fits st"
  then have "evict (snd (store_snapshot s st)) \<noteq> None"
    by (subst evict_iff) (simp_all add: fits_def store_snapshot_def Let_def)
  then show ?thesis by (auto simp: capture_section_def case_prod_beta)
qed

text \<open>
  The thread is on its way to exactly one more response: nothing it will still run can hang, and
  \<open>sent\<close> is what it had sent when the message came in.
\<close>

definition answering_thread :: "string list \<Rightarrow> FakeBackend thread \<Rightarrow> bool" where
  "answering_thread sent t \<longleftrightarrow> (case t of (ph, w, c) \<Rightarrow>
     ph \<noteq> Hung \<and> ph \<noteq> Closed \<and>
     (if ph = Reading \<or> ph = Unpinning then \<exists>out. cn_sent c = sent @ [out] else cn_sent c = sent) \<and>
     (\<forall>req. phase_request ph = Some req \<longrightarrow> params_in_range (req_params req)) \<and>
     (5 \<le> rank ph \<longrightarrow> (\<forall>snap h. fst (fake_get_window_tree snap h (w_backend w)) \<noteq> Stuck)) \<and>
     ((\<exists>s. ph = Storing s) \<or> 8 \<le> rank ph \<longrightarrow> fits (w_st w)))"

lemma fits_sections:
  "fits (snd (enter_session sid now session st)) = fits st"
  "fits (snd (terminate_section session st)) = fits st"
  by (auto simp: fits_def enter_session_def terminate_section_def split: option.splits)

lemma catch_sent [simp]:
  "cn_sent (pipe_catch e c) = cn_sent c" "cn_sent (tcp_catch e c) = cn_sent c"
  "cn_sent (fail x y c) = cn_sent c" "cn_sent (succeed o' c) = cn_sent c"
  "cn_sent (pipe_late c) = cn_sent c" "cn_sent (tcp_late c) = cn_sent c"
  by (simp_all add: pipe_catch_def tcp_catch_def fail_def succeed_def pipe_late_def tcp_late_def)

lemma fake_capture_then:
  "capture_then fake_backend catch k w c = (k (fake_snapshot (w_backend w)), w, c)"
  by (simp add: capture_then_def fake_capture_snapshot_def reads_def)

lemma run_core_answers:
  assumes "params_in_range (req_params req)" "\<forall>snap h. fst (fake_get_window_tree snap h (w_backend w)) \<noteq> Stuck"
    and "cn_sent (late c) = cn_sent c"
  shows "\<exists>ph w' c'. run_core late catch cfg fake_backend tk req snap old w c = (ph, w', c') \<and>
    (ph = Refreshing \<or> ph = Sending) \<and> cn_sent c' = cn_sent c"
proof -
  obtain r b lg where "handle fake_backend (engine cfg tk) req snap old (w_backend w, w_log w) = (Ok r, b, lg)"
    using fake_handle_answers[of req snap "w_backend w" "engine cfg tk" old "w_log w"]
      handle_no_throw[of fake_backend "engine cfg tk" req snap old "(w_backend w, w_log w)"] assms
    by (cases "handle fake_backend (engine cfg tk) req snap old (w_backend w, w_log w)";
        cases "fst (handle fake_backend (engine cfg tk) req snap old (w_backend w, w_log w))")
      (auto simp: answers_def)
  then show ?thesis using assms(3) by (cases "tk_timeout tk") (auto simp: run_core_def Let_def)
qed

lemma step_answering:
  assumes "answering_thread sent t" "0 < rank (fst t)"
  shows "answering_thread sent (pipe_step cfg fake_backend tk t)"
    and "answering_thread sent (tcp_step cfg fake_backend tk t)"
proof -
  obtain ph w c where t: "t = (ph, w, c)" by (cases t)
  consider (run) req snap old where "ph = Running req snap old" | (store) s where "ph = Storing s"
    | (other) "\<forall>req snap old. ph \<noteq> Running req snap old" "\<forall>s. ph \<noteq> Storing s" by blast
  then have "answering_thread sent (pipe_step cfg fake_backend tk t) \<and> answering_thread sent (tcp_step cfg fake_backend tk t)"
  proof cases
    case run
    then have a: "params_in_range (req_params req)" "\<forall>snap h. fst (fake_get_window_tree snap h (w_backend w)) \<noteq> Stuck"
      "cn_sent c = sent" using assms t by (simp_all add: answering_thread_def)
    show ?thesis
      using run_core_answers[OF a(1,2), of pipe_late c pipe_catch cfg tk snap old]
        run_core_answers[OF a(1,2), of tcp_late c tcp_catch cfg tk snap old] a(3)
      by (auto simp: t run answering_thread_def)
  next
    case store
    then show ?thesis using assms t fits_capture[of "w_st w" s]
      by (auto simp: answering_thread_def do_store_def)
  next
    case other
    then show ?thesis using assms unfolding t
      by (cases ph) (auto simp: answering_thread_def fake_capture_then pipe_session_def tcp_session_def
          tcp_enter_session_def pipe_route_def tcp_route_def do_subscribe_def unsubscribed_def guard_def
          pipe_pin_def tcp_pin_def choose_old_def do_commit_def send_response_def do_unpin_def
          case_prod_beta Let_def fits_sections split: option.splits)
  qed
  then show "answering_thread sent (pipe_step cfg fake_backend tk t)"
    and "answering_thread sent (tcp_step cfg fake_backend tk t)" by simp_all
qed

lemma answering_done: "answering_thread sent t \<Longrightarrow> rank (fst t) = 0 \<Longrightarrow>
  \<exists>w' c' out. t = (Reading, w', c') \<and> cn_sent c' = sent @ [out]"
  by (cases t; cases "fst t") (auto simp: answering_thread_def)

lemma parse_request_answers: "parse_request_json msg \<noteq> Stuck"
  using parse_answers[of msg]
  by (auto simp: parse_request_json_def rthen_def answers_def split: res.splits Value.splits option.splits)

lemma run_fits:
  assumes "initial d0" and "daemon_run cfg B n d0 d" and "n < 2 ^ 64 - 1"
    and "length (filter busy (d_clients d)) < unat (max_snapshots (d_st d))"
  shows "fits (d_st d)"
proof -
  have wf: "store_wf (d_st d)" by (rule run_wf(1)[OF assms(2,1,3)])
  have "length (filter (is_pinned (d_st d)) (lru_order (d_st d))) \<le> length (filter busy (d_clients d))"
    using wf run_pins_ok[OF assms(2,1,3)] by (rule pinned_le_busy)
  then show ?thesis using assms(4) wf by (simp add: fits_def store_wf_def)
qed

lemma pipe_answered:
  assumes "fits (w_st w)" and "\<forall>snap h. fst (fake_get_window_tree snap h (w_backend w)) \<noteq> Stuck"
    and "\<forall>req. parse_request_json msg = Ok req \<longrightarrow> params_in_range (req_params req)"
  shows "\<exists>w' c' out. pipe_message cfg fake_backend tks msg w c = (Reading, w', c') \<and> cn_sent c' = cn_sent c @ [out]"
proof -
  let ?I = "answering_thread (cn_sent c)"
  have "?I (pipe_receive (tks 11) msg w c)" using assms parse_request_answers[of msg]
    by (auto simp: answering_thread_def pipe_receive_def w_logged_def Let_def split: res.splits)
  then have "?I (pipe_message cfg fake_backend tks msg w c) \<and> rank (fst (pipe_message cfg fake_backend tks msg w c)) = 0"
    unfolding pipe_message_def by (rule pipe_drive_keeps) (rule step_answering(1))
  then show ?thesis using answering_done by blast
qed

lemma tcp_answered:
  assumes "fits (w_st w)" and "\<forall>snap h. fst (fake_get_window_tree snap h (w_backend w)) \<noteq> Stuck"
    and "\<forall>req. parse_request_json msg = Ok req \<longrightarrow> params_in_range (req_params req)"
  shows "\<exists>w' c' out. tcp_message cfg fake_backend tks msg w c = (Reading, w', c') \<and> cn_sent c' = cn_sent c @ [out]"
proof -
  let ?I = "answering_thread (cn_sent c)"
  have "?I (tcp_receive msg w c)" using assms parse_request_answers[of msg]
    by (auto simp: answering_thread_def tcp_receive_def Let_def split: res.splits)
  then have "?I (tcp_message cfg fake_backend tks msg w c) \<and> rank (fst (tcp_message cfg fake_backend tks msg w c)) = 0"
    unfolding tcp_message_def by (rule tcp_drive_keeps) (rule step_answering(2))
  then show ?thesis using answering_done by blast
qed

text \<open>The limit of the store is set at the start and never changed.\<close>

lemma section_limit: "section_step st st' \<Longrightarrow> max_snapshots st' = max_snapshots st"
  by (induction rule: section_step.induct)
    (auto simp: enter_session_def subscribe_section_def unsubscribe_section_def terminate_section_def pin_section_def
      tcp_pin_section_def unpin_section_def poll_section_def cleanup_sessions_def persist_def store_snapshot_def Let_def
      dest: capture_frame split: option.splits prod.splits if_splits)

lemma run_limit: "daemon_run cfg B n d d' \<Longrightarrow> max_snapshots (d_st d') = max_snapshots (d_st d)"
  by (induction rule: daemon_run.induct) (simp_all add: section_limit[OF daemon_step_section])

end
