(* ===== verification/Cli.thy ===== *)
theory Cli
  imports Core_Json
begin

text \<open>
  The command line client, \<open>clients/cli/src/cli.cpp\<close>: the text of a request.
\<close>

section \<open>Requests\<close>

definition make_req :: "string \<Rightarrow> string \<Rightarrow> Object \<Rightarrow> string" where
  "make_req i method params =
     dumps (Obj (obj_of [(''id'', Str i), (''method'', Str method), (''params'', Obj params)]))"

text \<open>What the client sends is what the daemon reads.\<close>

lemma parse_make_req:
  assumes "wire_value (Obj params)"
  shows "parse_request_json (make_req i method params) = Ok \<lparr>req_id = i, req_method = method, req_params = params\<rparr>"
proof -
  let ?o = "obj_of [(''id'', Str i), (''method'', Str method), (''params'', Obj params)]"
  have "wire_value (Obj ?o)" using assms by (intro wire_obj_of) auto
  then have "parse (make_req i method params) = Ok (Obj ?o)" by (simp add: make_req_def wire_round_trip)
  then show ?thesis by (simp add: parse_request_json_def)
qed

end
