(* ===== verification/Daemon_Properties.thy ===== *)
theory Daemon_Properties
  imports Daemon_Contract Cli
begin

text \<open>
  The properties of the daemon, each followed by an instance. The instances run the daemon on the
  deterministic backend with one window: a client connects over TCP or the pipe and sends requests
  made by the command line client.
\<close>

section \<open>A small run\<close>

definition sample_config :: ServerConfig where
  "sample_config = \<lparr>cfg_read_only = False, cfg_require_auth = False, cfg_admin_logs = False, cfg_auth_keys = []\<rparr>"

definition sample_tick :: Tick where
  "sample_tick = \<lparr>tk_now = 0, tk_timestamp = ''t'', tk_elapsed = 0, tk_duration = 1, tk_timeout = False\<rparr>"

definition sample_world :: "FakeBackend World" where
  "sample_world = \<lparr>w_st = new_server_state, w_backend = sample_state, w_log = new_logger\<rparr>"

definition sample_daemon :: "FakeBackend Daemon" where
  "sample_daemon = \<lparr>d_world = sample_world, d_clients = []\<rparr>"

lemma sample_initial: "initial sample_daemon"
  by (simp add: initial_def sample_daemon_def sample_world_def new_server_state_def)

definition capture_text :: string where
  "capture_text = make_req ''1'' ''snapshot.capture'' []"

lemma parse_capture: "parse_request_json capture_text = Ok \<lparr>req_id = ''1'', req_method = ''snapshot.capture'', req_params = []\<rparr>"
  by (simp add: capture_text_def parse_make_req wire_obj)

lemma drive_tcp:
  "drive (tcp_step cfg B) tks (ph, w, c) =
   (if rank ph = 0 then (ph, w, c) else drive (tcp_step cfg B) tks (tcp_step cfg B (tks (rank ph)) (ph, w, c)))"
  using drive_next[where step = "tcp_step cfg B" and tks = tks and t = "(ph, w, c)"]
    tcp_step_rank[of "(ph, w, c)" cfg B]
  by (cases "rank ph = 0") (simp_all add: drive_idle step_idle)

lemma drive_pipe:
  "drive (pipe_step cfg B) tks (ph, w, c) =
   (if rank ph = 0 then (ph, w, c) else drive (pipe_step cfg B) tks (pipe_step cfg B (tks (rank ph)) (ph, w, c)))"
  using drive_next[where step = "pipe_step cfg B" and tks = tks and t = "(ph, w, c)"]
    pipe_step_rank[of "(ph, w, c)" cfg B]
  by (cases "rank ph = 0") (simp_all add: drive_idle step_idle)

lemma capture_first:
  "capture_section s new_server_state = Some (make_snap_id 1, new_server_state\<lparr>snap_counter := 2,
      snaps := [(make_snap_id 1, s)], lru_order := [make_snap_id 1]\<rparr>)"
  by (simp add: capture_section_def store_snapshot_def Let_def evict_stop excess_def)
    (simp add: new_server_state_def om_emplace_def evict_stop excess_def)

lemma sample_capture:
  "\<exists>c. tcp_message sample_config fake_backend tks capture_text sample_world new_conn =
   (Reading,
    sample_world\<lparr>w_st := new_server_state\<lparr>snap_counter := 2,
      snaps := [(make_snap_id 1, fake_snapshot sample_state)], lru_order := [make_snap_id 1]\<rparr>\<rparr>, c)"
  by (simp add: tcp_message_def tcp_receive_def parse_capture drive_tcp tcp_session_def tcp_route_def
      guard_def sample_config_def get_str_def fake_capture_then do_store_def send_response_def do_unpin_def
      capture_first unpin_section_def new_conn_def succeed_def sample_world_def Let_def)

lemma sample_run:
  "\<exists>n d. n \<le> 12 \<and> daemon_run sample_config fake_backend n sample_daemon d \<and>
     find_snap (d_st d) (make_snap_id 1) = Some (fake_snapshot sample_state) \<and>
     (\<exists>c. d_clients d = [TcpClient Reading c])"
proof -
  let ?d = "accept_tcp sample_daemon"
  have cs: "d_clients ?d = [TcpClient Reading new_conn]" "d_world ?d = sample_world"
    by (simp_all add: accept_tcp_def sample_daemon_def)
  obtain n where n: "n \<le> 11" "daemon_run sample_config fake_backend n ?d
      (set_client 0 TcpClient (tcp_message sample_config fake_backend (\<lambda>_. sample_tick) capture_text (d_world ?d) new_conn) ?d)"
    using tcp_message_run[of 0 ?d new_conn sample_config fake_backend "\<lambda>_. sample_tick" capture_text] cs by auto
  have "daemon_run sample_config fake_backend 1 sample_daemon ?d"
    by (rule run_one) (rule daemon_step.accept_socket)
  from run_trans[OF n(2) this] n(1) show ?thesis
    using sample_capture[of "\<lambda>_. sample_tick"] cs by (fastforce intro!: exI[of _ "1 + n"])
qed

section \<open>Snapshots\<close>

text \<open>C3: a stored snapshot never changes. Whatever the threads do in whatever order, an identifier
  that named a snapshot in a reachable state names the same snapshot, or none, in every later state,
  and the store stays well formed: its queue lists exactly the stored identifiers, once each.
  The bound is the range of the 64-bit identifier counter.\<close>

theorem snapshots_immutable:
  assumes "initial d0" and "daemon_run cfg B m d0 d" and "daemon_run cfg B n d d'" and "m + n < 2 ^ 64 - 1"
    and "find_snap (d_st d) i = Some s"
  shows "(find_snap (d_st d') i = Some s \<or> find_snap (d_st d') i = None) \<and> store_wf (d_st d')"
proof -
  have wf0: "store_wf (d_st d0)" and c0: "unat (snap_counter (d_st d0)) = 1"
    using assms(1) by (simp_all add: initial_ok(1)) (simp add: initial_def)
  have "unat (snap_counter (d_st d)) \<le> 1 + m" "store_wf (d_st d)"
    using run_later[OF assms(2) wf0] assms(4) c0 later_wf by auto
  then have "later (d_st d) (d_st d')" using run_later[OF assms(3)] assms(4) by simp
  moreover have "issued (d_st d) i" using \<open>store_wf (d_st d)\<close> assms(5) by (rule stored_issued)
  ultimately show ?thesis using assms(5) by (auto simp: evolves_def)
qed

theorem snapshots_immutable_witness:
  "\<exists>n d. daemon_run sample_config fake_backend n sample_daemon d \<and>
     find_snap (d_st d) (make_snap_id 1) = Some (fake_snapshot sample_state) \<and>
     store_wf (d_st (cleanup sample_tick d))"
proof -
  obtain n d where r: "n \<le> 12" "daemon_run sample_config fake_backend n sample_daemon d"
    "find_snap (d_st d) (make_snap_id 1) = Some (fake_snapshot sample_state)"
    using sample_run by blast
  have "daemon_run sample_config fake_backend 1 d (cleanup sample_tick d)"
    by (rule run_one) (rule daemon_step.clean)
  from snapshots_immutable[OF sample_initial r(2) this _ r(3)] r show ?thesis by auto
qed

text \<open>C14: pins. In every reachable state no identifier is pinned more often than threads are using it,
  and as long as no client has come over the pipe the two numbers agree; so a snapshot nobody uses
  can be evicted.\<close>

theorem pins_have_holders:
  assumes "initial d0" and "daemon_run cfg B n d0 d" and "n < 2 ^ 64 - 1" and "i \<noteq> []"
  shows "count_at (pinned_counts (d_st d)) i \<le> holders i (d_clients d) \<and>
    (list_all is_tcp (d_clients d) \<longrightarrow> count_at (pinned_counts (d_st d)) i = holders i (d_clients d))"
  using run_pins_ok[OF assms(2,1,3)] assms(4) by (simp add: pins_ok_def)

theorem pins_have_holders_witness:
  "\<exists>n d. daemon_run sample_config fake_backend n sample_daemon d \<and> d_clients d \<noteq> [] \<and>
     count_at (pinned_counts (d_st d)) ''s-1'' = 0"
proof -
  obtain n d where r: "n \<le> 12" "daemon_run sample_config fake_backend n sample_daemon d"
    "\<exists>c. d_clients d = [TcpClient Reading c]"
    using sample_run by blast
  have "n < 2 ^ 64 - 1" using r(1) by simp
  from pins_have_holders[OF sample_initial r(2) this, of "''s-1''"] r show ?thesis
    by (intro exI[of _ n] exI[of _ d]) (auto simp: holders_def)
qed

text \<open>C19: \<open>snapshot.capture\<close> ends. The eviction loop runs while the lock is held and spins forever
  when too many snapshots are pinned; it cannot, in any reachable state in which fewer requests on
  stored snapshots are in progress than the store may hold snapshots.\<close>

theorem capture_ends:
  assumes "initial d0" and "daemon_run cfg B n d0 d" and "n < 2 ^ 64 - 1"
    and "length (filter busy (d_clients d)) < unat (max_snapshots (d_st d))"
  shows "\<exists>i st'. capture_section s (d_st d) = Some (i, st')"
  by (rule fits_capture) (rule run_fits[OF assms])

theorem capture_ends_witness:
  "length (filter busy (d_clients sample_daemon)) < unat (max_snapshots (d_st sample_daemon)) \<and>
   (\<exists>i st'. capture_section \<lparr>top = []\<rparr> (d_st sample_daemon) = Some (i, st'))"
proof -
  have "length (filter busy (d_clients sample_daemon)) < unat (max_snapshots (d_st sample_daemon))"
    by (simp add: sample_daemon_def sample_world_def new_server_state_def)
  with capture_ends[OF sample_initial run_refl _ this] show ?thesis by auto
qed

section \<open>Subscriptions\<close>

text \<open>A subscription has a baseline. In every reachable state, every session that is subscribed,
  in the table or in the variables of a thread, has a last snapshot to compare with.\<close>

theorem subscriptions_have_baseline:
  assumes "initial d0" and "daemon_run cfg B n d0 d"
  shows "sessions_based (d_st d) \<and> list_all client_based (d_clients d)"
  using based.run_keeps[OF assms(2)] assms(1) by (simp add: initial_def sessions_based_def)

theorem subscriptions_have_baseline_witness:
  "\<exists>n d. daemon_run sample_config fake_backend n sample_daemon d \<and> d_clients d \<noteq> [] \<and>
     list_all client_based (d_clients d)"
  using sample_run subscriptions_have_baseline[OF sample_initial] by (metis list.distinct(1))

section \<open>Refused requests\<close>

text \<open>C31: read-only mode. In no reachable state of a read-only daemon does any thread run the engine on
  \<open>window.postMessage\<close>, \<open>input.send\<close> or a method whose name contains \<open>reg.write\<close>.\<close>

theorem read_only_blocks:
  assumes "initial d0" and "daemon_run cfg B n d0 d" and "cfg_read_only cfg" and "i < length (d_clients d)"
    and "d_clients d ! i = PipeClient (Running req snap old) c \<or> d_clients d ! i = TcpClient (Running req snap old) c"
  shows "\<not> write_method (req_method req)"
  using guarded.initial_keeps[OF assms(2,1) TrueI assms(4)] assms(3,5) by (auto simp: allowed_req)

text \<open>A listing over TCP, stopped just before the engine runs.\<close>

lemma running_state:
  "\<exists>n d c snap. daemon_run (sample_config\<lparr>cfg_read_only := True\<rparr>) fake_backend n sample_daemon d \<and>
     d_clients d = [TcpClient (Running \<lparr>req_id = ''1'', req_method = ''window.listTop'', req_params = []\<rparr> snap None) c]"
proof -
  let ?cfg = "sample_config\<lparr>cfg_read_only := True\<rparr>"
  let ?req = "\<lparr>req_id = ''1'', req_method = ''window.listTop'', req_params = []\<rparr>"
  let ?text = "make_req ''1'' ''window.listTop'' []"
  have p: "parse_request_json ?text = Ok ?req" by (simp add: parse_make_req wire_obj)
  let ?c = "new_conn\<lparr>cn_resp := new_response\<lparr>resp_id := ''1''\<rparr>, cn_canonical := False, cn_pinned_sid := [],
    cn_session := new_client_session\<rparr>"
  let ?D = "\<lambda>ph. \<lparr>d_world = sample_world, d_clients = [TcpClient ph ?c]\<rparr>"
  have go: "daemon_step ?cfg fake_backend (?D ph) (?D ph')"
    if "0 < rank ph" "tcp_step ?cfg fake_backend sample_tick (ph, sample_world, ?c) = (ph', sample_world, ?c)" for ph ph'
    using daemon_step.tcp_piece[of 0 "?D ph" ph ?c ?cfg fake_backend sample_tick] that by (simp add: set_client_def)
  have s0: "daemon_step ?cfg fake_backend sample_daemon (accept_tcp sample_daemon)" by (rule daemon_step.accept_socket)
  have s1: "daemon_step ?cfg fake_backend (accept_tcp sample_daemon) (?D (Entering ?req))"
    using daemon_step.tcp_arrival[of 0 "accept_tcp sample_daemon" new_conn ?cfg fake_backend ?text]
    by (simp add: accept_tcp_def sample_daemon_def tcp_receive_def p set_client_def new_conn_def Let_def)
  have s2: "daemon_step ?cfg fake_backend (?D (Entering ?req)) (?D (Routing ?req))"
    by (rule go) (simp_all add: tcp_session_def get_str_def)
  have s3: "daemon_step ?cfg fake_backend (?D (Routing ?req)) (?D (Guarding ?req))"
    by (rule go) (simp_all add: tcp_route_def)
  have s4: "daemon_step ?cfg fake_backend (?D (Guarding ?req)) (?D (Pinning ?req))"
    by (rule go) (simp_all add: guard_def write_method_def get_bool_def value_or_def new_conn_def)
  have s5: "daemon_step ?cfg fake_backend (?D (Pinning ?req)) (?D (Choosing ?req (fake_snapshot sample_state)))"
    by (rule go) (simp_all add: tcp_pin_def get_str_def fake_capture_then sample_world_def)
  have s6: "daemon_step ?cfg fake_backend (?D (Choosing ?req (fake_snapshot sample_state)))
      (?D (Running ?req (fake_snapshot sample_state) None))"
    by (rule go) (simp_all add: choose_old_def baseline_def get_str_def)
  show ?thesis
    using run_step[OF run_step[OF run_step[OF run_step[OF run_step[OF run_step[OF run_step[OF run_refl s0] s1] s2] s3] s4] s5] s6]
    by fastforce
qed

theorem read_only_blocks_witness:
  "\<exists>n d c req snap. daemon_run (sample_config\<lparr>cfg_read_only := True\<rparr>) fake_backend n sample_daemon d \<and>
     d_clients d = [TcpClient (Running req snap None) c] \<and> \<not> write_method (req_method req)"
proof -
  obtain n d c snap where r: "daemon_run (sample_config\<lparr>cfg_read_only := True\<rparr>) fake_backend n sample_daemon d"
    "d_clients d = [TcpClient (Running \<lparr>req_id = ''1'', req_method = ''window.listTop'', req_params = []\<rparr> snap None) c]"
    using running_state by blast
  from read_only_blocks[OF sample_initial r(1), of 0] r show ?thesis by fastforce
qed

text \<open>The methods that change something and that read-only mode lets pass.\<close>

definition unguarded_methods :: "string list" where
  "unguarded_methods = [''window.highlight'', ''window.ensureVisible'', ''window.ensureForeground'',
     ''window.setProperty'', ''input.mouseClick'', ''input.keyPress'', ''input.text'', ''window.controlClick'',
     ''window.controlSend'', ''process.kill'', ''clipboard.write'', ''service.control'', ''env.set'',
     ''sync.createMutex'', ''mem.write'', ''input.hook'', ''reg.delete'', ''ui.invoke'', ''daemon.downloadUpdate'']"

lemma unguarded_not_write: "m \<in> set unguarded_methods \<Longrightarrow> \<not> write_method m"
  by (auto simp: unguarded_methods_def write_method_def)



text \<open>C32: a pipe client of a daemon with keys, or with \<open>--require-auth\<close>, is never authenticated, and in
  no reachable state does its thread work on anything but a \<open>hello\<close> request.\<close>

theorem pipe_locked_out:
  assumes "initial d0" and "daemon_run cfg B n d0 d" and "cfg_require_auth cfg \<or> cfg_auth_keys cfg \<noteq> []"
    and "i < length (d_clients d)" and "d_clients d ! i = PipeClient ph c"
  shows "\<not> cs_authenticated (cn_session c) \<and>
    (case phase_request ph of Some req \<Rightarrow> req_method req = ''hello'' | None \<Rightarrow> True)"
  using locked_out.initial_keeps[OF assms(2,1) TrueI assms(4)] assms(3,5)
  by (auto simp: locked_def only_hello_def split: option.splits)

lemma two_started:
  assumes "initial d0" and "max_connections (d_st d0) = 1"
  shows "\<exists>d. daemon_run cfg B 4 d0 d \<and> active_connections (d_st d) = 2 \<and>
    (\<exists>c1 c2. d_clients d = [PipeClient Reading c1, PipeClient Reading c2])"
proof -
  let ?tk = sample_tick
  let ?d1 = "accept_pipe ?tk d0" and ?d2 = "accept_pipe ?tk (accept_pipe ?tk d0)"
  let ?d3 = "set_client 0 PipeClient (pipe_open cfg ?tk (d_world ?d2)) ?d2"
  let ?d4 = "set_client 1 PipeClient (pipe_open cfg ?tk (d_world ?d3)) ?d3"
  have a: "d_clients d0 = []" "active_connections (d_st d0) = 0" using assms(1) by (simp_all add: initial_def)
  have c2: "d_clients ?d2 = [Spawned, Spawned]" "d_st ?d2 = d_st d0"
    using a assms(2) by (simp_all add: accept_pipe_def Let_def)
  have s: "daemon_step cfg B d0 ?d1" "daemon_step cfg B ?d1 ?d2" by (rule daemon_step.accept)+
  have s3: "daemon_step cfg B ?d2 ?d3" by (rule daemon_step.start) (simp_all add: c2)
  have c3: "d_clients ?d3 = [PipeClient Reading (snd (snd (pipe_open cfg ?tk (d_world ?d2)))), Spawned]"
    by (simp add: c2 pipe_open_auth(2))
  have s4: "daemon_step cfg B ?d3 ?d4" by (rule daemon_step.start) (simp_all add: c2)
  have "daemon_run cfg B (Suc (Suc (Suc (Suc 0)))) d0 ?d4"
    by (rule run_step[OF run_step[OF run_step[OF run_step[OF run_refl s(1)] s(2)] s3] s4])
  moreover have "active_connections (d_st ?d4) = 2"
    by (simp add: open_close_st c2 a)
  moreover have "\<exists>c1 c2. d_clients ?d4 = [PipeClient Reading c1, PipeClient Reading c2]"
    unfolding set_client_sel(2)[of 1] c3 by (simp add: pipe_open_auth(2))
  moreover have "Suc (Suc (Suc (Suc 0))) = 4" by simp
  ultimately show ?thesis by metis
qed

theorem pipe_locked_out_witness:
  "\<exists>d c1 c2. daemon_run (sample_config\<lparr>cfg_require_auth := True\<rparr>) fake_backend 4
       (sample_daemon\<lparr>d_world := sample_world\<lparr>w_st := new_server_state\<lparr>max_connections := 1\<rparr>\<rparr>\<rparr>) d \<and>
     d_clients d = [PipeClient Reading c1, PipeClient Reading c2] \<and> \<not> cs_authenticated (cn_session c1)"
proof -
  let ?d = "sample_daemon\<lparr>d_world := sample_world\<lparr>w_st := new_server_state\<lparr>max_connections := 1\<rparr>\<rparr>\<rparr>"
  have i: "initial ?d" "max_connections (d_st ?d) = 1"
    by (simp_all add: initial_def sample_daemon_def new_server_state_def)
  obtain d c1 c2 where r: "daemon_run (sample_config\<lparr>cfg_require_auth := True\<rparr>) fake_backend 4 ?d d"
    "d_clients d = [PipeClient Reading c1, PipeClient Reading c2]" using two_started[OF i] by blast
  from pipe_locked_out[OF i(1) r(1), of 0 Reading c1] r show ?thesis by auto
qed

section \<open>Limits\<close>

text \<open>The connection counter is the number of pipe threads that have started and not ended.\<close>

theorem connections_counted:
  assumes "initial d0" and "daemon_run cfg B n d0 d"
  shows "active_connections (d_st d) = int (length (filter live (d_clients d)))"
  using run_counted[OF assms(2,1)] by (simp add: counted_def)

theorem connections_counted_witness:
  "\<exists>n d. daemon_run sample_config fake_backend n sample_daemon d \<and> d_clients d \<noteq> [] \<and>
     active_connections (d_st d) = 0"
proof -
  obtain n d where r: "daemon_run sample_config fake_backend n sample_daemon d"
    "\<exists>c. d_clients d = [TcpClient Reading c]" using sample_run by blast
  from connections_counted[OF sample_initial r(1)] r show ?thesis
    by (intro exI[of _ n] exI[of _ d]) auto
qed

text \<open>The connection limit can be exceeded. The accept loop reads the counter, the threads it starts
  increment it later, so two clients that connect in quick succession pass a limit of one.\<close>

theorem connection_limit_overshoot:
  assumes "initial d0" and "max_connections (d_st d0) = 1"
  shows "\<exists>d. daemon_run cfg B 4 d0 d \<and> active_connections (d_st d) = 2"
  using two_started[OF assms] by blast

theorem connection_limit_overshoot_witness:
  "\<exists>d. daemon_run sample_config fake_backend 4
      (sample_daemon\<lparr>d_world := sample_world\<lparr>w_st := new_server_state\<lparr>max_connections := 1\<rparr>\<rparr>\<rparr>) d \<and>
    active_connections (d_st d) = 2"
  by (rule connection_limit_overshoot) (simp_all add: initial_def sample_daemon_def new_server_state_def)

lemma length_om_set:
  "om_wf m \<Longrightarrow> length (om_set k v m) = (if map_of m k = None then Suc (length m) else length m)"
  by (induction m) (auto simp: om_wf_Cons map_of_eq_None_iff split: if_splits)

text \<open>A TCP thread on its own keeps the table within the limit: its session is in the table or it has none.\<close>

definition tabled :: "nat \<Rightarrow> ClientSession \<Rightarrow> ServerState \<Rightarrow> bool" where
  "tabled n session st \<longleftrightarrow> om_wf (sessions st) \<and> unat (max_sessions st) = n \<and> length (sessions st) \<le> n \<and>
     (cs_id session \<noteq> [] \<longrightarrow> map_of (sessions st) (cs_id session) \<noteq> None)"

abbreviation limited :: "nat \<Rightarrow> 's thread \<Rightarrow> bool" where
  "limited n t \<equiv> tabled n (cn_session (snd (snd t))) (t_st t)"

lemma tabled_sections:
  assumes "tabled n session st"
  shows "tabled n (fst (snd (subscribe_section s session st))) (snd (snd (subscribe_section s session st)))"
    "tabled n (fst (unsubscribe_section session st)) (snd (unsubscribe_section session st))"
    "tabled n (fst (poll_section s session st)) (snd (poll_section s session st))"
    "tabled n (fst (terminate_section session st)) (snd (terminate_section session st))"
  using assms le_trans[OF length_filter_le]
  by (auto simp: tabled_def subscribe_section_def unsubscribe_section_def poll_section_def terminate_section_def
      persist_def store_snapshot_def om_erase_def length_om_set omap_simps Let_def om_wf_filter
      split: if_splits option.splits)

lemma tabled_enter:
  "tcp_enter_session sid now session st = Some (session', st') \<Longrightarrow> tabled n session st \<Longrightarrow> tabled n session' st'"
  by (auto simp: tabled_def tcp_enter_session_def enter_session_def length_om_set omap_simps
      split: if_splits option.splits)

lemma tabled_same:
  "tcp_pin_section i st = Some (x, st') \<Longrightarrow> tabled n session st' = tabled n session st"
  "tabled n session (unpin_section i st) = tabled n session st"
  "capture_section s st = Some (i, st') \<Longrightarrow> tabled n session st' = tabled n session st"
  by (auto simp: tabled_def tcp_pin_section_def unpin_section_def dest!: capture_frame split: option.splits)

lemma kept_session [simp]:
  "(\<And>e. cn_session (catch e c) = cn_session c) \<Longrightarrow> cn_session (snd (snd (capture_then B catch k w c))) = cn_session c"
  "(\<And>e c. cn_session (catch e c) = cn_session c) \<Longrightarrow> cn_session (snd (snd (guard catch cfg B req w c))) = cn_session c"
  "(\<And>e. cn_session (catch e c) = cn_session c) \<Longrightarrow> cn_session (late c) = cn_session c \<Longrightarrow>
    cn_session (snd (snd (run_core late catch cfg B tk req snap old w c))) = cn_session c"
  by (auto simp: capture_then_def guard_def run_core_def Let_def split: prod.splits res.splits)

lemma tcp_step_limited: "limited n t \<Longrightarrow> limited n (tcp_step cfg B tk t)"
  by (cases t; cases "fst t") (auto simp: tcp_session_def tcp_route_def do_subscribe_def unsubscribed_def tcp_pin_def
      choose_old_def do_commit_def send_response_def do_unpin_def do_store_def case_prod_beta Let_def
      tabled_sections tabled_enter tabled_same split: option.splits)

text \<open>The session limit. A TCP message that is processed without another thread in between leaves the
  session table within its limit; a new session beyond it is refused.\<close>

theorem tcp_sessions_limited:
  assumes "om_wf (sessions (w_st w))" and "length (sessions (w_st w)) \<le> unat (max_sessions (w_st w))"
  shows "length (sessions (t_st (tcp_message cfg B tks msg w c))) \<le> unat (max_sessions (w_st w))"
proof -
  have "limited (unat (max_sessions (w_st w))) (tcp_receive msg w c)"
    using assms by (auto simp: tabled_def tcp_receive_def new_client_session_def Let_def split: res.splits)
  then have "limited (unat (max_sessions (w_st w))) (tcp_message cfg B tks msg w c)"
    unfolding tcp_message_def
    using tcp_drive_keeps[where I = "limited (unat (max_sessions (w_st w)))"] tcp_step_limited by blast
  then show ?thesis by (simp add: tabled_def)
qed

theorem tcp_sessions_limited_witness:
  "length (sessions (t_st (tcp_message sample_config fake_backend (\<lambda>_. sample_tick) capture_text sample_world new_conn))) \<le> 256"
  using tcp_sessions_limited[of sample_world sample_config fake_backend "\<lambda>_. sample_tick" capture_text new_conn]
  by (simp add: sample_world_def new_server_state_def)

text \<open>The pipe server has no such limit: every new session identifier adds an entry, however many
  there are.\<close>

theorem pipe_sessions_unlimited:
  assumes "get_str (req_params req) ''session_id'' = Some sid" and "map_of (sessions (w_st w)) sid = None"
    and "om_wf (sessions (w_st w))"
  shows "length (sessions (t_st (pipe_session tk req w c))) = Suc (length (sessions (w_st w)))"
  using assms by (simp add: pipe_session_def enter_session_def length_om_set)

theorem pipe_sessions_unlimited_witness:
  "length (sessions (t_st (pipe_session sample_tick (sample_request ''m'' [(''session_id'', Str ''x'')])
     (sample_world\<lparr>w_st := new_server_state\<lparr>max_sessions := 0\<rparr>\<rparr>) new_conn))) = 1"
  using pipe_sessions_unlimited[of "sample_request ''m'' [(''session_id'', Str ''x'')]" "''x''"
      "sample_world\<lparr>w_st := new_server_state\<lparr>max_sessions := 0\<rparr>\<rparr>" sample_tick new_conn]
  by (simp add: sample_request_def get_str_def new_server_state_def)

section \<open>Clients and each other\<close>

text \<open>C23: clients do not disturb each other's sessions. Processing a message, on either server, leaves every
  session in the table as it was, except the one the message names and the one the connection is
  already working in.\<close>

theorem session_isolation:
  assumes "om_wf (sessions (w_st w))" and "sid \<noteq> []" and "sid \<noteq> cs_id (cn_session c)"
    and "\<forall>req. parse_request_json msg = Ok req \<longrightarrow> get_str (req_params req) ''session_id'' \<noteq> Some sid"
  shows "map_of (sessions (t_st (pipe_message cfg B tks msg w c))) sid = map_of (sessions (w_st w)) sid \<and>
    map_of (sessions (t_st (tcp_message cfg B tks msg w c))) sid = map_of (sessions (w_st w)) sid"
proof
  let ?I = "apart sid (map_of (sessions (w_st w)) sid)"
  have "?I (pipe_receive (tks 11) msg w c)"
    using assms by (auto simp: apart_def pipe_receive_def Let_def split: res.splits)
  then have "?I (pipe_message cfg B tks msg w c)"
    unfolding pipe_message_def using pipe_drive_keeps[where I = ?I] step_apart(1) by blast
  then show "map_of (sessions (t_st (pipe_message cfg B tks msg w c))) sid = map_of (sessions (w_st w)) sid"
    by (simp add: apart_def)
  have "?I (tcp_receive msg w c)"
    using assms by (auto simp: apart_def tcp_receive_def new_client_session_def Let_def split: res.splits)
  then have "?I (tcp_message cfg B tks msg w c)"
    unfolding tcp_message_def using tcp_drive_keeps[where I = ?I] step_apart(2) by blast
  then show "map_of (sessions (t_st (tcp_message cfg B tks msg w c))) sid = map_of (sessions (w_st w)) sid"
    by (simp add: apart_def)
qed

theorem session_isolation_witness:
  "map_of (sessions (t_st (tcp_message sample_config fake_backend (\<lambda>_. sample_tick)
     (make_req ''1'' ''session.terminate'' [(''session_id'', Str ''a'')])
     (sample_world\<lparr>w_st := new_server_state\<lparr>sessions := [(''b'', new_persistent_session)]\<rparr>\<rparr>) new_conn))) ''b'' =
   Some new_persistent_session"
proof -
  let ?w = "sample_world\<lparr>w_st := new_server_state\<lparr>sessions := [(''b'', new_persistent_session)]\<rparr>\<rparr>"
  have p: "parse_request_json (make_req ''1'' ''session.terminate'' [(''session_id'', Str ''a'')]) =
      Ok \<lparr>req_id = ''1'', req_method = ''session.terminate'', req_params = [(''session_id'', Str ''a'')]\<rparr>"
    by (rule parse_make_req) (simp add: wire_obj om_wf_def)
  show ?thesis
    using session_isolation[of ?w "''b''" new_conn "make_req ''1'' ''session.terminate'' [(''session_id'', Str ''a'')]"
        sample_config fake_backend "\<lambda>_. sample_tick"]
    by (simp add: om_wf_def new_conn_def new_client_session_def p get_str_def)
qed

text \<open>Every message is answered. On the deterministic backend a message, whatever its bytes, ends with the
  thread reading again and exactly one response sent, on either server, provided the pinned snapshots
  fit into the store, the numbers of the request fit the types they are converted to and no window is
  its own ancestor.\<close>

theorem message_answered:
  assumes "fits (w_st w)" and "\<forall>snap h. fst (fake_get_window_tree snap h (w_backend w)) \<noteq> Stuck"
    and "\<forall>req. parse_request_json msg = Ok req \<longrightarrow> params_in_range (req_params req)"
  shows "(\<exists>w' c' out. pipe_message cfg fake_backend tks msg w c = (Reading, w', c') \<and> cn_sent c' = cn_sent c @ [out]) \<and>
    (\<exists>w' c' out. tcp_message cfg fake_backend tks msg w c = (Reading, w', c') \<and> cn_sent c' = cn_sent c @ [out])"
  using pipe_answered[OF assms] tcp_answered[OF assms] by blast

text \<open>Polling after a subscription. The next \<open>events.poll\<close> in the same session over TCP compares with the
  snapshot the subscription took, at whatever later time, as long as nobody has changed the session
  and the snapshot has not been evicted.\<close>

theorem poll_compares_with_baseline:
  assumes "store_wf (w_st w)" and "roomy (w_st w)" and "cs_id (cn_session c) = sid" and "sid \<noteq> []"
    and "do_subscribe s w c = (ph, w1, c1)" and "later (w_st w1) st2"
    and "map_of (sessions st2) sid = map_of (sessions (w_st w1)) sid"
    and "find_snap st2 (cs_last_snap_id (cn_session c1)) \<noteq> None"
    and "tcp_enter_session sid now new_client_session st2 = Some (session2, st3)"
    and "req_method req = ''events.poll''" and "get_str (req_params req) ''old_snapshot_id'' = None"
  shows "baseline req session2 st3 = Some s"
proof -
  obtain i st1 where put: "store_snapshot s (w_st w) = (i, st1)" by fastforce
  have wf1: "om_wf (sessions st1)" using store_snapshot_law(2)[OF assms(1,2) put] by (simp add: store_wf_def)
  have w1: "w_st w1 = persist sid (\<lambda>ps. ps\<lparr>ps_subscribed := True, ps_last_snap_id := i\<rparr>) st1"
    and c1: "cs_last_snap_id (cn_session c1) = i"
    using assms(3-5) put by (auto simp: do_subscribe_def subscribe_section_def succeed_def)
  have "later (w_st w) st2"
    using pipe_store.put_evolves[OF assms(1,2) put] persist_later assms(6) w1
    by (metis later_wf pipe_store.evolves_trans)
  have iss: "issued (w_st w1) i" using issued_store[OF assms(2) put, of i] by (simp add: w1 persist_def issued_def)
  have f1: "find_snap (w_st w1) i = Some s" using store_snapshot_law(3)[OF assms(1,2) put] by (simp add: w1 persist_def)
  have f2: "find_snap st2 i = Some s" using assms(6,8) iss f1 by (auto simp: evolves_def c1)
  have "\<exists>ps. map_of (sessions st2) sid = Some ps \<and> ps_last_snap_id ps = i"
    using assms(7) wf1 by (simp add: w1 persist_def omap_simps)
  then have "cs_last_snap_id session2 = i" "snaps st3 = snaps st2"
    using assms(9) by (auto simp: tcp_enter_session_def enter_session_def split: if_splits)
  moreover have "i \<noteq> []" using iss make_snap_id_nonempty by (metis issued_def)
  ultimately show ?thesis using assms(10,11) f2 by (simp add: baseline_def)
qed

lemma empty_tree: "fst (fake_get_window_tree snap h (new_fake_backend [])) \<noteq> Stuck"
  by (simp add: fake_get_window_tree_def new_fake_backend_def Let_def children_of_def)

theorem message_answered_witness:
  "\<exists>w' c' out. tcp_message sample_config fake_backend (\<lambda>_. sample_tick) capture_text
     (sample_world\<lparr>w_backend := new_fake_backend []\<rparr>) new_conn = (Reading, w', c') \<and> cn_sent c' = [out]"
proof -
  let ?w = "sample_world\<lparr>w_backend := new_fake_backend []\<rparr>"
  have "fits (w_st ?w)" by (simp add: fits_def sample_world_def new_server_state_def count_at_def)
  moreover have "\<forall>req. parse_request_json capture_text = Ok req \<longrightarrow> params_in_range (req_params req)"
    by (auto simp: parse_capture params_in_range_def)
  ultimately show ?thesis
    using message_answered[of ?w capture_text sample_config "\<lambda>_. sample_tick" new_conn] empty_tree
    by (auto simp: new_conn_def)
qed

theorem poll_compares_with_baseline_witness:
  "\<exists>ph w1 c1 session2 st3. do_subscribe \<lparr>top = [1]\<rparr> sample_world
       (new_conn\<lparr>cn_session := new_client_session\<lparr>cs_id := ''a''\<rparr>\<rparr>) = (ph, w1, c1) \<and>
     tcp_enter_session ''a'' 5 new_client_session (w_st w1) = Some (session2, st3) \<and>
     baseline (sample_request ''events.poll'' []) session2 st3 = Some \<lparr>top = [1]\<rparr>"
proof -
  let ?c = "new_conn\<lparr>cn_session := new_client_session\<lparr>cs_id := ''a''\<rparr>\<rparr>"
  obtain ph w1 c1 where sub: "do_subscribe \<lparr>top = [1]\<rparr> sample_world ?c = (ph, w1, c1)"
    by (cases "do_subscribe \<lparr>top = [1]\<rparr> sample_world ?c") auto
  have wf: "store_wf (w_st sample_world)" "roomy (w_st sample_world)"
    by (simp_all add: sample_world_def new_server_state_def store_wf_def roomy_def word_less_nat_alt
        unsigned_minus_1_eq_mask mask_eq_exp_minus_1)
  have w1: "later (w_st w1) (w_st w1)"
    using section_later[OF other_sections(1) wf, of "\<lparr>top = [1]\<rparr>" ?c] sub by (simp add: evolves_def)
  have "find_snap (w_st w1) (cs_last_snap_id (cn_session c1)) \<noteq> None"
    and "sessions (w_st w1) = [(''a'', \<lparr>ps_last_snap_id = make_snap_id 1, ps_subscribed = True, ps_last_activity = 0\<rparr>)]"
    and "max_sessions (w_st w1) = 256"
    using sub by (auto simp: do_subscribe_def subscribe_section_def store_snapshot_def persist_def sample_world_def
        new_server_state_def new_persistent_session_def om_emplace_def Let_def)
  moreover from this(2,3) obtain session2 st3 where
    ent: "tcp_enter_session ''a'' 5 new_client_session (w_st w1) = Some (session2, st3)"
    by (simp add: tcp_enter_session_def enter_session_def)
  ultimately show ?thesis
    using poll_compares_with_baseline[OF wf _ _ sub w1 _ _ ent, of "sample_request ''events.poll'' []"] sub
    by (auto simp: sample_request_def get_str_def)
qed

section \<open>Leaving the pipe\<close>

text \<open>
  The count of one identifier while a thread processes a message that pins it: \<open>N\<close> before, one
  more while the thread holds it, \<open>N\<close> again when it is done.
\<close>

definition balanced :: "string \<Rightarrow> int \<Rightarrow> 's thread \<Rightarrow> bool" where
  "balanced k N t \<longleftrightarrow> (case t of (ph, w, c) \<Rightarrow>
     om_wf (pinned_counts (w_st w)) \<and> thread_ok ph c \<and>
     (if cn_pinned_sid c = k then count_at (pinned_counts (w_st w)) k = N + of_bool (holding ph c k)
      else early ph \<longrightarrow> count_at (pinned_counts (w_st w)) k = N))"

lemma capture_pins_wf:
  "capture_section s st = Some (i, st') \<Longrightarrow> om_wf (pinned_counts st) \<Longrightarrow> om_wf (pinned_counts st')"
proof -
  assume "capture_section s st = Some (i, st')" and wf: "om_wf (pinned_counts st)"
  then obtain st1 where "pinned_counts st1 = pinned_counts st" "evict st1 = Some st'"
    by (metis capture_run store_counter)
  with wf show ?thesis by (elim evict_SomeE) auto
qed

lemma step_balanced:
  assumes "balanced k N t" "k \<noteq> []" "0 < rank (fst t)"
  shows "balanced k N (pipe_step cfg B tk t)"
  using assms
  by (cases t; cases "fst t") (auto simp: balanced_def piece_defs holding_simps case_prod_beta Let_def
      pin_section_def unpin_section_def omap_simps dest: capture_pins_wf
      split: prod.splits option.splits res.splits if_splits)

text \<open>C38: a client that leaves the pipe takes a pin it does not own. A message that pins a snapshot gives the
  pin back when it is answered; when the client then disconnects, the snapshot is unpinned a second
  time, and its count ends one lower than before the message.\<close>

theorem pipe_disconnect_unpins_twice:
  assumes "om_wf (pinned_counts (w_st w))" and "pipe_message cfg B tks msg w c = (Reading, w', c')"
    and "cn_pinned_sid c' = i" and "i \<noteq> []"
  shows "count_at (pinned_counts (w_st w')) i = count_at (pinned_counts (w_st w)) i \<and>
    count_at (pinned_counts (t_st (pipe_close tk w' c'))) i = count_at (pinned_counts (w_st w)) i - 1"
proof -
  let ?I = "balanced i (count_at (pinned_counts (w_st w)) i)"
  have "?I (pipe_receive (tks 11) msg w c)" using assms(1,4) receive_follows(2)[of "tks 11" msg w c]
    by (auto simp: balanced_def pipe_receive_def Let_def holding_simps split: res.splits)
  then have "?I (pipe_message cfg B tks msg w c)"
    unfolding pipe_message_def using pipe_drive_keeps[where I = ?I] step_balanced[OF _ assms(4)] by blast
  then have "om_wf (pinned_counts (w_st w'))" "count_at (pinned_counts (w_st w')) i = count_at (pinned_counts (w_st w)) i"
    using assms(2,3) by (simp_all add: balanced_def)
  then show ?thesis using assms(3,4) by (simp add: open_close_st unpin_section_def)
qed

lemma sample_pinning:
  "\<exists>w' c'. pipe_message sample_config fake_backend (\<lambda>_. sample_tick)
     (make_req ''1'' ''hello'' [(''snapshot_id'', Str ''s-1'')]) (sample_world\<lparr>w_st := two_snaps 0 10\<rparr>)
     (new_conn\<lparr>cn_session := new_client_session\<lparr>cs_authenticated := True\<rparr>\<rparr>) = (Reading, w', c') \<and>
   cn_pinned_sid c' = ''s-1''"
proof -
  let ?req = "\<lparr>req_id = ''1'', req_method = ''hello'', req_params = [(''snapshot_id'', Str ''s-1'')]\<rparr>"
  have p: "parse_request_json (make_req ''1'' ''hello'' [(''snapshot_id'', Str ''s-1'')]) = Ok ?req"
    by (rule parse_make_req) (simp add: wire_obj om_wf_def)
  have un: "\<exists>r b lg. handle fake_backend eng ?req snap old st = (Ok r, b, lg)" for eng snap old st
  proof -
    obtain s l where st: "st = (s, l)" by fastforce
    have "map_of (dispatch_table fake_backend eng logs) (req_method ?req) = None" for logs
      by (simp add: dispatch_table_def)
    from handle_unknown(2)[OF this, of snap old s l] show ?thesis
      by (cases "handle fake_backend eng ?req snap old st") (auto simp: st)
  qed
  obtain r b lg where h: "handle fake_backend (engine sample_config sample_tick) ?req \<lparr>top = [7]\<rparr> None
      (sample_state, new_logger) = (Ok r, b, lg)" using un by blast
  show ?thesis
    by (simp add: pipe_message_def pipe_receive_def p drive_pipe pipe_session_def pipe_route_def guard_def
        write_method_def get_str_def get_bool_def value_or_def pipe_pin_def pin_section_def two_snaps_sel
        choose_old_def baseline_def run_core_def h sample_world_def sample_tick_def[THEN arg_cong[where f = tk_timeout]]
        send_response_def do_unpin_def Let_def)
qed

theorem pipe_disconnect_unpins_twice_witness:
  "\<exists>w' c'. pipe_message sample_config fake_backend (\<lambda>_. sample_tick)
     (make_req ''1'' ''hello'' [(''snapshot_id'', Str ''s-1'')]) (sample_world\<lparr>w_st := two_snaps 0 10\<rparr>)
     (new_conn\<lparr>cn_session := new_client_session\<lparr>cs_authenticated := True\<rparr>\<rparr>) = (Reading, w', c') \<and>
   count_at (pinned_counts (t_st (pipe_close sample_tick w' c'))) ''s-1'' = - 1"
proof -
  obtain w' c' where m: "pipe_message sample_config fake_backend (\<lambda>_. sample_tick)
     (make_req ''1'' ''hello'' [(''snapshot_id'', Str ''s-1'')]) (sample_world\<lparr>w_st := two_snaps 0 10\<rparr>)
     (new_conn\<lparr>cn_session := new_client_session\<lparr>cs_authenticated := True\<rparr>\<rparr>) = (Reading, w', c')"
    and c': "cn_pinned_sid c' = ''s-1''" using sample_pinning by blast
  show ?thesis using pipe_disconnect_unpins_twice[OF _ m c', of sample_tick] m
    by (simp add: two_snaps_sel om_wf_def count_at_def)
qed

end
