(* ===== verification/Transport.thy ===== *)
theory Transport
  imports Prelude
begin

text \<open>
  Messages on a byte stream: \<open>daemon/src/pipe_win32.cpp\<close>, the loops \<open>socket_read_all\<close> and
  \<open>socket_write_all\<close> of \<open>daemon/src/tcp_server.cpp\<close>, and \<open>Conn::send\<close> and \<open>Conn::recv\<close>
  of the command line client. A message is preceded by its length as a 32-bit number in the byte
  order of x86.

  The operating system is free to deliver a stream in pieces: an incoming stream is the list of
  pieces that single reads would return if the buffer were large enough, and ends when the list does;
  for an outgoing stream the list of sizes says how much each single write accepts.

  Shown here: the daemon reads the messages that were written however the stream is cut, while the
  client, which reads once, does not.
\<close>

section \<open>Lengths\<close>

definition le32 :: "nat \<Rightarrow> string" where
  "le32 n = map char_of [n mod 256, n div 256 mod 256, n div 65536 mod 256, n div 16777216 mod 256]"

definition un_le32 :: "string \<Rightarrow> nat" where
  "un_le32 s = foldr (\<lambda>c n. code_of c + 256 * n) s 0"

lemma length_le32 [simp]: "length (le32 n) = 4"
  by (simp add: le32_def)

lemma le32_nonempty [simp]: "[] \<noteq> le32 n" "le32 n \<noteq> []"
  by (simp_all add: le32_def)

lemma un_le32_le32: "n < 2 ^ 32 \<Longrightarrow> un_le32 (le32 n) = n"
proof -
  assume "n < 2 ^ 32"
  then have "n = n mod (256 * (256 * (256 * 256)))" by simp
  also have "\<dots> = 256 * (256 * (256 * (n div 256 div 256 div 256 mod 256) + n div 256 div 256 mod 256) + n div 256 mod 256) + n mod 256"
    by (simp only: mod_mult2_eq)
  finally have n: "n = 256 * (256 * (256 * (n div 256 div 256 div 256 mod 256) + n div 256 div 256 mod 256) + n div 256 mod 256) + n mod 256" .
  have "n div 65536 = n div 256 div 256" "n div 16777216 = n div 256 div 256 div 256"
    by (simp_all flip: div_mult2_eq)
  then show ?thesis using n by (simp add: un_le32_def le32_def)
qed

section \<open>Reading\<close>

text \<open>One call of \<open>ReadFile\<close> or \<open>recv\<close> with room for \<open>n\<close> bytes.\<close>

definition os_read :: "nat \<Rightarrow> string list \<Rightarrow> (string \<times> string list) option" where
  "os_read n pieces = (case pieces of [] \<Rightarrow> None
     | p # ps \<Rightarrow> Some (take n p, if drop n p = [] then ps else drop n p # ps))"

function read_all :: "nat \<Rightarrow> string list \<Rightarrow> (string \<times> string list) option" where
  "read_all n pieces =
     (if n = 0 then Some ([], pieces)
      else case os_read n pieces of None \<Rightarrow> None
        | Some (bs, rest) \<Rightarrow>
            (if bs = [] then None
             else map_option (\<lambda>(more, r). (bs @ more, r)) (read_all (n - length bs) rest)))"
  by pat_completeness auto
termination
  by (relation "measure fst") (auto simp: os_read_def split: list.splits)

declare read_all.simps [simp del]

definition pipe_read_message :: "string list \<Rightarrow> (string \<times> string list) option" where
  "pipe_read_message pieces = (case read_all 4 pieces of None \<Rightarrow> None
     | Some (len, rest) \<Rightarrow> read_all (un_le32 len) rest)"

text \<open>
  The loops on sockets are the same except that the size is passed as an \<open>int\<close>: a size beyond its
  range is negative there, and the call fails.
\<close>

definition socket_read_all :: "nat \<Rightarrow> string list \<Rightarrow> (string \<times> string list) option" where
  "socket_read_all n pieces = (if 2 ^ 31 \<le> n then None else read_all n pieces)"

text \<open>The plain branch of the TCP loop: an empty or oversized message ends the connection.\<close>

definition max_frame :: nat where
  "max_frame = 10 * 1024 * 1024"

definition tcp_read_message :: "string list \<Rightarrow> (string \<times> string list) option" where
  "tcp_read_message pieces = (case socket_read_all 4 pieces of None \<Rightarrow> None
     | Some (len, rest) \<Rightarrow>
         (if un_le32 len = 0 \<or> max_frame < un_le32 len then None else socket_read_all (un_le32 len) rest))"

fun read_messages :: "(string list \<Rightarrow> (string \<times> string list) option) \<Rightarrow> nat \<Rightarrow> string list \<Rightarrow> (string list \<times> string list) option" where
  "read_messages rd 0 pieces = Some ([], pieces)"
| "read_messages rd (Suc n) pieces = (case rd pieces of None \<Rightarrow> None
     | Some (m, rest) \<Rightarrow> map_option (\<lambda>(ms, r). (m # ms, r)) (read_messages rd n rest))"

section \<open>Writing\<close>

text \<open>What reaches the stream, whether all of it did, and the sizes left for later writes.\<close>

fun write_all :: "nat list \<Rightarrow> string \<Rightarrow> string \<times> bool \<times> nat list" where
  "write_all sizes [] = ([], True, sizes)"
| "write_all [] (b # bs) = ([], False, [])"
| "write_all (w # sizes) (b # bs) =
     (if w = 0 then ([], False, sizes)
      else let (out, ok, left) = write_all sizes (drop w (b # bs))
           in (take w (b # bs) @ out, ok, left))"

definition pipe_write_message :: "nat list \<Rightarrow> string \<Rightarrow> string \<times> bool \<times> nat list" where
  "pipe_write_message sizes json =
     (let len = length json mod 2 ^ 32; (out, ok, left) = write_all sizes (le32 len)
      in if ok then (let (out2, ok2, left2) = write_all left (take len json) in (out @ out2, ok2, left2))
         else (out, False, left))"

definition socket_write_all :: "nat list \<Rightarrow> string \<Rightarrow> string \<times> bool \<times> nat list" where
  "socket_write_all sizes bs = (if 2 ^ 31 \<le> length bs then ([], False, sizes) else write_all sizes bs)"

definition socket_write_message :: "nat list \<Rightarrow> string \<Rightarrow> string \<times> bool \<times> nat list" where
  "socket_write_message sizes json =
     (let len = length json mod 2 ^ 32; (out, ok, left) = socket_write_all sizes (le32 len)
      in if ok then (let (out2, ok2, left2) = socket_write_all left (take len json) in (out @ out2, ok2, left2))
         else (out, False, left))"

section \<open>The client's connection\<close>

text \<open>
  \<open>Conn::recv\<close> reads the length once and the message once; what the second read does not fill
  keeps the zero bytes of \<open>resize\<close>. When the first read brings fewer than four bytes, the rest of
  the length is uninitialised memory. Over TCP a read of nothing counts as a failure, and so does a
  length that is negative as an \<open>int\<close>.
\<close>

definition conn_recv :: "bool \<Rightarrow> string list \<Rightarrow> (string \<times> string list) option res" where
  "conn_recv is_tcp pieces = (case os_read 4 pieces of
     None \<Rightarrow> Ok None
   | Some (len, rest) \<Rightarrow>
       (if is_tcp \<and> len = [] then Ok None
        else if length len < 4 then Stuck
        else if is_tcp \<and> 2 ^ 31 \<le> un_le32 len then Ok None
        else case os_read (un_le32 len) rest of
            None \<Rightarrow> Ok None
          | Some (bs, rest') \<Rightarrow>
              (if is_tcp \<and> bs = [] then Ok None
               else Ok (Some (bs @ replicate (un_le32 len - length bs) (CHR 0x00), rest')))))"

text \<open>\<open>Conn::send\<close> writes the length once and the message once and does not look at how much was accepted.\<close>

definition conn_send :: "bool \<Rightarrow> nat list \<Rightarrow> string \<Rightarrow> string \<times> bool" where
  "conn_send is_tcp sizes m =
     (let len = length m mod 2 ^ 32 in
      case sizes of
        w1 # w2 # _ \<Rightarrow>
          (if is_tcp \<and> w1 = 0 then ([], False)
           else if is_tcp \<and> 2 ^ 31 \<le> len then (take w1 (le32 len), False)
           else (take w1 (le32 len) @ take w2 (take len m), \<not> (is_tcp \<and> (w2 = 0 \<or> len = 0))))
      | [w1] \<Rightarrow> (if is_tcp \<and> w1 = 0 then ([], False) else (take w1 (le32 len), False))
      | [] \<Rightarrow> ([], False))"

section \<open>Correctness\<close>

lemma os_read_pieces:
  assumes "[] \<notin> set pieces" "0 < n" "concat pieces \<noteq> []"
  obtains bs rest where "os_read n pieces = Some (bs, rest)" "bs \<noteq> []" "length bs \<le> n"
    "concat pieces = bs @ concat rest" "[] \<notin> set rest"
proof (cases pieces)
  case (Cons p ps)
  show thesis
  proof (rule that)
    show "os_read n pieces = Some (take n p, if drop n p = [] then ps else drop n p # ps)"
      by (simp add: os_read_def Cons)
  qed (use assms Cons in auto)
qed (use assms in simp)

lemma read_all_enough:
  assumes "[] \<notin> set pieces" "n \<le> length (concat pieces)"
  shows "\<exists>rest. read_all n pieces = Some (take n (concat pieces), rest) \<and>
    concat rest = drop n (concat pieces) \<and> [] \<notin> set rest"
  using assms
proof (induction n pieces rule: read_all.induct)
  case (1 n pieces)
  show ?case
  proof (cases "n = 0")
    case True
    then show ?thesis using 1 by (subst read_all.simps) auto
  next
    case False
    then have "0 < length (concat pieces)" using 1(3) by linarith
    then have ne: "concat pieces \<noteq> []" by force
    obtain bs rest where r: "os_read n pieces = Some (bs, rest)" "bs \<noteq> []" "length bs \<le> n"
      "concat pieces = bs @ concat rest" "[] \<notin> set rest"
      using os_read_pieces[OF 1(2) _ ne, of n] False by blast
    have "n - length bs \<le> length (concat rest)" using 1(3) r(4) by simp
    from 1(1)[OF False r(1) refl r(2) r(5) this] obtain rest' where
      "read_all (n - length bs) rest = Some (take (n - length bs) (concat rest), rest')"
      "concat rest' = drop (n - length bs) (concat rest)" "[] \<notin> set rest'" by blast
    then show ?thesis using False r by (subst read_all.simps) simp
  qed
qed

lemma read_all_short:
  assumes "length (concat pieces) < n"
  shows "read_all n pieces = None"
  using assms
proof (induction n pieces rule: read_all.induct)
  case (1 n pieces)
  then have n: "n \<noteq> 0" by simp
  show ?case
  proof (cases pieces)
    case Nil
    then show ?thesis using n by (subst read_all.simps) (simp add: os_read_def)
  next
    case (Cons p ps)
    let ?rest = "if drop n p = [] then ps else drop n p # ps"
    have r: "os_read n pieces = Some (take n p, ?rest)" by (simp add: os_read_def Cons)
    have "length (concat ?rest) < n - length (take n p)" if "take n p \<noteq> []"
      using 1(2) that by (auto simp: Cons min_def)
    then show ?thesis using 1(1)[OF n r refl] n r by (subst read_all.simps) auto
  qed
qed

text \<open>The bytes of a message on the stream.\<close>

definition frame :: "string \<Rightarrow> string" where
  "frame m = le32 (length m) @ m"

lemma read_frame:
  assumes "[] \<notin> set pieces" "concat pieces = frame m @ rest" "length m < 2 ^ 32"
  shows "\<exists>pieces'. pipe_read_message pieces = Some (m, pieces') \<and>
    (m \<noteq> [] \<and> length m \<le> max_frame \<longrightarrow> tcp_read_message pieces = Some (m, pieces')) \<and>
    concat pieces' = rest \<and> [] \<notin> set pieces'"
proof -
  have c: "concat pieces = le32 (length m) @ m @ rest" using assms(2) by (simp add: frame_def)
  obtain p1 where p1: "read_all 4 pieces = Some (le32 (length m), p1)" "concat p1 = m @ rest" "[] \<notin> set p1"
    using read_all_enough[OF assms(1), of 4] by (auto simp: c)
  obtain p2 where "read_all (length m) p1 = Some (m, p2)" "concat p2 = rest" "[] \<notin> set p2"
    using read_all_enough[OF p1(3), of "length m"] by (auto simp: p1(2))
  then show ?thesis
    by (simp add: pipe_read_message_def tcp_read_message_def socket_read_all_def max_frame_def p1(1) un_le32_le32[OF assms(3)])
qed

lemma write_all_ok: "write_all sizes bs = (out, ok, left) \<Longrightarrow> ok \<Longrightarrow> out = bs"
  by (induction sizes bs arbitrary: out rule: write_all.induct) (auto split: if_splits prod.splits)

text \<open>Writes succeed when every call accepts at least one byte and there are enough calls.\<close>

definition writable :: "nat \<Rightarrow> nat list \<Rightarrow> bool" where
  "writable n sizes \<longleftrightarrow> 0 \<notin> set sizes \<and> n \<le> length sizes"

lemma writable_mono: "writable n sizes \<Longrightarrow> m \<le> n \<Longrightarrow> writable m sizes"
  by (auto simp: writable_def)

lemma write_all_writable:
  "writable (length bs + n) sizes \<Longrightarrow> \<exists>left. write_all sizes bs = (bs, True, left) \<and> writable n left"
proof (induction sizes bs rule: write_all.induct)
  case (3 w sizes b bs)
  then have w: "w \<noteq> 0" and "writable (length (drop w (b # bs)) + n) sizes" by (auto simp: writable_def)
  from 3(1)[OF w this(2)] obtain left where "write_all sizes (drop w (b # bs)) = (drop w (b # bs), True, left)" "writable n left" by blast
  then show ?case using w by simp
qed (auto simp: writable_def)

lemma pipe_write_writable:
  assumes "writable (length (frame m) + n) sizes" "length m < 2 ^ 32"
  shows "\<exists>left. pipe_write_message sizes m = (frame m, True, left) \<and> writable n left"
proof -
  obtain l1 where 1: "write_all sizes (le32 (length m)) = (le32 (length m), True, l1)" "writable (length m + n) l1"
    using write_all_writable[of "le32 (length m)" "length m + n" sizes] assms by (auto simp: frame_def add.assoc)
  obtain l2 where "write_all l1 m = (m, True, l2)" "writable n l2" using write_all_writable[OF 1(2)] by blast
  then show ?thesis using 1 assms(2) by (simp add: pipe_write_message_def frame_def)
qed

lemma socket_write_writable:
  assumes "writable (length (frame m) + n) sizes" "length m < 2 ^ 31"
  shows "\<exists>left. socket_write_message sizes m = (frame m, True, left) \<and> writable n left"
proof -
  have "socket_write_message sizes m = pipe_write_message sizes m"
    using assms(2) by (simp add: socket_write_message_def pipe_write_message_def socket_write_all_def case_prod_beta Let_def)
  then show ?thesis using pipe_write_writable[OF assms(1)] assms(2) by simp
qed

lemma pipe_write_ok: "pipe_write_message sizes m = (out, True, left) \<Longrightarrow> length m < 2 ^ 32 \<Longrightarrow> out = frame m"
  by (auto simp: pipe_write_message_def frame_def Let_def dest!: write_all_ok split: prod.splits if_splits)

lemma socket_write_ok: "socket_write_message sizes m = (out, True, left) \<Longrightarrow> length m < 2 ^ 32 \<Longrightarrow> out = frame m"
  by (auto simp: socket_write_message_def socket_write_all_def frame_def Let_def dest!: write_all_ok split: prod.splits if_splits)

section \<open>Channels\<close>

text \<open>
  What the servers need of a way to exchange messages: a message that was sent completely is what the
  other side receives next, whatever the pieces it arrives in. \<open>linked\<close> says which states of the
  two sides belong together, \<open>carries\<close> which messages the channel can transport.
\<close>

fun sends :: "(nat list \<Rightarrow> string \<Rightarrow> 'c \<Rightarrow> (string \<times> bool \<times> nat list) \<times> 'c) \<Rightarrow> nat list \<Rightarrow> string list \<Rightarrow> 'c \<Rightarrow> string \<times> bool" where
  "sends send sizes [] a = ([], True)"
| "sends send sizes (m # ms) a =
     (let ((out, ok, left), a') = send sizes m a in
      if ok then (let (more, ok') = sends send left ms a' in (out @ more, ok')) else (out, False))"

locale message_channel =
  fixes send :: "'p \<Rightarrow> nat list \<Rightarrow> string \<Rightarrow> 'c \<Rightarrow> (string \<times> bool \<times> nat list) \<times> 'c"
    and recv :: "'p \<Rightarrow> string list \<Rightarrow> 'c \<Rightarrow> (string \<times> string list) option"
    and linked :: "'p \<Rightarrow> 'c \<Rightarrow> 'c \<Rightarrow> bool"
    and carries :: "string \<Rightarrow> bool"
  assumes delivered: "linked p a b \<Longrightarrow> carries m \<Longrightarrow> send p sizes m a = ((out, True, left), a') \<Longrightarrow>
      [] \<notin> set pieces \<Longrightarrow> concat pieces = out @ rest \<Longrightarrow>
      \<exists>pieces'. recv p pieces b = Some (m, pieces') \<and> concat pieces' = rest \<and> [] \<notin> set pieces'"
    and stays_linked: "linked p a b \<Longrightarrow> send p sizes m a = (r, a') \<Longrightarrow> linked p a' b"
    and receiver_sends: "linked p a b \<Longrightarrow> send p sizes m b = (r, b') \<Longrightarrow> linked p a b'"
begin

lemma all_delivered:
  assumes "linked p a b" "\<forall>m \<in> set ms. carries m" "sends (send p) sizes ms a = (out, True)"
    and "[] \<notin> set pieces" "concat pieces = out @ rest"
  shows "\<exists>pieces'. read_messages (\<lambda>pc. recv p pc b) (length ms) pieces = Some (ms, pieces') \<and>
    concat pieces' = rest \<and> [] \<notin> set pieces'"
  using assms
proof (induction ms arbitrary: sizes a out pieces)
  case (Cons m ms)
  obtain out1 left a' out2 where s: "send p sizes m a = ((out1, True, left), a')"
    "sends (send p) left ms a' = (out2, True)" "out = out1 @ out2"
    using Cons.prems(3) by (auto simp: Let_def split: prod.splits if_splits)
  obtain p1 where p1: "recv p pieces b = Some (m, p1)" "concat p1 = out2 @ rest" "[] \<notin> set p1"
    using delivered[OF Cons.prems(1) _ s(1) Cons.prems(4), of "out2 @ rest"] Cons.prems(2,5) s(3) by auto
  from Cons.IH[OF stays_linked[OF Cons.prems(1) s(1)] _ s(2) p1(3,2)] Cons.prems(2) obtain p2 where
    "read_messages (\<lambda>pc. recv p pc b) (length ms) p1 = Some (ms, p2)" "concat p2 = rest" "[] \<notin> set p2" by auto
  then show ?case using p1(1) by simp
qed simp

end

text \<open>The named pipe is one; it has no state.\<close>

definition pipe_send :: "unit \<Rightarrow> nat list \<Rightarrow> string \<Rightarrow> unit \<Rightarrow> (string \<times> bool \<times> nat list) \<times> unit" where
  "pipe_send p sizes m a = (pipe_write_message sizes m, a)"

definition pipe_recv :: "unit \<Rightarrow> string list \<Rightarrow> unit \<Rightarrow> (string \<times> string list) option" where
  "pipe_recv p pieces a = pipe_read_message pieces"

interpretation pipe_channel: message_channel pipe_send pipe_recv "\<lambda>p a b. True" "\<lambda>m. length m < 2 ^ 32"
proof
  fix p a m sizes out left a' pieces rest
  assume "length m < 2 ^ 32" "pipe_send p sizes m a = ((out, True, left), a')" and ne: "[] \<notin> set pieces"
    and "concat pieces = out @ rest"
  then have "concat pieces = frame m @ rest" "length m < 2 ^ 32" using pipe_write_ok by (simp_all add: pipe_send_def)
  from read_frame[OF ne this] show "\<exists>pieces'. pipe_recv p pieces b = Some (m, pieces') \<and> concat pieces' = rest \<and> [] \<notin> set pieces'" for b
    by (auto simp: pipe_recv_def)
qed simp_all

lemma pipe_sends_writable:
  assumes "writable (length (concat (map frame ms))) sizes" "\<forall>m \<in> set ms. length m < 2 ^ 32"
  shows "sends (pipe_send ()) sizes ms () = (concat (map frame ms), True)"
  using assms
proof (induction ms arbitrary: sizes)
  case (Cons m ms)
  have "writable (length (frame m) + length (concat (map frame ms))) sizes" using Cons.prems(1) by simp
  from pipe_write_writable[OF this] Cons show ?case by (auto simp: pipe_send_def)
qed simp

text \<open>Messages survive the pipe. If every write accepts at least one byte, all messages are written, and
  whatever pieces the operating system cuts the stream into, the daemon reads exactly these messages
  in order.\<close>

theorem frames_read_back:
  assumes "writable (length (concat (map frame ms))) sizes" and "\<forall>m \<in> set ms. length m < 2 ^ 32"
    and "[] \<notin> set pieces" and "concat pieces = fst (sends (pipe_send ()) sizes ms ()) @ rest"
  shows "\<exists>pieces'. read_messages pipe_read_message (length ms) pieces = Some (ms, pieces') \<and> concat pieces' = rest"
  using pipe_channel.all_delivered[OF TrueI assms(2) pipe_sends_writable[OF assms(1,2)] assms(3), of rest "()"] assms(4)
  by (auto simp: pipe_sends_writable[OF assms(1,2)] pipe_recv_def)

theorem frames_read_back_witness:
  "\<exists>pieces'. read_messages pipe_read_message (length [''ab'', ''c''])
     [le32 (length ''ab''), ''a'', ''b'' @ le32 (length ''c''), ''c'', ''x''] =
       Some ([''ab'', ''c''], pieces') \<and> concat pieces' = ''x''"
proof -
  let ?ps = "[le32 (length ''ab''), ''a'', ''b'' @ le32 (length ''c''), ''c'', ''x'']" and ?ms = "[''ab'', ''c'']"
  have "writable (length (concat (map frame ?ms))) (replicate 20 1)" "\<forall>m \<in> set ?ms. length m < 2 ^ 32"
    by (simp_all add: writable_def frame_def)
  moreover from pipe_sends_writable[OF this] have
    "[] \<notin> set ?ps" "concat ?ps = fst (sends (pipe_send ()) (replicate 20 1) ?ms ()) @ ''x''"
    by (simp_all add: frame_def)
  ultimately show ?thesis by (rule frames_read_back)
qed

text \<open>The client reads a message once. If the operating system delivers it in two pieces, the client takes
  the first and believes the rest to be zero bytes.\<close>

theorem client_short_read:
  assumes "a \<noteq> []" and "b \<noteq> []" and "length (a @ b) < 2 ^ 31"
  shows "conn_recv is_tcp ((le32 (length (a @ b)) @ a) # b # ps) =
    Ok (Some (a @ replicate (length b) (CHR 0x00), b # ps))"
  using assms by (simp add: conn_recv_def os_read_def un_le32_le32)

theorem client_short_read_witness:
  "conn_recv True [le32 (length (''{\"a'' @ ''\"}'')) @ ''{\"a'', ''\"}''] =
   Ok (Some (''{\"a'' @ replicate (length ''\"}'') (CHR 0x00), [''\"}'']))"
  by (rule client_short_read) simp_all

end
