(* ===== verification/Crypto.thy ===== *)
theory Crypto
  imports Types Base64 Transport
begin

text \<open>
  \<open>core/src/crypto.cpp\<close>: the state of a \<open>CryptoSession\<close>, the layout of encrypted packets and
  the checking of SSH signatures, together with \<open>encrypted_send\<close> and \<open>encrypted_recv\<close> of
  \<open>daemon/src/tcp_server.cpp\<close>, which put packets on the stream.

  The primitives of the operating system's CNG library are the fields of \<open>Cng\<close>: each gives
  \<open>None\<close> when the call fails. What the code relies on is \<open>gcm_correct\<close>: opening what was
  sealed under the same key and nonce gives the plaintext, ciphertexts are as long as plaintexts and
  tags have 16 bytes, as the documentation of AES-GCM promises.

  Shown here: what one side sends over an encrypted connection the other side reads, however the
  stream is cut; the nonces of one session do not repeat before the 64-bit counter wraps; but the two
  directions of a connection use the same nonces under the same key.
\<close>

section \<open>Bytes and strings\<close>

definition bytes_of :: "string \<Rightarrow> bytes" where
  "bytes_of = map (\<lambda>c. word_of_nat (code_of c))"

definition string_of :: "bytes \<Rightarrow> string" where
  "string_of = map (\<lambda>b. char_of (unat b))"

lemma length_bytes_of [simp]: "length (bytes_of s) = length s"
  by (simp add: bytes_of_def)

lemma length_string_of [simp]: "length (string_of b) = length b"
  by (simp add: string_of_def)

lemma bytes_of_string_of [simp]: "bytes_of (string_of b) = b"
proof -
  have "unat x < 2 ^ LENGTH(8)" for x :: "8 word" by (rule unsigned_less)
  then have "unat (x :: 8 word) mod 256 = unat x" for x by simp
  then show ?thesis by (simp add: bytes_of_def string_of_def comp_def)
qed

lemma string_of_bytes_of [simp]: "string_of (bytes_of s) = s"
  by (simp add: bytes_of_def string_of_def comp_def unat_of_nat)

section \<open>Sessions\<close>

record Cng =
  open_ecdh :: bool
  new_key_pair :: "bytes option"
  export_public :: "bytes \<Rightarrow> bytes"
  import_public :: "bytes \<Rightarrow> bytes option"
  secret_agreement :: "bytes \<Rightarrow> bytes \<Rightarrow> bytes option"
  derive_sha256 :: "bytes \<Rightarrow> bytes option"
  open_aes_gcm :: bool
  symmetric_key :: "bytes \<Rightarrow> bytes option"
  gcm_seal :: "bytes \<Rightarrow> bytes \<Rightarrow> bytes \<Rightarrow> (bytes \<times> bytes) option"
  gcm_open :: "bytes \<Rightarrow> bytes \<Rightarrow> bytes \<Rightarrow> bytes \<Rightarrow> bytes option"
  ed25519_verify :: "bytes \<Rightarrow> bytes \<Rightarrow> bytes \<Rightarrow> bool"

record CryptoSession =
  cs_initialized :: bool
  cs_ecdh :: bool
  cs_local_key :: "bytes option"
  cs_session_key :: "bytes option"
  cs_nonce_counter :: "64 word"

definition new_crypto :: CryptoSession where
  "new_crypto = \<lparr>cs_initialized = False, cs_ecdh = False, cs_local_key = None, cs_session_key = None, cs_nonce_counter = 0\<rparr>"

definition generate_local_key :: "Cng \<Rightarrow> CryptoSession \<Rightarrow> bytes \<times> CryptoSession" where
  "generate_local_key C cs =
     (if \<not> open_ecdh C then ([], cs)
      else case new_key_pair C of
        None \<Rightarrow> ([], cs\<lparr>cs_ecdh := True\<rparr>)
      | Some k \<Rightarrow> (export_public C k, cs\<lparr>cs_ecdh := True, cs_local_key := Some k\<rparr>))"

text \<open>Calls on handles that were never opened fail.\<close>

definition compute_shared_secret :: "Cng \<Rightarrow> bytes \<Rightarrow> CryptoSession \<Rightarrow> bool \<times> CryptoSession" where
  "compute_shared_secret C remote cs =
     (if \<not> cs_ecdh cs then (False, cs)
      else case import_public C remote of None \<Rightarrow> (False, cs)
      | Some rk \<Rightarrow> (case Option.bind (cs_local_key cs) (\<lambda>k. secret_agreement C k rk) of None \<Rightarrow> (False, cs)
        | Some secret \<Rightarrow> (case derive_sha256 C secret of None \<Rightarrow> (False, cs)
          | Some derived \<Rightarrow>
              (if \<not> open_aes_gcm C then (False, cs)
               else case symmetric_key C derived of None \<Rightarrow> (False, cs)
               | Some k \<Rightarrow> (True, cs\<lparr>cs_session_key := Some k, cs_initialized := True\<rparr>)))))"

section \<open>Packets\<close>

definition nonce_of :: "64 word \<Rightarrow> bytes" where
  "nonce_of n = map (\<lambda>i. ucast (drop_bit (8 * i) n)) [0..<8] @ replicate 4 0"

definition encrypt :: "Cng \<Rightarrow> string \<Rightarrow> CryptoSession \<Rightarrow> bytes \<times> CryptoSession" where
  "encrypt C plaintext cs =
     (if \<not> cs_initialized cs then ([], cs)
      else let nonce = nonce_of (cs_nonce_counter cs); cs' = cs\<lparr>cs_nonce_counter := cs_nonce_counter cs + 1\<rparr>;
               plain = bytes_of (take (length plaintext mod 2 ^ 32) plaintext)
           in case Option.bind (cs_session_key cs) (\<lambda>k. gcm_seal C k nonce plain) of
                None \<Rightarrow> ([], cs')
              | Some (ct, tag) \<Rightarrow> (nonce @ tag @ ct, cs'))"

definition decrypt :: "Cng \<Rightarrow> bytes \<Rightarrow> CryptoSession \<Rightarrow> string" where
  "decrypt C ciphertext cs =
     (if \<not> cs_initialized cs \<or> length ciphertext < 28 then []
      else let nonce = take 12 ciphertext; tag = take 16 (drop 12 ciphertext); ct = drop 28 ciphertext
           in case Option.bind (cs_session_key cs) (\<lambda>k. gcm_open C k nonce ct tag) of
                None \<Rightarrow> []
              | Some plain \<Rightarrow> string_of plain)"

text \<open>
  \<open>encrypted_send\<close> gives what reaches the stream, whether all went well, and the sizes left for
  later writes; \<open>encrypted_recv\<close> gives the plaintext and the rest of the stream.
\<close>

definition encrypted_send ::
  "Cng \<Rightarrow> nat list \<Rightarrow> string \<Rightarrow> CryptoSession \<Rightarrow> (string \<times> bool \<times> nat list) \<times> CryptoSession" where
  "encrypted_send C sizes plaintext cs =
     (let (ct, cs') = encrypt C plaintext cs in
      if ct = [] then (([], False, sizes), cs')
      else (socket_write_message sizes (string_of ct), cs'))"

definition encrypted_recv :: "Cng \<Rightarrow> string list \<Rightarrow> CryptoSession \<Rightarrow> (string \<times> string list) option" where
  "encrypted_recv C pieces cs =
     (case tcp_read_message pieces of None \<Rightarrow> None
      | Some (ct, rest) \<Rightarrow>
          (let plaintext = decrypt C (bytes_of ct) cs in if plaintext = [] then None else Some (plaintext, rest)))"

section \<open>SSH signatures\<close>

definition parse_ssh_pubkey :: "string \<Rightarrow> bytes" where
  "parse_ssh_pubkey line =
     (let (type, rest) = extract_word line; (b64, _) = extract_word rest in
      if type \<noteq> ''ssh-ed25519'' then []
      else let decoded = decode b64 in if length decoded < 32 then [] else drop (length decoded - 32) decoded)"

text \<open>
  \<open>ed25519_verify\<close> stands for opening the provider, importing the key and
  \<open>BCryptVerifySignature\<close> on the first 64 bytes.
\<close>

definition verify_ssh_sig :: "Cng \<Rightarrow> bytes \<Rightarrow> string \<Rightarrow> string \<Rightarrow> bool" where
  "verify_ssh_sig C message sig_b64 pubkey_line =
     (let raw_pubkey = parse_ssh_pubkey pubkey_line in
      if raw_pubkey = [] then False
      else let raw_sig = decode sig_b64 in
        if length raw_sig < 64 then False
        else ed25519_verify C raw_pubkey message (take 64 raw_sig))"

definition sign_ssh_msg :: "bytes \<Rightarrow> string \<Rightarrow> string" where
  "sign_ssh_msg message private_key_path = ''SSHSIG_STUB_REPLACE_WITH_REAL_SIGNING''"

section \<open>What the code relies on\<close>

definition gcm_correct :: "Cng \<Rightarrow> bool" where
  "gcm_correct C \<longleftrightarrow> (\<forall>k nonce plain ct tag. gcm_seal C k nonce plain = Some (ct, tag) \<longrightarrow>
     length ct = length plain \<and> length tag = 16 \<and> gcm_open C k nonce ct tag = Some plain)"

text \<open>For the claims that something is sent: sealing does not fail.\<close>

definition gcm_seals :: "Cng \<Rightarrow> bool" where
  "gcm_seals C \<longleftrightarrow> (\<forall>k nonce plain. gcm_seal C k nonce plain \<noteq> None)"

section \<open>Nonces\<close>

lemma length_nonce_of [simp]: "length (nonce_of n) = 12"
  by (simp add: nonce_of_def)

lemma nonce_of_nonempty [simp]: "nonce_of n \<noteq> []"
  by (simp add: nonce_of_def)

lemma bit_nonce:
  assumes "k < 64"
  shows "bit (nonce_of n ! (k div 8)) (k mod 8) = bit n k"
proof -
  have "k div 8 < 8" using assms by simp
  then have "nonce_of n ! (k div 8) = ucast (drop_bit (8 * (k div 8)) n)"
    by (simp add: nonce_of_def nth_append del: upt_Suc)
  then show ?thesis by (simp add: bit_ucast_iff bit_drop_bit_eq)
qed

lemma nonce_of_inject: "nonce_of m = nonce_of n \<longleftrightarrow> m = n"
proof
  assume eq: "nonce_of m = nonce_of n"
  show "m = n"
  proof (rule bit_word_eqI)
    fix k
    assume "k < LENGTH(64)"
    then show "bit m k = bit n k" using bit_nonce[of k m] bit_nonce[of k n] eq by simp
  qed
qed simp

text \<open>The packets of a sequence of calls of \<open>encrypt\<close> on one session.\<close>

fun packets :: "Cng \<Rightarrow> string list \<Rightarrow> CryptoSession \<Rightarrow> bytes list" where
  "packets C [] cs = []"
| "packets C (p # ps) cs = (let (ct, cs') = encrypt C p cs in ct # packets C ps cs')"

definition nonces :: "bytes list \<Rightarrow> bytes list" where
  "nonces cts = map (take 12) (filter (\<lambda>ct. ct \<noteq> []) cts)"

lemma encrypt_nonce: "fst (encrypt C p cs) \<noteq> [] \<Longrightarrow> take 12 (fst (encrypt C p cs)) = nonce_of (cs_nonce_counter cs)"
  by (auto simp: encrypt_def Let_def split: option.splits)

lemma encrypt_counter:
  "cs_nonce_counter (snd (encrypt C p cs)) = (if cs_initialized cs then cs_nonce_counter cs + 1 else cs_nonce_counter cs)"
  "cs_initialized (snd (encrypt C p cs)) = cs_initialized cs"
  "cs_session_key (snd (encrypt C p cs)) = cs_session_key cs"
  by (auto simp: encrypt_def Let_def split: option.splits)

lemma packets_uninitialized: "\<not> cs_initialized cs \<Longrightarrow> nonces (packets C ps cs) = []"
  by (induction ps) (auto simp: nonces_def encrypt_def)

lemma packets_nonces:
  "cs_initialized cs \<Longrightarrow> set (nonces (packets C ps cs)) \<subseteq> (\<lambda>i. nonce_of (cs_nonce_counter cs + of_nat i)) ` {..<length ps}"
proof (induction ps arbitrary: cs)
  case (Cons p ps)
  let ?cs = "snd (encrypt C p cs)"
  have head: "take 12 (fst (encrypt C p cs)) \<in> (\<lambda>i. nonce_of (cs_nonce_counter cs + of_nat i)) ` {..<length (p # ps)}"
    if "fst (encrypt C p cs) \<noteq> []"
    using encrypt_nonce[OF that] by (intro image_eqI[of _ _ 0]) auto
  have "set (nonces (packets C ps ?cs)) \<subseteq> (\<lambda>i. nonce_of (cs_nonce_counter cs + 1 + of_nat i)) ` {..<length ps}"
    using Cons.IH[of ?cs] Cons.prems by (simp add: encrypt_counter)
  also have "\<dots> \<subseteq> (\<lambda>i. nonce_of (cs_nonce_counter cs + of_nat i)) ` {..<length (p # ps)}"
  proof
    fix x
    assume "x \<in> (\<lambda>i. nonce_of (cs_nonce_counter cs + 1 + of_nat i)) ` {..<length ps}"
    then obtain i where "i < length ps" "x = nonce_of (cs_nonce_counter cs + 1 + of_nat i)" by blast
    then show "x \<in> (\<lambda>i. nonce_of (cs_nonce_counter cs + of_nat i)) ` {..<length (p # ps)}"
      by (intro image_eqI[of _ _ "Suc i"]) (auto simp: ac_simps)
  qed
  finally show ?case using head by (auto simp: nonces_def case_prod_beta Let_def)
qed (simp add: nonces_def)

lemma nonce_later:
  assumes "n < 2 ^ 64"
  shows "nonce_of c \<notin> (\<lambda>i. nonce_of (c + 1 + of_nat i)) ` {..<n}"
proof
  assume "nonce_of c \<in> (\<lambda>i. nonce_of (c + 1 + of_nat i)) ` {..<n}"
  then obtain i where i: "i < n" "c = c + 1 + of_nat i" using nonce_of_inject by blast
  then have "(of_nat (Suc i) :: 64 word) = 0" by (simp add: algebra_simps)
  then have "2 ^ LENGTH(64) dvd Suc i" by (simp only: word_of_nat_eq_0_iff)
  then show False using i(1) assms by (auto dest!: dvd_imp_le)
qed

lemma packets_distinct:
  assumes "length ps \<le> 2 ^ 64"
  shows "distinct (nonces (packets C ps cs))"
proof (cases "cs_initialized cs")
  case True
  then show ?thesis using assms
  proof (induction ps arbitrary: cs)
    case (Cons p ps)
    let ?cs = "snd (encrypt C p cs)"
    have i: "cs_initialized ?cs" using Cons.prems by (simp add: encrypt_counter)
    have "distinct (nonces (packets C ps ?cs))" using Cons.IH[OF i] Cons.prems by simp
    moreover have "nonce_of (cs_nonce_counter cs) \<notin> set (nonces (packets C ps ?cs))"
      using packets_nonces[OF i, of C ps] nonce_later[of "length ps" "cs_nonce_counter cs"] Cons.prems
      by (auto simp: encrypt_counter)
    ultimately show ?case using encrypt_nonce[of C p cs] by (auto simp: nonces_def case_prod_beta Let_def)
  qed (simp add: nonces_def)
qed (simp add: packets_uninitialized)

section \<open>The encrypted channel\<close>

lemma encrypt_packet:
  assumes "gcm_correct C" "cs_session_key cs = Some k" "fst (encrypt C p cs) \<noteq> []" "length p < 2 ^ 32"
  obtains tag ct where "fst (encrypt C p cs) = nonce_of (cs_nonce_counter cs) @ tag @ ct"
    "length tag = 16" "length ct = length p" "gcm_open C k (nonce_of (cs_nonce_counter cs)) ct tag = Some (bytes_of p)"
proof -
  from assms(2-4) obtain ct tag where
    "gcm_seal C k (nonce_of (cs_nonce_counter cs)) (bytes_of p) = Some (ct, tag)"
    "fst (encrypt C p cs) = nonce_of (cs_nonce_counter cs) @ tag @ ct"
    by (auto simp: encrypt_def Let_def split: if_splits option.splits)
  with that show thesis using assms(1) unfolding gcm_correct_def by fastforce
qed

lemma decrypt_encrypt:
  assumes "gcm_correct C" "cs_session_key cs = Some k" "fst (encrypt C p cs) \<noteq> []" "length p < 2 ^ 32"
    and "cs_initialized peer" "cs_session_key peer = Some k"
  shows "decrypt C (fst (encrypt C p cs)) peer = p \<and> length (fst (encrypt C p cs)) = 28 + length p"
proof -
  obtain tag ct where "fst (encrypt C p cs) = nonce_of (cs_nonce_counter cs) @ tag @ ct"
    "length tag = 16" "length ct = length p" "gcm_open C k (nonce_of (cs_nonce_counter cs)) ct tag = Some (bytes_of p)"
    using encrypt_packet[OF assms(1-4)] .
  then show ?thesis using assms(5,6) by (simp add: decrypt_def)
qed

lemma encrypted_send_recv:
  assumes "gcm_correct C" "cs_session_key cs = Some k" "cs_initialized peer" "cs_session_key peer = Some k"
    and p: "p \<noteq> []" "length p + 28 \<le> max_frame" and sent: "encrypted_send C sizes p cs = ((out, True, sz), cs')"
    and pieces: "[] \<notin> set pieces" "concat pieces = out @ rest"
  shows "\<exists>pieces'. encrypted_recv C pieces peer = Some (p, pieces') \<and> concat pieces' = rest \<and> [] \<notin> set pieces'"
proof -
  let ?ct = "fst (encrypt C p cs)"
  have lp: "length p < 2 ^ 32" using p(2) by (simp add: max_frame_def)
  have ne: "?ct \<noteq> []" and w: "socket_write_message sizes (string_of ?ct) = (out, True, sz)"
    using sent by (auto simp: encrypted_send_def case_prod_beta Let_def split: if_splits)
  have dec: "decrypt C ?ct peer = p" "length ?ct = 28 + length p"
    using decrypt_encrypt[OF assms(1,2) ne lp assms(3,4)] by auto
  have len: "length (string_of ?ct) \<le> max_frame" "length (string_of ?ct) < 2 ^ 32" "string_of ?ct \<noteq> []"
    using dec(2) p(2) by (auto simp: max_frame_def simp flip: length_0_conv)
  then have "concat pieces = frame (string_of ?ct) @ rest" using socket_write_ok[OF w] pieces(2) by simp
  with read_frame[OF pieces(1) this len(2)] len(1,3) obtain pieces' where
    "tcp_read_message pieces = Some (string_of ?ct, pieces')" "concat pieces' = rest" "[] \<notin> set pieces'" by blast
  then show ?thesis using dec(1) p(1) by (simp add: encrypted_recv_def Let_def)
qed

lemma encrypted_send_session:
  "encrypted_send C sizes p cs = (r, cs') \<Longrightarrow>
     cs_session_key cs' = cs_session_key cs \<and> cs_initialized cs' = cs_initialized cs"
  using encrypt_counter(2,3)[of C p cs] by (auto simp: encrypted_send_def case_prod_beta Let_def split: if_splits)

text \<open>Two ends that hold the same key.\<close>

definition same_key :: "Cng \<Rightarrow> CryptoSession \<Rightarrow> CryptoSession \<Rightarrow> bool" where
  "same_key C cs peer \<longleftrightarrow> gcm_correct C \<and> cs_initialized peer \<and>
     cs_session_key peer \<noteq> None \<and> cs_session_key cs = cs_session_key peer"

interpretation encrypted: message_channel encrypted_send encrypted_recv same_key
  "\<lambda>m. m \<noteq> [] \<and> length m + 28 \<le> max_frame"
proof
  fix p a b m sizes out sz a' pieces rest
  assume "same_key p a b" "m \<noteq> [] \<and> length m + 28 \<le> max_frame" "encrypted_send p sizes m a = ((out, True, sz), a')"
    "[] \<notin> set pieces" "concat pieces = out @ rest"
  then show "\<exists>pieces'. encrypted_recv p pieces b = Some (m, pieces') \<and> concat pieces' = rest \<and> [] \<notin> set pieces'"
    using encrypted_send_recv[of p a _ b m sizes out sz a' pieces rest] by (auto simp: same_key_def)
next
  fix p a b sizes m r a'
  assume "same_key p a b" "encrypted_send p sizes m a = (r, a')"
  then show "same_key p a' b" using encrypted_send_session[of p sizes m a r a'] by (simp add: same_key_def)
next
  fix p a b sizes m r b'
  assume "same_key p a b" "encrypted_send p sizes m b = (r, b')"
  then show "same_key p a b'" using encrypted_send_session[of p sizes m b r b'] by (simp add: same_key_def)
qed

text \<open>C20: what one side sends over an encrypted connection the other side, holding the same key, reads in order,
  however the stream is cut, given that opening inverts sealing.\<close>

theorem encrypted_channel:
  assumes "gcm_correct C" and "cs_session_key cs = Some k" and "cs_initialized peer" and "cs_session_key peer = Some k"
    and "\<forall>p \<in> set ps. p \<noteq> [] \<and> length p + 28 \<le> max_frame"
    and "sends (encrypted_send C) sizes ps cs = (out, True)" and "[] \<notin> set pieces" and "concat pieces = out @ rest"
  shows "\<exists>pieces'. read_messages (\<lambda>pc. encrypted_recv C pc peer) (length ps) pieces = Some (ps, pieces') \<and>
    concat pieces' = rest"
proof -
  have "same_key C cs peer" using assms by (simp add: same_key_def)
  from encrypted.all_delivered[OF this assms(5-8)] show ?thesis by blast
qed

lemma encrypted_send_writable:
  assumes "gcm_correct C" "gcm_seals C" "cs_initialized cs" "cs_session_key cs = Some k"
    and "length m + 28 \<le> max_frame" "writable (length m + 32 + n) sizes"
  shows "\<exists>out sz cs'. encrypted_send C sizes m cs = ((out, True, sz), cs') \<and> writable n sz"
proof -
  let ?ct = "fst (encrypt C m cs)"
  have m: "length m < 2 ^ 32" using assms(5) by (simp add: max_frame_def)
  obtain ct tag where "gcm_seal C k (nonce_of (cs_nonce_counter cs)) (bytes_of m) = Some (ct, tag)"
    using assms(2) unfolding gcm_seals_def by (metis not_None_eq prod.exhaust)
  then have ne: "?ct \<noteq> []" using assms(3,4) m by (simp add: encrypt_def Let_def)
  have len: "length ?ct = 28 + length m" using decrypt_encrypt[OF assms(1,4) ne m assms(3,4)] by simp
  then have "writable (length (frame (string_of ?ct)) + n) sizes" "length (string_of ?ct) < 2 ^ 31"
    using assms(5,6) by (simp_all add: frame_def max_frame_def ac_simps)
  from socket_write_writable[OF this] ne show ?thesis by (auto simp: encrypted_send_def case_prod_beta Let_def)
qed

text \<open>Primitives that satisfy the assumption: a cipher that changes nothing, with a constant tag.\<close>

definition plain_cng :: Cng where
  "plain_cng = \<lparr>open_ecdh = True, new_key_pair = Some [1], export_public = id, import_public = Some,
     secret_agreement = (\<lambda>a b. Some (a @ b)), derive_sha256 = Some, open_aes_gcm = True, symmetric_key = Some,
     gcm_seal = (\<lambda>k n p. Some (p, replicate 16 0)), gcm_open = (\<lambda>k n ct tag. Some ct),
     ed25519_verify = (\<lambda>pk m sig. pk @ m = sig)\<rparr>"

definition open_session :: CryptoSession where
  "open_session = snd (compute_shared_secret plain_cng [2] (snd (generate_local_key plain_cng new_crypto)))"

lemma open_session_simps [simp]:
  "cs_initialized open_session" "cs_session_key open_session = Some [1, 2]" "cs_nonce_counter open_session = 0"
  by (simp_all add: open_session_def compute_shared_secret_def generate_local_key_def plain_cng_def new_crypto_def)

lemma plain_cng_correct: "gcm_correct plain_cng" "gcm_seals plain_cng"
  by (simp_all add: gcm_correct_def gcm_seals_def plain_cng_def)

lemma zeros: "replicate 4 x = [x, x, x, x]" "replicate 8 x = replicate 4 x @ replicate 4 x"
  "replicate 16 x = replicate 8 x @ replicate 8 x"
  by (simp_all add: eval_nat_numeral)

theorem encrypted_channel_witness:
  "\<exists>out pieces'. sends (encrypted_send plain_cng) [4, 100, 3, 1, 20, 100] [''{}'', ''[]''] open_session = (out, True) \<and>
     read_messages (\<lambda>pc. encrypted_recv plain_cng pc open_session) (length [''{}'', ''[]'']) [take 7 out, drop 7 out] =
       Some ([''{}'', ''[]''], pieces') \<and> concat pieces' = []"
proof -
  obtain out where out: "sends (encrypted_send plain_cng) [4, 100, 3, 1, 20, 100] [''{}'', ''[]''] open_session = (out, True)" "length out = 68"
    by (simp add: encrypted_send_def encrypt_def socket_write_message_def socket_write_all_def le32_def plain_cng_def Let_def
        nonce_of_def string_of_def bytes_of_def upt_rec zeros)
  then have "[] \<notin> set [take 7 out, drop 7 out]" "concat [take 7 out, drop 7 out] = out @ []" by auto
  from encrypted_channel[OF plain_cng_correct(1) open_session_simps(2,1,2) _ out(1) this] out(1)
  show ?thesis by (auto simp: max_frame_def)
qed

text \<open>C33: a session that has agreed on a key never repeats a nonce within \<open>2^64\<close> packets. The counter of every
  session starts at zero, so the first packets of the two directions of a connection, which share the
  key, carry the same nonce.\<close>

theorem nonce_use:
  assumes "compute_shared_secret C remote (snd (generate_local_key C new_crypto)) = (True, cs)" and "length ps \<le> 2 ^ 64"
  shows "distinct (nonces (packets C ps cs)) \<and>
    (\<forall>p. fst (encrypt C p cs) \<noteq> [] \<longrightarrow> take 12 (fst (encrypt C p cs)) = nonce_of 0)"
proof -
  have "cs_nonce_counter cs = 0"
    using assms(1) by (auto simp: compute_shared_secret_def generate_local_key_def new_crypto_def split: if_splits option.splits)
  then show ?thesis using packets_distinct[OF assms(2)] encrypt_nonce[of C _ cs] by simp
qed

theorem nonce_use_witness:
  "distinct (nonces (packets plain_cng [''a'', ''b''] open_session)) \<and>
   take 12 (fst (encrypt plain_cng ''a'' open_session)) = nonce_of 0"
proof -
  have agreed: "compute_shared_secret plain_cng [2] (snd (generate_local_key plain_cng new_crypto)) = (True, open_session)"
    by (simp add: open_session_def compute_shared_secret_def generate_local_key_def plain_cng_def new_crypto_def)
  moreover have "fst (encrypt plain_cng ''a'' open_session) \<noteq> []"
    by (simp add: encrypt_def Let_def plain_cng_def)
  ultimately show ?thesis using nonce_use[OF agreed, of "[''a'', ''b'']"] by simp
qed

end
