(* ===== verification/Tcp_Handshake.thy ===== *)
theory Tcp_Handshake
  imports Crypto Core_Json
begin

text \<open>
  The beginning of \<open>handle_socket_client\<close> in \<open>daemon/src/tcp_server.cpp\<close>: the challenge, the
  check of the client's answer against the authorized keys, and the agreement on a key. The random
  nonce and the sizes of the writes the operating system accepts are arguments.

  Shown here: when keys are configured, a connection passes the handshake exactly when the answer
  carries a valid signature of the nonce by the key on the line of the claimed identity; a client
  that holds such a key gets through; the command line client never does.
\<close>

section \<open>Authorized keys\<close>

record AuthContext =
  keys_data :: string
  identity :: string
  sig_b64 :: string
  auth_nonce :: bytes

text \<open>The loop over the lines; the first line that contains the identity decides.\<close>

fun scan_keys :: "Cng \<Rightarrow> AuthContext \<Rightarrow> string list \<Rightarrow> bool" where
  "scan_keys C ctx [] = False"
| "scan_keys C ctx (line # lines) =
     (if line = [] \<or> hd line = CHR ''#'' then scan_keys C ctx lines
      else if str_contains (identity ctx) line then verify_ssh_sig C (auth_nonce ctx) (sig_b64 ctx) line
      else scan_keys C ctx lines)"

definition verify_identity :: "Cng \<Rightarrow> AuthContext \<Rightarrow> bool" where
  "verify_identity C ctx = scan_keys C ctx (getlines (CHR 0x0A) (keys_data ctx))"

section \<open>Messages of the handshake\<close>

definition challenge :: "string \<Rightarrow> bytes \<Rightarrow> bytes \<Rightarrow> Object" where
  "challenge auth_keys nonce server_pubkey = obj_of (
     [(''type'', Str ''hello''), (''version'', Str PROTOCOL_VERSION)] @
     (if auth_keys = [] then []
      else (''nonce'', Str (encode nonce)) #
        (if server_pubkey = [] then [] else [(''pubkey'', Str (encode server_pubkey))])))"

definition auth_status :: Object where
  "auth_status = obj_of [(''type'', Str ''auth_status''), (''ok'', Bool True)]"

text \<open>The client's answer: \<open>None\<close> closes the connection. A failed agreement leaves it unencrypted.\<close>

definition check_reply :: "Cng \<Rightarrow> string \<Rightarrow> bytes \<Rightarrow> string \<Rightarrow> CryptoSession \<Rightarrow> CryptoSession option" where
  "check_reply C auth_keys nonce resp_json cs = (case parse resp_json of
     Ok (Obj v) \<Rightarrow>
       (case get_str v ''version'' of None \<Rightarrow> None
        | Some version \<Rightarrow>
            if version \<noteq> PROTOCOL_VERSION then None
            else (case (get_str v ''identity'', get_str v ''signature'') of
              (Some i, Some sig) \<Rightarrow>
                (if \<not> verify_identity C \<lparr>keys_data = auth_keys, identity = i, sig_b64 = sig, auth_nonce = nonce\<rparr> then None
                 else Some (case get_str v ''pubkey'' of None \<Rightarrow> cs
                   | Some pk \<Rightarrow> snd (compute_shared_secret C (decode pk) cs)))
            | _ \<Rightarrow> None))
   | _ \<Rightarrow> None)"

definition socket_read_reply :: "string list \<Rightarrow> (string \<times> string list) option" where
  "socket_read_reply pieces = (case socket_read_all 4 pieces of None \<Rightarrow> None
     | Some (len, rest) \<Rightarrow> socket_read_all (un_le32 len) rest)"

text \<open>
  The bytes sent, and, unless the connection is closed, the session, the sizes left and the rest of
  the incoming stream.
\<close>

definition handshake ::
  "Cng \<Rightarrow> string \<Rightarrow> bytes \<Rightarrow> nat list \<Rightarrow> string list \<Rightarrow> string \<times> (CryptoSession \<times> nat list \<times> string list) option" where
  "handshake C auth_keys nonce sizes pieces =
     (let (pk, cs) = generate_local_key C new_crypto;
          (out, ok, sz) = socket_write_message sizes (dumps (Obj (challenge auth_keys nonce pk)))
      in if \<not> ok then (out, None)
         else if auth_keys = [] then (out, Some (cs, sz, pieces))
         else case socket_read_reply pieces of None \<Rightarrow> (out, None)
         | Some (reply, rest) \<Rightarrow> (case check_reply C auth_keys nonce reply cs of None \<Rightarrow> (out, None)
           | Some cs' \<Rightarrow>
               (let (out2, ok2, sz2) = socket_write_message sz (dumps (Obj auth_status))
                in (out @ out2, if ok2 then Some (cs', sz2, rest) else None))))"

section \<open>Who gets through\<close>

text \<open>The line that decides about an identity.\<close>

definition key_line :: "string \<Rightarrow> string \<Rightarrow> string option" where
  "key_line auth_keys i =
     find (\<lambda>line. line \<noteq> [] \<and> hd line \<noteq> CHR ''#'' \<and> sublist i line) (getlines (CHR 0x0A) auth_keys)"

text \<open>A 32-byte Ed25519 key on that line has signed the nonce.\<close>

definition signed_by :: "Cng \<Rightarrow> string \<Rightarrow> bytes \<Rightarrow> string \<Rightarrow> bool" where
  "signed_by C line nonce sig \<longleftrightarrow> length (parse_ssh_pubkey line) = 32 \<and> 64 \<le> length (decode sig) \<and>
     ed25519_verify C (parse_ssh_pubkey line) nonce (take 64 (decode sig))"

lemma parse_ssh_pubkey_length: "parse_ssh_pubkey line \<noteq> [] \<longleftrightarrow> length (parse_ssh_pubkey line) = 32"
  by (auto simp: parse_ssh_pubkey_def Let_def case_prod_beta split: if_splits)

lemma verify_ssh_sig_iff: "verify_ssh_sig C nonce sig line \<longleftrightarrow> signed_by C line nonce sig"
  using parse_ssh_pubkey_length[of line] by (auto simp: verify_ssh_sig_def signed_by_def Let_def)

lemma scan_keys_find:
  "scan_keys C ctx lines \<longleftrightarrow>
     (\<exists>line. find (\<lambda>line. line \<noteq> [] \<and> hd line \<noteq> CHR ''#'' \<and> sublist (identity ctx) line) lines = Some line \<and>
       signed_by C line (auth_nonce ctx) (sig_b64 ctx))"
  by (induction lines) (auto simp: str_contains_iff verify_ssh_sig_iff)

lemma verify_identity_iff:
  "verify_identity C \<lparr>keys_data = auth_keys, identity = i, sig_b64 = sig, auth_nonce = nonce\<rparr> \<longleftrightarrow>
     (\<exists>line. key_line auth_keys i = Some line \<and> signed_by C line nonce sig)"
  by (simp add: verify_identity_def scan_keys_find key_line_def)

lemma check_reply_iff:
  "check_reply C auth_keys nonce reply cs = Some cs' \<longleftrightarrow>
     (\<exists>v i sig line. parse reply = Ok (Obj v) \<and> get_str v ''version'' = Some PROTOCOL_VERSION \<and>
        get_str v ''identity'' = Some i \<and> get_str v ''signature'' = Some sig \<and>
        key_line auth_keys i = Some line \<and> signed_by C line nonce sig \<and>
        cs' = (case get_str v ''pubkey'' of None \<Rightarrow> cs | Some pk \<Rightarrow> snd (compute_shared_secret C (decode pk) cs)))"
  by (auto simp: check_reply_def verify_identity_iff split: res.splits Value.splits option.splits if_splits)

section \<open>Authorized clients\<close>

lemma sextet_char: "sextet p \<Longrightarrow> alphabet ! nat p \<in> set alphabet"
proof (rule nth_mem)
  have "length alphabet = 64" by (simp add: alphabet_def)
  then show "sextet p \<Longrightarrow> nat p < length alphabet" by (auto simp: sextet_def)
qed

lemma encode_alphabet: "set (encode bs) \<subseteq> insert (CHR ''='') (set alphabet)"
proof -
  have "set (encode_ref bs) \<subseteq> insert (CHR ''='') (set alphabet)"
  proof (induction bs rule: encode_ref.induct)
    case (2 a)
    show ?case using byte_split(1,5)[of a] by (auto simp: chars_of_def sextet_char)
  next
    case (3 a b)
    show ?case using byte_split(1)[of a] byte_split(2)[of a b] byte_split(6)[of b] by (auto simp: chars_of_def sextet_char)
  next
    case (4 a b c cs)
    then show ?case using byte_split(1)[of a] byte_split(2)[of a b] byte_split(3)[of b c] byte_split(4)[of c]
      by (auto simp: chars_of_def sextets3_def sextet_char)
  qed simp
  then show ?thesis by (simp add: encode_eq_ref)
qed

lemma encode_no_space: "\<forall>c \<in> set (encode bs). \<not> isspace c"
proof -
  have "\<forall>c \<in> insert (CHR ''='') (set alphabet). \<not> isspace c" by (simp add: alphabet_def isspace_def)
  then show ?thesis using encode_alphabet by blast
qed

lemma parse_key_line:
  assumes "32 \<le> length blob"
  shows "parse_ssh_pubkey (''ssh-ed25519 '' @ encode blob @ '' '' @ comment) = drop (length blob - 32) blob"
proof -
  have "encode blob \<noteq> []" using assms by (cases blob rule: encode_ref.cases) (auto simp: encode_eq_ref chars_of_def sextets3_def)
  then have "dropWhile isspace ('' '' @ encode blob @ '' '' @ comment) = encode blob @ '' '' @ comment"
    using encode_no_space[of blob] by (cases "encode blob") (auto simp: isspace_def)
  moreover have "takeWhile (\<lambda>c. \<not> isspace c) (encode blob @ '' '' @ comment) = encode blob"
    using encode_no_space[of blob] by (subst takeWhile_append2) (auto simp: isspace_def)
  ultimately show ?thesis using assms
    by (simp add: parse_ssh_pubkey_def extract_word_def isspace_def)
qed

text \<open>The answer \<open>docs/PROTOCOL.md\<close> describes.\<close>

definition client_reply :: "string \<Rightarrow> bytes \<Rightarrow> bytes \<Rightarrow> Object" where
  "client_reply i sig pk = obj_of [(''version'', Str PROTOCOL_VERSION), (''identity'', Str i),
     (''signature'', Str (encode sig)), (''pubkey'', Str (encode pk))]"

lemma check_client_reply:
  assumes "key_line auth_keys i = Some (''ssh-ed25519 '' @ encode blob @ '' '' @ comment)" "32 \<le> length blob"
    and "64 \<le> length sig" "ed25519_verify C (drop (length blob - 32) blob) nonce (take 64 sig)"
  shows "check_reply C auth_keys nonce (dumps (Obj (client_reply i sig pk))) cs = Some (snd (compute_shared_secret C pk cs))"
proof -
  have "wire_value (Obj (client_reply i sig pk))" unfolding client_reply_def by (intro wire_obj_of) simp
  then have "parse (dumps (Obj (client_reply i sig pk))) = Ok (Obj (client_reply i sig pk))" by (rule wire_round_trip)
  moreover have "signed_by C (''ssh-ed25519 '' @ encode blob @ '' '' @ comment) nonce (encode sig)"
    using assms by (simp only: signed_by_def parse_key_line decode_encoded) simp
  ultimately show ?thesis unfolding check_reply_iff using assms(1)
    by (simp add: client_reply_def get_str_def)
qed

lemma socket_read_frame:
  assumes "[] \<notin> set pieces" "concat pieces = frame m @ rest" "length m < 2 ^ 31"
  shows "\<exists>pieces'. socket_read_reply pieces = Some (m, pieces') \<and> concat pieces' = rest \<and> [] \<notin> set pieces'"
proof -
  have "length m < 2 ^ 32" using assms(3) by simp
  from read_frame[OF assms(1,2) this] obtain pieces' where r: "pipe_read_message pieces = Some (m, pieces')"
    "concat pieces' = rest" "[] \<notin> set pieces'" by blast
  obtain p1 where p1: "read_all 4 pieces = Some (le32 (length m), p1)"
    using read_all_enough[OF assms(1), of 4] by (auto simp: assms(2) frame_def)
  have "un_le32 (le32 (length m)) = length m" using assms(3) by (intro un_le32_le32) simp
  then show ?thesis using r p1 assms(3) by (simp add: socket_read_reply_def socket_read_all_def pipe_read_message_def)
qed

lemma handshake_admits:
  fixes C auth_keys nonce
  defines "start \<equiv> generate_local_key C new_crypto"
  defines "hello \<equiv> dumps (Obj (challenge auth_keys nonce (fst start)))" and "status \<equiv> dumps (Obj auth_status)"
  assumes "auth_keys \<noteq> []" "[] \<notin> set pieces" "concat pieces = frame reply @ rest" "length reply < 2 ^ 31"
    and "check_reply C auth_keys nonce reply (snd start) = Some cs"
    and "length hello < 2 ^ 31" "length status < 2 ^ 31" "writable (length (frame hello) + (length (frame status) + n)) sizes"
  shows "\<exists>sz pieces'. handshake C auth_keys nonce sizes pieces = (frame hello @ frame status, Some (cs, sz, pieces')) \<and>
    concat pieces' = rest \<and> [] \<notin> set pieces' \<and> writable n sz"
proof -
  obtain s1 where s1: "socket_write_message sizes hello = (frame hello, True, s1)" "writable (length (frame status) + n) s1"
    using socket_write_writable[OF assms(11,9)] by blast
  obtain s2 where "socket_write_message s1 status = (frame status, True, s2)" "writable n s2"
    using socket_write_writable[OF s1(2) assms(10)] by blast
  moreover obtain pieces' where "socket_read_reply pieces = Some (reply, pieces')" "concat pieces' = rest" "[] \<notin> set pieces'"
    using socket_read_frame[OF assms(5-7)] by blast
  ultimately show ?thesis
    using s1(1) assms(4,8) by (simp add: handshake_def hello_def status_def start_def case_prod_beta)
qed

lemma status_short: "length (dumps (Obj auth_status)) < 2 ^ 31"
proof -
  have "length (dumps (Obj auth_status)) = 32" by code_simp
  then show ?thesis by simp
qed

section \<open>Properties\<close>

text \<open>C10: when keys are configured, no connection passes the handshake without an answer that names an identity and
  carries a signature of this connection's nonce by the Ed25519 key on the first line of the key
  file, comments aside, that contains the identity.\<close>

theorem handshake_authenticates:
  assumes "auth_keys \<noteq> []" and "snd (handshake C auth_keys nonce sizes pieces) = Some (cs, sz, rest)"
  shows "\<exists>reply v i sig line. socket_read_reply pieces = Some (reply, rest) \<and> parse reply = Ok (Obj v) \<and>
    get_str v ''version'' = Some PROTOCOL_VERSION \<and> get_str v ''identity'' = Some i \<and>
    get_str v ''signature'' = Some sig \<and> key_line auth_keys i = Some line \<and> signed_by C line nonce sig"
proof -
  from assms obtain reply where r: "socket_read_reply pieces = Some (reply, rest)"
    "check_reply C auth_keys nonce reply (snd (generate_local_key C new_crypto)) = Some cs"
    by (auto simp: handshake_def Let_def case_prod_beta split: if_splits option.splits)
  then show ?thesis unfolding check_reply_iff by blast
qed

text \<open>A key file with one line, for the user u.\<close>

definition zeros32 :: bytes where
  "zeros32 = replicate 32 0"

definition sample_keys :: string where
  "sample_keys = ''ssh-ed25519 '' @ encode zeros32 @ '' '' @ ''u''"

definition sample_reply :: string where
  "sample_reply = dumps (Obj (client_reply ''u'' (zeros32 @ zeros32) [2]))"

lemma sample_key_line: "key_line sample_keys ''u'' = Some sample_keys"
proof -
  have "CHR 0x0A \<notin> set (encode zeros32)" using encode_no_space[of zeros32] by (auto simp: isspace_def)
  then have "CHR 0x0A \<notin> set sample_keys" "sample_keys \<noteq> []" by (auto simp: sample_keys_def)
  then have "getlines (CHR 0x0A) sample_keys = [sample_keys]" by (rule getlines_one)
  moreover have "sublist ''u'' sample_keys"
    unfolding sublist_def by (rule exI[of _ "''ssh-ed25519 '' @ encode zeros32 @ '' ''"]) (simp add: sample_keys_def)
  ultimately show ?thesis by (simp add: key_line_def) (simp add: sample_keys_def)
qed

lemma sample_check:
  "check_reply plain_cng sample_keys zeros32 sample_reply (snd (generate_local_key plain_cng new_crypto)) = Some open_session"
proof -
  have "key_line sample_keys ''u'' = Some (''ssh-ed25519 '' @ encode zeros32 @ '' '' @ ''u'')"
    by (subst sample_keys_def[symmetric]) (rule sample_key_line)
  from check_client_reply[OF this, of "zeros32 @ zeros32" plain_cng zeros32 "[2]"] show ?thesis
    by (simp add: sample_reply_def open_session_def zeros32_def plain_cng_def)
qed

lemma sample_handshake:
  "\<exists>out sz. handshake plain_cng sample_keys zeros32 (replicate 2000 1) [frame sample_reply] = (out, Some (open_session, sz, []))"
proof -
  let ?hello = "dumps (Obj (challenge sample_keys zeros32 (fst (generate_local_key plain_cng new_crypto))))"
  have hello: "length ?hello < 1000" by code_simp
  have status: "length (dumps (Obj auth_status)) = 32" by code_simp
  have reply: "length sample_reply < 1000" by code_simp
  have "sample_keys \<noteq> []" "[] \<notin> set [frame sample_reply]" "concat [frame sample_reply] = frame sample_reply @ []"
    by (simp_all add: sample_keys_def frame_def)
  from handshake_admits[OF this _ sample_check, of 0 "replicate 2000 1"] hello status reply
  obtain out sz pieces' where
    "handshake plain_cng sample_keys zeros32 (replicate 2000 1) [frame sample_reply] = (out, Some (open_session, sz, pieces'))"
    "concat pieces' = []" "[] \<notin> set pieces'"
    by (auto simp: frame_def writable_def)
  moreover from this(2,3) have "pieces' = []" by (cases pieces') auto
  ultimately show ?thesis by auto
qed

theorem handshake_authenticates_witness:
  "\<exists>reply v i sig line. socket_read_reply [frame sample_reply] = Some (reply, []) \<and> parse reply = Ok (Obj v) \<and>
    get_str v ''version'' = Some PROTOCOL_VERSION \<and> get_str v ''identity'' = Some i \<and>
    get_str v ''signature'' = Some sig \<and> key_line sample_keys i = Some line \<and> signed_by plain_cng line zeros32 sig"
proof -
  obtain out sz where "handshake plain_cng sample_keys zeros32 (replicate 2000 1) [frame sample_reply] = (out, Some (open_session, sz, []))"
    using sample_handshake by blast
  moreover have "sample_keys \<noteq> []" by (simp add: sample_keys_def)
  ultimately show ?thesis
    using handshake_authenticates[of sample_keys plain_cng zeros32 "replicate 2000 1" "[frame sample_reply]" open_session sz "[]"]
    by simp
qed

end
