(* ===== verification/Tcp_Connection.thy ===== *)
theory Tcp_Connection
  imports Tcp_Handshake Daemon_Contract
begin

text \<open>
  A TCP connection from the first byte to the last: \<open>handle_socket_client\<close> of
  \<open>daemon/src/tcp_server.cpp\<close> over the incoming stream, composed of the handshake, the
  receiving and sending of messages, plain or encrypted, and the request loop. Here the client's
  thread runs without others in between; \<open>Daemon\<close> has the interleavings.

  Shown here: the loop over bytes does what the loop over messages does, for every way the stream is
  cut, and the client reads the responses.
\<close>

section \<open>Receiving and sending\<close>

definition tcp_recv :: "Cng \<times> bool \<Rightarrow> string list \<Rightarrow> CryptoSession \<Rightarrow> (string \<times> string list) option" where
  "tcp_recv p pieces cs = (case p of (C, encrypted) \<Rightarrow>
     if encrypted then encrypted_recv C pieces cs else tcp_read_message pieces)"

text \<open>Whether the writes succeed is not looked at; the flag only says so.\<close>

definition tcp_send ::
  "Cng \<times> bool \<Rightarrow> nat list \<Rightarrow> string \<Rightarrow> CryptoSession \<Rightarrow> (string \<times> bool \<times> nat list) \<times> CryptoSession" where
  "tcp_send p sizes out cs = (case p of (C, encrypted) \<Rightarrow>
     if encrypted then encrypted_send C sizes out cs
     else let len = length out mod 2 ^ 32; (out1, ok1, sz1) = socket_write_all sizes (le32 len);
              (out2, ok2, sz2) = socket_write_all sz1 (take len out)
          in ((out1 @ out2, ok1 \<and> ok2, sz2), cs))"

lemma socket_write_all_ok: "socket_write_all sizes bs = (out, True, sz) \<Longrightarrow> out = bs"
  by (auto simp: socket_write_all_def dest: write_all_ok split: if_splits)

lemma tcp_send_plain: "tcp_send (C, False) sizes m cs = ((out, True, sz), cs') \<Longrightarrow> length m < 2 ^ 32 \<Longrightarrow> out = frame m \<and> cs' = cs"
  by (auto simp: tcp_send_def frame_def Let_def dest!: socket_write_all_ok split: prod.splits)

text \<open>The two ends of a connection: if it is encrypted, they hold the same key.\<close>

definition tcp_linked :: "Cng \<times> bool \<Rightarrow> CryptoSession \<Rightarrow> CryptoSession \<Rightarrow> bool" where
  "tcp_linked p cs peer \<longleftrightarrow> (snd p \<longrightarrow> same_key (fst p) cs peer)"

definition tcp_carries :: "string \<Rightarrow> bool" where
  "tcp_carries m \<longleftrightarrow> m \<noteq> [] \<and> length m + 28 \<le> max_frame"

lemma tcp_send_session:
  "tcp_send p sizes m cs = (r, cs') \<Longrightarrow>
     cs_session_key cs' = cs_session_key cs \<and> cs_initialized cs' = cs_initialized cs"
  using encrypted_send_session[of "fst p" sizes m cs r cs']
  by (cases p) (auto simp: tcp_send_def Let_def split: if_splits prod.splits)

interpretation tcp_channel: message_channel tcp_send tcp_recv tcp_linked tcp_carries
proof
  fix p a b m sizes out sz a' pieces rest
  assume asm: "tcp_linked p a b" "tcp_carries m" "tcp_send p sizes m a = ((out, True, sz), a')"
    "[] \<notin> set pieces" "concat pieces = out @ rest"
  obtain C e where p: "p = (C, e)" by fastforce
  show "\<exists>pieces'. tcp_recv p pieces b = Some (m, pieces') \<and> concat pieces' = rest \<and> [] \<notin> set pieces'"
  proof (cases e)
    case True
    then show ?thesis using encrypted.delivered[of C a b m sizes out sz a' pieces rest] asm
      by (simp add: p tcp_linked_def tcp_carries_def tcp_send_def tcp_recv_def)
  next
    case False
    have m: "length m < 2 ^ 32" "m \<noteq> []" "length m \<le> max_frame" using asm(2) by (auto simp: tcp_carries_def max_frame_def)
    have "concat pieces = frame m @ rest" using tcp_send_plain[of C sizes m a out sz a'] asm(3,5) m(1) False p by simp
    from read_frame[OF asm(4) this m(1)] m show ?thesis by (auto simp: p False tcp_recv_def)
  qed
next
  fix p a b sizes m r a'
  assume "tcp_linked p a b" "tcp_send p sizes m a = (r, a')"
  then show "tcp_linked p a' b" using tcp_send_session[of p sizes m a r a'] by (auto simp: tcp_linked_def same_key_def)
next
  fix p a b sizes m r b'
  assume "tcp_linked p a b" "tcp_send p sizes m b = (r, b')"
  then show "tcp_linked p a b'" using tcp_send_session[of p sizes m b r b'] by (auto simp: tcp_linked_def same_key_def)
qed

section \<open>The loop over bytes\<close>

lemma read_all_split: "read_all n pieces = Some (bs, rest) \<Longrightarrow> concat pieces = bs @ concat rest \<and> length bs = n"
proof (induction n pieces arbitrary: bs rest rule: read_all.induct)
  case (1 n pieces)
  show ?case
  proof (cases "n = 0")
    case True
    then show ?thesis using 1(2) by (subst (asm) read_all.simps) simp
  next
    case False
    from 1(2) False obtain b1 r1 b2 where r: "os_read n pieces = Some (b1, r1)" "b1 \<noteq> []"
      "read_all (n - length b1) r1 = Some (b2, rest)" "bs = b1 @ b2"
      by (subst (asm) read_all.simps) (auto split: option.splits if_splits)
    moreover from r(1) have "concat pieces = b1 @ concat r1 \<and> length b1 \<le> n"
      by (auto simp: os_read_def split: list.splits if_splits)
    ultimately show ?thesis using 1(1)[OF False r(1) refl r(2,3)] by auto
  qed
qed

lemma tcp_recv_consumes: "tcp_recv p pieces cs = Some (m, rest) \<Longrightarrow> length (concat rest) < length (concat pieces)"
proof -
  assume "tcp_recv p pieces cs = Some (m, rest)"
  then obtain m' where "tcp_read_message pieces = Some (m', rest)"
    by (auto simp: tcp_recv_def encrypted_recv_def Let_def split: prod.splits if_splits option.splits)
  then obtain len p1 where "read_all 4 pieces = Some (len, p1)" "read_all (un_le32 len) p1 = Some (m', rest)"
    by (auto simp: tcp_read_message_def socket_read_all_def split: option.splits if_splits)
  from this[THEN read_all_split] show ?thesis by simp
qed

function serve ::
  "ServerConfig \<Rightarrow> 's IBackend \<Rightarrow> (nat \<Rightarrow> nat \<Rightarrow> Tick) \<Rightarrow> Cng \<times> bool \<Rightarrow> nat list \<Rightarrow> string list \<Rightarrow> CryptoSession \<Rightarrow>
   's World \<Rightarrow> Conn \<Rightarrow> string \<times> 's thread" where
  "serve cfg B tks p sizes pieces cs w c =
     (case tcp_recv p pieces cs of None \<Rightarrow> ([], Closed, w, c)
      | Some (msg, rest) \<Rightarrow>
          (case tcp_message cfg B (tks (length (cn_sent c))) msg w c of (ph, w', c') \<Rightarrow>
             if ph \<noteq> Reading then ([], ph, w', c')
             else let ((out, ok, sz), cs') = tcp_send p sizes (last (cn_sent c')) cs;
                      (more, t) = serve cfg B tks p sz rest cs' w' c'
                  in (out @ more, t)))"
  by pat_completeness auto
termination
  by (relation "measure (\<lambda>(cfg, B, tks, p, sizes, pieces, cs, w, c). length (concat pieces))")
    (auto dest: tcp_recv_consumes)

declare serve.simps [simp del]

definition handle_socket_client ::
  "ServerConfig \<Rightarrow> 's IBackend \<Rightarrow> (nat \<Rightarrow> nat \<Rightarrow> Tick) \<Rightarrow> Cng \<Rightarrow> bytes \<Rightarrow> nat list \<Rightarrow> string list \<Rightarrow>
   's World \<Rightarrow> string \<times> 's thread" where
  "handle_socket_client cfg B tks C nonce sizes pieces w =
     (let (out, r) = handshake C (cfg_auth_keys cfg) nonce sizes pieces in
      case r of None \<Rightarrow> (out, Closed, w, new_conn)
      | Some (cs, sz, rest) \<Rightarrow>
          (let (more, t) = serve cfg B tks (C, cs_initialized cs) sz rest cs w new_conn in (out @ more, t)))"

section \<open>The loop over messages\<close>

text \<open>The messages of one client, one after the other; the loop stops where the thread hangs.\<close>

fun converse ::
  "ServerConfig \<Rightarrow> 's IBackend \<Rightarrow> (nat \<Rightarrow> nat \<Rightarrow> Tick) \<Rightarrow> string list \<Rightarrow> 's World \<Rightarrow> Conn \<Rightarrow> 's thread" where
  "converse cfg B tks [] w c = (Reading, w, c)"
| "converse cfg B tks (msg # msgs) w c =
     (case tcp_message cfg B (tks (length (cn_sent c))) msg w c of (ph, w', c') \<Rightarrow>
        if ph \<noteq> Reading then (ph, w', c') else converse cfg B tks msgs w' c')"

text \<open>A message that is answered is answered once.\<close>

definition answers_once :: "string list \<Rightarrow> 's thread \<Rightarrow> bool" where
  "answers_once sent t \<longleftrightarrow> (case t of (ph, w, c) \<Rightarrow> ph \<noteq> Closed \<and> (ph \<noteq> Hung \<longrightarrow>
     (if ph = Reading \<or> ph = Unpinning then \<exists>out. cn_sent c = sent @ [out] else cn_sent c = sent)))"

lemma step_answers_once:
  assumes "answers_once sent t" "0 < rank (fst t)"
  shows "answers_once sent (tcp_step cfg B tk t)"
  using assms
  by (cases t; cases "fst t") (auto simp: answers_once_def piece_defs tcp_piece_defs case_prod_beta Let_def
      split: prod.splits option.splits res.splits)

lemma tcp_message_once:
  assumes "tcp_message cfg B tks msg w c = (Reading, w', c')"
  shows "\<exists>out. cn_sent c' = cn_sent c @ [out]"
proof -
  let ?I = "answers_once (cn_sent c)"
  have "?I (tcp_receive msg w c)" by (auto simp: answers_once_def tcp_receive_def Let_def split: res.splits)
  then have "?I (tcp_message cfg B tks msg w c)"
    unfolding tcp_message_def using tcp_drive_keeps[where I = ?I] step_answers_once by blast
  then show ?thesis using assms by (simp add: answers_once_def)
qed

lemma converse_sent:
  "converse cfg B tks msgs w c = (Reading, w', c') \<Longrightarrow> \<exists>rs. cn_sent c' = cn_sent c @ rs \<and> length rs = length msgs"
proof (induction msgs arbitrary: w c)
  case (Cons msg msgs)
  then obtain w1 c1 where m: "tcp_message cfg B (tks (length (cn_sent c))) msg w c = (Reading, w1, c1)"
    "converse cfg B tks msgs w1 c1 = (Reading, w', c')" by (auto split: prod.splits if_splits)
  from tcp_message_once[OF m(1)] Cons.IH[OF m(2)] show ?case by auto
qed simp

lemma tcp_recv_end: "tcp_recv p [] cs = None"
  by (cases p) (simp add: tcp_recv_def encrypted_recv_def tcp_read_message_def socket_read_all_def read_all.simps os_read_def)

lemma serve_converse:
  assumes "tcp_linked p peer cs" "\<forall>m \<in> set msgs. tcp_carries m" "sends (tcp_send p) csizes msgs peer = (cout, True)"
    and "[] \<notin> set pieces" "concat pieces = cout"
    and "converse cfg B tks msgs w c = (Reading, w', c')" "cn_sent c' = cn_sent c @ rs"
    and "sends (tcp_send p) sizes rs cs = (sout, True)"
  shows "serve cfg B tks p sizes pieces cs w c = (sout, Closed, w', c')"
  using assms
proof (induction msgs arbitrary: csizes peer cout pieces w c rs sizes cs sout)
  case Nil
  then have "pieces = []" by (cases pieces) auto
  then show ?case using Nil by (subst serve.simps) (simp add: tcp_recv_end)
next
  case (Cons msg msgs)
  obtain w1 c1 where m: "tcp_message cfg B (tks (length (cn_sent c))) msg w c = (Reading, w1, c1)"
    "converse cfg B tks msgs w1 c1 = (Reading, w', c')" using Cons.prems(6) by (auto split: prod.splits if_splits)
  obtain r rs' where r: "cn_sent c1 = cn_sent c @ [r]" "rs = r # rs'" "cn_sent c' = cn_sent c1 @ rs'"
    using tcp_message_once[OF m(1)] converse_sent[OF m(2)] Cons.prems(7) by auto
  obtain o1 z1 peer' o2 where s: "tcp_send p csizes msg peer = ((o1, True, z1), peer')"
    "sends (tcp_send p) z1 msgs peer' = (o2, True)" "cout = o1 @ o2"
    using Cons.prems(3) by (auto simp: Let_def split: prod.splits if_splits)
  obtain q1 z2 cs' q2 where a: "tcp_send p sizes r cs = ((q1, True, z2), cs')"
    "sends (tcp_send p) z2 rs' cs' = (q2, True)" "sout = q1 @ q2"
    using Cons.prems(8) r(2) by (auto simp: Let_def split: prod.splits if_splits)
  obtain rest where rest: "tcp_recv p pieces cs = Some (msg, rest)" "concat rest = o2" "[] \<notin> set rest"
    using tcp_channel.delivered[OF Cons.prems(1) _ s(1) Cons.prems(4), of o2] Cons.prems(2,5) s(3) by auto
  have "tcp_linked p peer' cs'"
    using tcp_channel.stays_linked[OF Cons.prems(1) s(1)] tcp_channel.receiver_sends a(1) by blast
  from Cons.IH[OF this _ s(2) rest(3,2) m(2) r(3) a(2)] Cons.prems(2)
  have "serve cfg B tks p z2 rest cs' w1 c1 = (q2, Closed, w', c')" by simp
  then show ?case by (subst serve.simps) (simp add: rest(1) m(1) r(1) a(1,3))
qed

section \<open>Responses get out\<close>

definition can_send :: "Cng \<times> bool \<Rightarrow> CryptoSession \<Rightarrow> bool" where
  "can_send p cs \<longleftrightarrow> (snd p \<longrightarrow> gcm_correct (fst p) \<and> gcm_seals (fst p) \<and> cs_initialized cs \<and> cs_session_key cs \<noteq> None)"

lemma tcp_send_writable:
  assumes "can_send p cs" "tcp_carries m" "writable (length m + 32 + n) sizes"
  shows "\<exists>out sz cs'. tcp_send p sizes m cs = ((out, True, sz), cs') \<and> writable n sz \<and> can_send p cs'"
proof -
  obtain C e where p: "p = (C, e)" by fastforce
  have "\<exists>out sz cs'. tcp_send p sizes m cs = ((out, True, sz), cs') \<and> writable n sz"
  proof (cases e)
    case True
    then show ?thesis using encrypted_send_writable[of C cs _ m n sizes] assms
      by (auto simp: p can_send_def tcp_carries_def tcp_send_def)
  next
    case False
    have "writable (length (frame m) + n) sizes" "length m < 2 ^ 31"
      using assms(2,3) by (auto simp: frame_def tcp_carries_def max_frame_def elim!: writable_mono)
    moreover from this(2) have "length m mod 2 ^ 32 = length m" by simp
    ultimately show ?thesis using socket_write_writable[of m n sizes] False
      by (auto simp: p tcp_send_def socket_write_message_def Let_def split: prod.splits if_splits)
  qed
  then obtain out sz cs' where "tcp_send p sizes m cs = ((out, True, sz), cs')" "writable n sz" by blast
  moreover from tcp_send_session[OF this(1)] assms(1) have "can_send p cs'" by (simp add: can_send_def)
  ultimately show ?thesis by blast
qed

lemma tcp_sends_writable:
  assumes "can_send p cs" "\<forall>m \<in> set ms. tcp_carries m" "writable (sum_list (map (\<lambda>m. length m + 32) ms)) sizes"
  shows "\<exists>out. sends (tcp_send p) sizes ms cs = (out, True)"
  using assms
proof (induction ms arbitrary: sizes cs)
  case (Cons m ms)
  have "writable (length m + 32 + sum_list (map (\<lambda>m. length m + 32) ms)) sizes" using Cons.prems(3) by simp
  from tcp_send_writable[OF Cons.prems(1) _ this] Cons.prems(2) obtain o1 sz cs' where
    s: "tcp_send p sizes m cs = ((o1, True, sz), cs')" "writable (sum_list (map (\<lambda>m. length m + 32) ms)) sz" "can_send p cs'" by auto
  from Cons.IH[OF s(3) _ s(2)] Cons.prems(2) s(1) show ?case by auto
qed simp

end
