(* ===== verification/Connection_Properties.thy ===== *)
theory Connection_Properties
  imports Tcp_Connection Daemon_Properties Core_Invariant
begin

text \<open>
  What a client of the TCP server can rely on, from the first byte of the connection to the last
  response.
\<close>

section \<open>A connection from end to end\<close>

text \<open>C4: an authorized client's conversation. A client whose key is on the line of its identity and that answers
  the challenge as the protocol says is let in; the daemon then processes the client's encrypted
  messages exactly as the message loop does, whatever pieces the stream arrives in and however little
  each write accepts, and the client, reading the encrypted responses, gets one response per message.\<close>

theorem authorized_conversation:
  fixes C cfg nonce
  defines "start \<equiv> generate_local_key C new_crypto"
  defines "hello \<equiv> dumps (Obj (challenge (cfg_auth_keys cfg) nonce (fst start)))" and "status \<equiv> dumps (Obj auth_status)"
  assumes "key_line (cfg_auth_keys cfg) i = Some (''ssh-ed25519 '' @ encode blob @ '' '' @ comment)" and "32 \<le> length blob"
    and "64 \<le> length sig" and "ed25519_verify C (drop (length blob - 32) blob) nonce (take 64 sig)"
    and "compute_shared_secret C pk (snd start) = (True, cs)" and "gcm_correct C" and "gcm_seals C"
    and "cs_initialized peer" and "cs_session_key peer = cs_session_key cs"
    and "\<forall>m \<in> set msgs. tcp_carries m" and "sends (tcp_send (C, True)) csizes msgs peer = (cout, True)"
    and "answer = dumps (Obj (client_reply i sig pk))" and "length answer < 2 ^ 31" and "length hello < 2 ^ 31"
    and "[] \<notin> set pieces" and "concat pieces = frame answer @ cout"
    and "converse cfg B tks msgs w new_conn = (Reading, w', c')" and "\<forall>r \<in> set (cn_sent c'). tcp_carries r"
    and "writable (length (frame hello) + (length (frame status) + sum_list (map (\<lambda>r. length r + 32) (cn_sent c')))) sizes"
  shows "\<exists>sout. handle_socket_client cfg B tks C nonce sizes pieces w =
      (frame hello @ frame status @ sout, Closed, w', c') \<and> length (cn_sent c') = length msgs \<and>
    (\<forall>pc. [] \<notin> set pc \<and> concat pc = sout \<longrightarrow>
       (\<exists>pc'. read_messages (\<lambda>pc. tcp_recv (C, True) pc peer) (length msgs) pc = Some (cn_sent c', pc')))"
proof -
  have keys: "cfg_auth_keys cfg \<noteq> []" using assms(4) by (auto simp: key_line_def getlines.simps)
  have k: "cs_initialized cs" "cs_session_key cs \<noteq> None"
    using assms(8) by (auto simp: compute_shared_secret_def split: if_splits option.splits)
  have check: "check_reply C (cfg_auth_keys cfg) nonce answer (snd start) = Some cs"
    using check_client_reply[OF assms(4-7), of pk "snd start"] assms(8,15) by simp
  obtain sz rest where h: "handshake C (cfg_auth_keys cfg) nonce sizes pieces = (frame hello @ frame status, Some (cs, sz, rest))"
    "concat rest = cout" "[] \<notin> set rest" "writable (sum_list (map (\<lambda>r. length r + 32) (cn_sent c'))) sz"
    using handshake_admits[OF keys assms(18,19,16) check[unfolded start_def] assms(17)[unfolded hello_def start_def] status_short]
      assms(22) unfolding hello_def status_def start_def by blast
  have "can_send (C, True) cs" using assms(9,10) k by (simp add: can_send_def)
  from tcp_sends_writable[OF this assms(21) h(4)] obtain sout where
    sout: "sends (tcp_send (C, True)) sz (cn_sent c') cs = (sout, True)" by blast
  have l: "tcp_linked (C, True) peer cs" "tcp_linked (C, True) cs peer"
    using assms(9,11,12) k by (auto simp: tcp_linked_def same_key_def)
  have "serve cfg B tks (C, True) sz rest cs w new_conn = (sout, Closed, w', c')"
    by (rule serve_converse[OF l(1) assms(13,14) h(3,2) assms(20) _ sout]) (simp add: new_conn_def)
  then have r: "handle_socket_client cfg B tks C nonce sizes pieces w = (frame hello @ frame status @ sout, Closed, w', c')"
    by (simp add: handle_socket_client_def h(1) k(1))
  have len: "length (cn_sent c') = length msgs" using converse_sent[OF assms(20)] by (auto simp: new_conn_def)
  have "\<exists>pc'. read_messages (\<lambda>pc. tcp_recv (C, True) pc peer) (length msgs) pc = Some (cn_sent c', pc')"
    if "[] \<notin> set pc" "concat pc = sout" for pc
    using tcp_channel.all_delivered[OF l(2) assms(21) sout that(1), of "[]"] that(2) len by auto
  then show ?thesis using r len by blast
qed

definition keyed_config :: ServerConfig where
  "keyed_config = sample_config\<lparr>cfg_auth_keys := sample_keys\<rparr>"

definition capture_response :: string where
  "capture_response = serialize_response_json (new_response\<lparr>resp_id := ''1'', resp_ok := True,
     resp_result := Obj (obj_of [(''snapshot_id'', Str (make_snap_id 1))])\<rparr>) False"

lemma sample_exchange:
  "\<exists>w' c'. converse keyed_config fake_backend tks [capture_text] sample_world new_conn = (Reading, w', c') \<and>
     cn_sent c' = [capture_response]"
  by (simp add: tcp_message_def tcp_receive_def parse_capture drive_tcp tcp_session_def tcp_route_def
      guard_def keyed_config_def sample_config_def get_str_def fake_capture_then do_store_def send_response_def do_unpin_def
      capture_first unpin_section_def new_conn_def succeed_def sample_world_def get_bool_def value_or_def
      capture_response_def Let_def)

lemma sample_lengths:
  "length (dumps (Obj (challenge sample_keys zeros32 [1]))) < 1000" "length (dumps (Obj auth_status)) < 1000"
  "length sample_reply < 1000" "length capture_text < 1000" "capture_text \<noteq> []" "length capture_response < 1000" "capture_response \<noteq> []"
  by code_simp+

lemma sample_carried: "tcp_carries capture_text" "tcp_carries capture_response"
  using sample_lengths(4-7) by (simp_all add: tcp_carries_def max_frame_def)

lemma sample_sent: "\<exists>cout. sends (tcp_send (plain_cng, True)) (replicate 2000 1) [capture_text] open_session = (cout, True)"
  using sample_lengths(4) sample_carried(1)
  by (intro tcp_sends_writable) (simp_all add: can_send_def plain_cng_correct writable_def)

theorem authorized_conversation_witness:
  "\<exists>pieces w' c' out. handle_socket_client keyed_config fake_backend (\<lambda>_ _. sample_tick) plain_cng zeros32
     (replicate 5000 1) pieces sample_world = (out, Closed, w', c') \<and> cn_sent c' = [capture_response]"
proof -
  obtain w' c' where run: "converse keyed_config fake_backend (\<lambda>_ _. sample_tick) [capture_text] sample_world new_conn = (Reading, w', c')"
    "cn_sent c' = [capture_response]" using sample_exchange by blast
  obtain cout where cout: "sends (tcp_send (plain_cng, True)) (replicate 2000 1) [capture_text] open_session = (cout, True)"
    using sample_sent by blast
  have start: "fst (generate_local_key plain_cng new_crypto) = [1]"
    by (simp add: generate_local_key_def plain_cng_def)
  have line: "key_line (cfg_auth_keys keyed_config) ''u'' = Some (''ssh-ed25519 '' @ encode zeros32 @ '' '' @ ''u'')"
    by (subst sample_keys_def[symmetric]) (simp add: keyed_config_def sample_key_line)
  have agreed: "compute_shared_secret plain_cng [2] (snd (generate_local_key plain_cng new_crypto)) = (True, open_session)"
    by (simp add: open_session_def compute_shared_secret_def generate_local_key_def plain_cng_def new_crypto_def)
  have keys: "cfg_auth_keys keyed_config = sample_keys" by (simp add: keyed_config_def)
  have "\<exists>sout. handle_socket_client keyed_config fake_backend (\<lambda>_ _. sample_tick) plain_cng zeros32
     (replicate 5000 1) [frame sample_reply @ cout] sample_world = (frame (dumps (Obj (challenge (cfg_auth_keys keyed_config)
        zeros32 (fst (generate_local_key plain_cng new_crypto))))) @ frame (dumps (Obj auth_status)) @ sout, Closed, w', c') \<and>
     length (cn_sent c') = length [capture_text] \<and>
     (\<forall>pc. [] \<notin> set pc \<and> concat pc = sout \<longrightarrow> (\<exists>pc'. read_messages (\<lambda>pc. tcp_recv (plain_cng, True) pc open_session)
        (length [capture_text]) pc = Some (cn_sent c', pc')))"
    by (rule authorized_conversation[OF line _ _ _ agreed plain_cng_correct open_session_simps(1) refl _ cout
          sample_reply_def _ _ _ _ run(1)])
      (use sample_lengths sample_carried run(2) start keys in
        \<open>simp_all add: zeros32_def plain_cng_def frame_def writable_def\<close>)
  then show ?thesis using run(2) by blast
qed

end
