(* ===== verification/Update.thy ===== *)
theory Update
  imports Core_Json
begin

text \<open>
  \<open>core/src/update.cpp\<close>: versions, the query for the latest release, and the download. What
  WinHTTP delivers is a parameter: for a query the chunks that \<open>WinHttpReadData\<close> returns (none
  at all when a call fails), for a download the answer to each request.

  Shown here: version comparison is the order of the zero-padded lists, printing and reading a
  version agree, which releases count as updates, and when a download that follows redirects ends.
\<close>

section \<open>Versions\<close>

text \<open>The loop over the segments; a segment \<open>std::stoi\<close> rejects makes the result empty.\<close>

fun parse_segments :: "int list \<Rightarrow> string list \<Rightarrow> int list" where
  "parse_segments parts [] = parts"
| "parse_segments parts (seg # segs) =
     (case stoi seg of Ok n \<Rightarrow> parse_segments (parts @ [n]) segs | _ \<Rightarrow> [])"

definition parse_version :: "string \<Rightarrow> int list" where
  "parse_version tag =
     (let s = (if tag \<noteq> [] \<and> (hd tag = CHR ''v'' \<or> hd tag = CHR ''V'') then tl tag else tag)
      in parse_segments [] (getlines (CHR ''.'') s))"

text \<open>The component of a version at an index, zero beyond the end.\<close>

definition component :: "int list \<Rightarrow> nat \<Rightarrow> int" where
  "component a i = (if i < length a then a ! i else 0)"

function compare_from :: "int list \<Rightarrow> int list \<Rightarrow> nat \<Rightarrow> int" where
  "compare_from a b i =
     (if i < max (length a) (length b) then
        (let va = component a i; vb = component b i
         in if va < vb then - 1 else if vb < va then 1 else compare_from a b (Suc i))
      else 0)"
  by pat_completeness auto
termination
  by (relation "measure (\<lambda>(a, b, i). max (length a) (length b) - i)") auto

declare compare_from.simps [simp del]

definition compare_versions :: "int list \<Rightarrow> int list \<Rightarrow> int" where
  "compare_versions a b = compare_from a b 0"

section \<open>Looking for a release\<close>

text \<open>\<open>body += buf\<close> appends up to the first NUL byte; an empty read ends the loop.\<close>

definition https_get :: "string list option \<Rightarrow> string" where
  "https_get reply = (case reply of None \<Rightarrow> []
     | Some chunks \<Rightarrow> concat (map (takeWhile (\<lambda>c. c \<noteq> CHR 0x00)) (takeWhile (\<lambda>c. c \<noteq> []) chunks)))"

definition scan_asset :: "UpdateInfo \<Rightarrow> Value \<Rightarrow> UpdateInfo" where
  "scan_asset info asset = (case asset of
     Obj a \<Rightarrow> (case (map_of a ''name'', map_of a ''browser_download_url'') of
         (Some (Str name), Some (Str dl)) \<Rightarrow>
           (if str_contains ''Installer'' name \<and> installer_url info = []
            then info\<lparr>installer_url := dl\<rparr>
            else if str_contains ''Portable'' name \<and> str_contains ''.zip'' name \<and> portable_zip_url info = []
            then info\<lparr>portable_zip_url := dl\<rparr>
            else info)
       | _ \<Rightarrow> info)
   | _ \<Rightarrow> info)"

definition judge_versions :: "UpdateInfo \<Rightarrow> UpdateInfo" where
  "judge_versions info =
     (let cur = parse_version (current_version info); lat = parse_version (latest_version info)
      in if cur = [] \<or> lat = [] then info\<lparr>up_error := ''Version parse error''\<rparr>
         else info\<lparr>update_available := 0 < compare_versions lat cur\<rparr>)"

definition query_update :: "string list option \<Rightarrow> string \<Rightarrow> UpdateInfo" where
  "query_update reply current =
     (let info = empty_update\<lparr>current_version := current\<rparr>; json_body = https_get reply in
      if json_body = [] then info\<lparr>up_error := ''Failed to query GitHub API''\<rparr>
      else case parse json_body of
        Throw e \<Rightarrow> info\<lparr>up_error := ''JSON parse error: '' @ what e\<rparr>
      | Stuck \<Rightarrow> info
      | Ok root' \<Rightarrow> (case root' of
          Obj obj \<Rightarrow> (case get_str obj ''tag_name'' of
              None \<Rightarrow> info\<lparr>up_error := ''No tag_name in response''\<rparr>
            | Some tag \<Rightarrow>
                (let info1 = info\<lparr>latest_version := tag\<rparr>;
                     info2 = (case get_str obj ''body'' of Some b \<Rightarrow> info1\<lparr>release_notes := b\<rparr> | None \<Rightarrow> info1);
                     info3 = (case map_of obj ''assets'' of Some (Arr as) \<Rightarrow> foldl scan_asset info2 as | _ \<Rightarrow> info2)
                 in judge_versions info3))
        | _ \<Rightarrow> info\<lparr>up_error := ''Invalid API response''\<rparr>))"

section \<open>Downloading\<close>

definition split_host :: "string \<Rightarrow> string \<times> string" where
  "split_host rest =
     (if CHR ''/'' \<in> set rest
      then (takeWhile (\<lambda>c. c \<noteq> CHR ''/'') rest, dropWhile (\<lambda>c. c \<noteq> CHR ''/'') rest)
      else (rest, ''/''))"

definition parse_url :: "string \<Rightarrow> (string \<times> string) option" where
  "parse_url url =
     (if starts_with ''https://'' url then Some (split_host (drop 8 url))
      else if starts_with ''http://'' url then Some (split_host (drop 7 url))
      else None)"

text \<open>
  The answer to one request: a failed call, or a status, the \<open>Location\<close> header if there is one,
  and the body.
\<close>

datatype http_reply = HttpFailed | HttpReply nat "string option" string

type_synonym http = "string \<Rightarrow> string \<Rightarrow> http_reply"

text \<open>
  The content written to the output file, or \<open>None\<close> for \<open>false\<close>; the function calls itself for
  every redirect and need not end. \<open>creatable\<close> tells whether \<open>CreateFileW\<close> succeeds.
\<close>

partial_function (option) download_to_file :: "http \<Rightarrow> bool \<Rightarrow> string \<Rightarrow> string option option" where
  "download_to_file http creatable url =
     (case parse_url url of
        None \<Rightarrow> Some None
      | Some (host, path) \<Rightarrow> (case http host path of
            HttpFailed \<Rightarrow> Some None
          | HttpReply status location body \<Rightarrow>
              if (status = 302 \<or> status = 301) \<and> location \<noteq> None
              then download_to_file http creatable (the location)
              else if creatable then Some (Some body) else Some None))"

text \<open>
  \<open>download_update\<close>: the name of the file, and what was written to it. \<open>temp\<close> is the answer of
  \<open>GetTempPathW\<close>; file names are taken as the bytes they are built from.
\<close>

definition out_file :: "string \<Rightarrow> string \<Rightarrow> string \<Rightarrow> string" where
  "out_file temp tag type_hint =
     (if type_hint = ''portable'' then temp @ ''WinInspectPortable-'' @ tag @ ''.zip''
      else temp @ ''WinInspect-Installer-'' @ tag @ ''.exe'')"

definition download_release ::
  "http \<Rightarrow> bool \<Rightarrow> string option \<Rightarrow> string \<Rightarrow> string \<Rightarrow> string \<Rightarrow> string option" where
  "download_release http creatable temp url tag type_hint =
     (if url = [] then Some [] else case temp of None \<Rightarrow> Some []
      | Some t \<Rightarrow> (case download_to_file http creatable url of
            None \<Rightarrow> None
          | Some None \<Rightarrow> Some []
          | Some (Some _) \<Rightarrow> Some (out_file t tag type_hint)))"

section \<open>The order of versions\<close>

lemma component_beyond: "length a \<le> i \<Longrightarrow> component a i = 0"
  by (simp add: component_def)

lemma compare_from_spec:
  "(compare_from a b i = 0 \<longleftrightarrow> (\<forall>j \<ge> i. component a j = component b j)) \<and>
   (compare_from a b i < 0 \<longleftrightarrow> (\<exists>j \<ge> i. component a j < component b j \<and> (\<forall>k. i \<le> k \<and> k < j \<longrightarrow> component a k = component b k))) \<and>
   \<bar>compare_from a b i\<bar> \<le> 1"
proof (induction a b i rule: compare_from.induct)
  case (1 a b i)
  show ?case
  proof (cases "i < max (length a) (length b)")
    case False
    then have "\<forall>j \<ge> i. component a j = component b j" by (auto simp: component_def)
    then show ?thesis using False by (subst (1 2 3) compare_from.simps) auto
  next
    case in_range: True
    consider (less) "component a i < component b i" | (more) "component b i < component a i"
      | (same) "component a i = component b i" by linarith
    then show ?thesis
    proof cases
      case less
      then have "compare_from a b i = - 1" using in_range by (subst compare_from.simps) (simp add: Let_def)
      then show ?thesis using less by (auto intro!: exI[of _ i])
    next
      case more
      then have c: "compare_from a b i = 1" using in_range by (subst compare_from.simps) (simp add: Let_def)
      have "\<not> (\<exists>j \<ge> i. component a j < component b j \<and> (\<forall>k. i \<le> k \<and> k < j \<longrightarrow> component a k = component b k))"
        using more by (metis le_neq_implies_less order_less_asym order_less_irrefl order_refl)
      then show ?thesis using c more by auto
    next
      case same
      then have c: "compare_from a b i = compare_from a b (Suc i)"
        using in_range by (subst compare_from.simps) (simp add: Let_def)
      have eq: "(\<forall>j \<ge> i. component a j = component b j) \<longleftrightarrow> (\<forall>j \<ge> Suc i. component a j = component b j)"
        using same by (metis Suc_leI le_Suc_eq le_eq_less_or_eq Suc_leD)
      have lt: "(\<exists>j \<ge> i. component a j < component b j \<and> (\<forall>k. i \<le> k \<and> k < j \<longrightarrow> component a k = component b k)) \<longleftrightarrow>
          (\<exists>j \<ge> Suc i. component a j < component b j \<and> (\<forall>k. Suc i \<le> k \<and> k < j \<longrightarrow> component a k = component b k))"
        using same by (metis Suc_leI le_eq_less_or_eq order_less_irrefl Suc_leD)
      show ?thesis using 1[OF in_range refl refl] same c eq lt by auto
    qed
  qed
qed

lemma compare_from_swap: "compare_from b a i = - compare_from a b i"
  by (induction a b i rule: compare_from.induct)
    (subst (1 2) compare_from.simps, auto simp: Let_def max.commute)

section \<open>Versions as text\<close>

definition print_version :: "int list \<Rightarrow> string" where
  "print_version vs = concat (map (\<lambda>v. to_string_int v @ ''.'') (butlast vs)) @ to_string_int (last vs)"

lemma to_string_no_dot: "0 \<le> v \<Longrightarrow> CHR ''.'' \<notin> set (to_string_int v)" "to_string_int v \<noteq> []"
  using dec_str_isdigit[of "CHR ''.''" "nat v"] isdigit_not_special[of "CHR ''.''"]
  by (auto simp: to_string_int_def)

lemma getlines_print:
  assumes "vs \<noteq> []" "\<forall>v \<in> set vs. 0 \<le> v"
  shows "getlines (CHR ''.'') (print_version vs) = map to_string_int vs"
  using assms
proof (induction vs)
  case (Cons v vs)
  show ?case
  proof (cases vs)
    case Nil
    then show ?thesis using Cons.prems by (simp add: print_version_def getlines_one to_string_no_dot)
  next
    case (Cons u us)
    then have "print_version (v # vs) = to_string_int v @ CHR ''.'' # print_version vs" by (simp add: print_version_def)
    then show ?thesis using Cons.IH Cons.prems Cons by (simp add: getlines_Cons to_string_no_dot)
  qed
qed simp

lemma parse_segments_print:
  "\<forall>v \<in> set vs. 0 \<le> v \<and> v < 2 ^ 31 \<Longrightarrow> parse_segments parts (map to_string_int vs) = parts @ vs"
  by (induction vs arbitrary: parts) (simp_all add: stoi_to_string)

lemma print_version_start:
  assumes "vs \<noteq> []" "\<forall>v \<in> set vs. 0 \<le> v"
  shows "hd (print_version vs) \<noteq> CHR ''v'' \<and> hd (print_version vs) \<noteq> CHR ''V''"
proof -
  have "print_version vs = to_string_int (hd vs) @ drop (length (to_string_int (hd vs))) (print_version vs)"
    using assms(1) by (cases vs; cases "tl vs") (auto simp: print_version_def)
  moreover have "isdigit (hd (to_string_int (hd vs)))"
    using assms dec_str_isdigit[of "hd (dec_str (nat (hd vs)))" "nat (hd vs)"] by (cases vs) (auto simp: to_string_int_def)
  ultimately have "isdigit (hd (print_version vs))" using to_string_no_dot(2) by (metis hd_append2)
  then show ?thesis by (auto simp: isdigit_def)
qed

section \<open>Redirects\<close>

text \<open>Where the download goes next, if it goes on.\<close>

definition redirect :: "http \<Rightarrow> string \<Rightarrow> string option" where
  "redirect http url = (case parse_url url of None \<Rightarrow> None
     | Some (host, path) \<Rightarrow> (case http host path of HttpFailed \<Rightarrow> None
         | HttpReply status location body \<Rightarrow> if status = 302 \<or> status = 301 then location else None))"

fun redirects :: "http \<Rightarrow> nat \<Rightarrow> string \<Rightarrow> string option" where
  "redirects http 0 url = Some url"
| "redirects http (Suc n) url = (case redirect http url of None \<Rightarrow> None | Some u \<Rightarrow> redirects http n u)"

lemma download_redirect: "redirect http url = Some u \<Longrightarrow> download_to_file http cr url = download_to_file http cr u"
  by (subst download_to_file.simps) (auto simp: redirect_def split: option.splits http_reply.splits if_splits)

lemma download_stays: "redirect http url = None \<Longrightarrow> download_to_file http cr url \<noteq> None"
  by (subst download_to_file.simps) (auto simp: redirect_def split: option.splits http_reply.splits if_splits)

lemma redirects_end_download: "redirects http n url = None \<Longrightarrow> download_to_file http cr url \<noteq> None"
  by (induction n arbitrary: url) (auto simp: download_redirect split: option.splits dest: download_stays)

lemma download_ends_redirects:
  assumes "download_to_file http cr url = Some r"
  shows "\<exists>n. redirects http n url = None"
proof (rule download_to_file.raw_induct[where P = "\<lambda>http cr url r. \<exists>n. redirects http n url = None", OF _ assms])
  fix dl http cr url r
  assume IH: "\<And>http cr url r. dl http cr url = Some r \<Longrightarrow> \<exists>n. redirects http n url = None"
    and body: "(case parse_url url of None \<Rightarrow> Some None
      | Some (host, path) \<Rightarrow> (case http host path of HttpFailed \<Rightarrow> Some None
          | HttpReply status location body \<Rightarrow>
              if (status = 302 \<or> status = 301) \<and> location \<noteq> None then dl http cr (the location)
              else if cr then Some (Some body) else Some None)) = Some r"
  show "\<exists>n. redirects http n url = None"
  proof (cases "redirect http url")
    case None
    then show ?thesis by (intro exI[of _ 1]) simp
  next
    case (Some u)
    with body have "dl http cr u = Some r" by (auto simp: redirect_def split: option.splits http_reply.splits if_splits)
    then obtain n where "redirects http n u = None" using IH by blast
    then show ?thesis using Some by (intro exI[of _ "Suc n"]) simp
  qed
qed

section \<open>Properties\<close>

text \<open>Versions are ordered by their first different component, a missing component counting as zero, and
  the comparison is antisymmetric.\<close>

theorem version_order:
  "(compare_versions a b = 0 \<longleftrightarrow> (\<forall>i. component a i = component b i)) \<and>
   (compare_versions a b < 0 \<longleftrightarrow> (\<exists>i. component a i < component b i \<and> (\<forall>k < i. component a k = component b k))) \<and>
   compare_versions b a = - compare_versions a b"
  using compare_from_spec[of a b 0] compare_from_swap[of b a 0] by (simp add: compare_versions_def)

theorem version_order_witness:
  "compare_versions [1, 2] [1, 10] < 0 \<and> compare_versions [1, 10] [1, 2] = - compare_versions [1, 2] [1, 10]"
proof -
  have "\<exists>i. component [1, 2] i < component [1, 10] i \<and> (\<forall>k < i. component [1, 2] k = component [1, 10] k)"
    by (rule exI[of _ 1]) (simp add: component_def)
  then show ?thesis using version_order[of "[1, 2]" "[1, 10]"] by blast
qed

text \<open>A version that is printed, with or without the leading v, is read back.\<close>

theorem version_round_trip:
  assumes "vs \<noteq> []" and "\<forall>v \<in> set vs. 0 \<le> v \<and> v < 2 ^ 31"
  shows "parse_version (print_version vs) = vs \<and> parse_version (CHR ''v'' # print_version vs) = vs"
  using assms print_version_start[of vs] getlines_print[of vs] parse_segments_print[of vs "[]"]
  by (simp add: parse_version_def)

theorem version_round_trip_witness:
  "parse_version (CHR ''v'' # print_version [0, 1, 1]) = [0, 1, 1]"
  using version_round_trip[of "[0, 1, 1]"] by simp

text \<open>An update is announced exactly when the reply is a JSON object with a tag, both versions can be read
  and the tag is later than the running version.\<close>

theorem update_found_iff:
  "update_available (query_update reply current) \<longleftrightarrow>
   (\<exists>obj tag. parse (https_get reply) = Ok (Obj obj) \<and> get_str obj ''tag_name'' = Some tag \<and>
      parse_version current \<noteq> [] \<and> parse_version tag \<noteq> [] \<and>
      0 < compare_versions (parse_version tag) (parse_version current))"
proof -
  have keeps: "update_available (foldl scan_asset info as) = update_available info \<and>
      current_version (foldl scan_asset info as) = current_version info \<and>
      latest_version (foldl scan_asset info as) = latest_version info" for info as
    by (induction "as" arbitrary: info) (auto simp: scan_asset_def split: Value.splits option.splits)
  have empty: "\<nexists>obj. parse [] = Ok (Obj obj)"
    by (simp add: parse_def skip_ws_def parse_value.simps peek_def isdigit_def)
  show ?thesis using empty
    by (auto simp: query_update_def judge_versions_def keeps empty_update_def Let_def
        split: res.splits Value.splits option.splits)
qed

text \<open>A download ends exactly when the chain of redirects does.\<close>

theorem download_ends_iff:
  "download_to_file http cr url \<noteq> None \<longleftrightarrow> (\<exists>n. redirects http n url = None)"
  using redirects_end_download download_ends_redirects by blast

end
