(* ===== verification/Command_Line.thy ===== *)
theory Command_Line
  imports Cpp_Numbers
begin

text \<open>
  The loops over \<open>argv\<close> that \<open>daemon/src/server.cpp\<close> and the \<open>discover\<close> command of
  \<open>clients/cli/src/cli.cpp\<close> share: a sequence of independent \<open>if\<close> statements, each of which looks at the
  current argument again, after an option has moved on to its value.
\<close>

datatype 'o check =
    Switch string "'o \<Rightarrow> 'o"
  | Valued string "string \<Rightarrow> 'o \<Rightarrow> 'o res"

definition int_option :: "string \<Rightarrow> (int \<Rightarrow> 'o \<Rightarrow> 'o) \<Rightarrow> 'o check" where
  "int_option name f = Valued name (\<lambda>v o'. rthen (stoi v) (\<lambda>n. Ok (f n o')))"

text \<open>The body of the loop: the current argument, what follows it, and the variables it sets.\<close>

fun run_checks :: "'o check list \<Rightarrow> string \<Rightarrow> string list \<Rightarrow> 'o \<Rightarrow> (string list \<times> 'o) res" where
  "run_checks [] a rest o' = Ok (rest, o')"
| "run_checks (Switch name f # cs) a rest o' = run_checks cs a rest (if a = name then f o' else o')"
| "run_checks (Valued name f # cs) a rest o' =
     (if a = name \<and> rest \<noteq> []
      then rthen (f (hd rest) o') (\<lambda>o''. run_checks cs (hd rest) (tl rest) o'')
      else run_checks cs a rest o')"

lemma run_checks_shorter: "run_checks cs a rest o' = Ok (rest', o'') \<Longrightarrow> length rest' \<le> length rest"
  by (induction cs a rest o' rule: run_checks.induct) (auto simp: rthen_eq_Ok split: if_splits dest: le_trans)

function scan_args :: "'o check list \<Rightarrow> string list \<Rightarrow> 'o \<Rightarrow> 'o res" where
  "scan_args cs [] o' = Ok o'"
| "scan_args cs (a # rest) o' =
     (case run_checks cs a rest o' of
        Ok (rest', o'') \<Rightarrow> scan_args cs rest' o''
      | Throw e \<Rightarrow> Throw e
      | Stuck \<Rightarrow> Stuck)"
  by pat_completeness auto
termination
  by (relation "measure (\<lambda>(cs, args, o'). length args)") (auto dest!: run_checks_shorter)

fun check_name :: "'o check \<Rightarrow> string" where
  "check_name (Switch name f) = name"
| "check_name (Valued name f) = name"

lemma check_name_int_option [simp]: "check_name (int_option name f) = name"
  by (simp add: int_option_def)

text \<open>Arguments no check knows are skipped.\<close>

lemma run_checks_other: "a \<notin> check_name ` set cs \<Longrightarrow> run_checks cs a rest o' = Ok (rest, o')"
  by (induction cs a rest o' rule: run_checks.induct) auto

lemma scan_args_other: "set args \<inter> check_name ` set cs = {} \<Longrightarrow> scan_args cs args o' = Ok o'"
  by (induction cs args o' rule: scan_args.induct) (auto simp: run_checks_other)

end
