(* ===== verification/Daemon_Main.thy ===== *)
theory Daemon_Main
  imports Command_Line Tcp_Connection Daemon Fake_Backend
begin

text \<open>
  \<open>main\<close> of \<open>daemon/src/server.cpp\<close>: the command line, the configuration made from it, the key
  file, and the replies of the discovery responder. Starting the threads, the tray icon and the
  sockets are not modelled; the threads themselves are in \<open>Server\<close>, \<open>Tcp_Server\<close> and \<open>Daemon\<close>.

  Shown here: options written out on a command line are read back, the announcement can be read, and
  a key file that cannot be read leaves the TCP server open to everyone.
\<close>

section \<open>Options\<close>

record Options =
  op_headless :: bool
  op_bind_public :: bool
  op_read_only :: bool
  op_include_hostname :: bool
  op_admin_logs :: bool
  op_auth_keys :: string
  op_require_auth :: bool
  op_tcp_port :: int
  op_max_snaps :: int
  op_max_conns :: int
  op_session_ttl :: int
  op_req_timeout :: int
  op_poll_interval :: int
  op_max_wait :: int
  op_discovery_port :: int
  op_max_mem_read :: int
  op_uia_depth :: int
  op_service_timeout :: int
  op_max_event_log :: int
  op_pipe_name :: string
  op_log_level :: "LogLevel option"

definition pipe_prefix :: string where
  "pipe_prefix = [CHR 0x5C, CHR 0x5C, CHR ''.'', CHR 0x5C] @ ''pipe'' @ [CHR 0x5C]"

definition default_options :: Options where
  "default_options = \<lparr>op_headless = False, op_bind_public = False, op_read_only = False,
     op_include_hostname = False, op_admin_logs = False, op_auth_keys = [], op_require_auth = False,
     op_tcp_port = 1985, op_max_snaps = 1000, op_max_conns = 32, op_session_ttl = 3600,
     op_req_timeout = 5000, op_poll_interval = 100, op_max_wait = 30000, op_discovery_port = 1986,
     op_max_mem_read = 1024 * 1024, op_uia_depth = - 1, op_service_timeout = 30, op_max_event_log = 1000,
     op_pipe_name = pipe_prefix @ ''wininspectd'', op_log_level = None\<rparr>"

definition log_level_option :: "string \<Rightarrow> Options \<Rightarrow> Options res" where
  "log_level_option lvl o' = Ok (
     if lvl = ''TRACE'' then o'\<lparr>op_log_level := Some TRACE\<rparr>
     else if lvl = ''DEBUG'' then o'\<lparr>op_log_level := Some DEBUG\<rparr>
     else if lvl = ''INFO'' then o'\<lparr>op_log_level := Some INFO\<rparr>
     else if lvl = ''WARN'' then o'\<lparr>op_log_level := Some WARN\<rparr>
     else if lvl = ''ERROR'' then o'\<lparr>op_log_level := Some ERR\<rparr>
     else o')"

definition checks :: "Options check list" where
  "checks =
     [Switch ''--headless'' (\<lambda>o'. o'\<lparr>op_headless := True\<rparr>),
      Switch ''--public'' (\<lambda>o'. o'\<lparr>op_bind_public := True\<rparr>),
      Switch ''--read-only'' (\<lambda>o'. o'\<lparr>op_read_only := True\<rparr>),
      Switch ''--require-auth'' (\<lambda>o'. o'\<lparr>op_require_auth := True\<rparr>),
      Switch ''--include-hostname'' (\<lambda>o'. o'\<lparr>op_include_hostname := True\<rparr>),
      Switch ''--admin-logs'' (\<lambda>o'. o'\<lparr>op_admin_logs := True\<rparr>),
      Valued ''--auth-keys'' (\<lambda>v o'. Ok (o'\<lparr>op_auth_keys := v\<rparr>)),
      int_option ''--port'' (\<lambda>n o'. o'\<lparr>op_tcp_port := n\<rparr>),
      int_option ''--max-snapshots'' (\<lambda>n o'. o'\<lparr>op_max_snaps := n\<rparr>),
      int_option ''--max-conns'' (\<lambda>n o'. o'\<lparr>op_max_conns := n\<rparr>),
      int_option ''--session-ttl'' (\<lambda>n o'. o'\<lparr>op_session_ttl := n\<rparr>),
      int_option ''--request-timeout'' (\<lambda>n o'. o'\<lparr>op_req_timeout := n\<rparr>),
      int_option ''--poll-interval'' (\<lambda>n o'. o'\<lparr>op_poll_interval := n\<rparr>),
      int_option ''--max-wait'' (\<lambda>n o'. o'\<lparr>op_max_wait := n\<rparr>),
      Valued ''--pipe-name'' (\<lambda>v o'. Ok (o'\<lparr>op_pipe_name := pipe_prefix @ v\<rparr>)),
      int_option ''--discovery-port'' (\<lambda>n o'. o'\<lparr>op_discovery_port := n\<rparr>),
      int_option ''--max-mem-read'' (\<lambda>n o'. o'\<lparr>op_max_mem_read := n\<rparr>),
      int_option ''--uia-depth'' (\<lambda>n o'. o'\<lparr>op_uia_depth := n\<rparr>),
      int_option ''--service-timeout'' (\<lambda>n o'. o'\<lparr>op_service_timeout := n\<rparr>),
      int_option ''--max-event-log'' (\<lambda>n o'. o'\<lparr>op_max_event_log := n\<rparr>),
      Valued ''--log-level'' log_level_option]"

definition parse_args :: "string list \<Rightarrow> Options \<Rightarrow> Options res" where
  "parse_args = scan_args checks"

section \<open>Configuration\<close>

definition configured_state :: "Options \<Rightarrow> ServerState" where
  "configured_state o' = new_server_state\<lparr>max_snapshots := word_of_int (op_max_snaps o'),
     max_connections := op_max_conns o', session_ttl_sec := op_session_ttl o',
     request_timeout_ms := op_req_timeout o', poll_interval_ms := op_poll_interval o',
     max_wait_ms := op_max_wait o', discovery_port := op_discovery_port o',
     max_mem_read_size := word_of_int (op_max_mem_read o'),
     uia_depth := (if op_uia_depth o' \<noteq> - 1 then op_uia_depth o' else uia_depth new_server_state),
     service_timeout_sec := op_service_timeout o', max_event_log := word_of_int (op_max_event_log o')\<rparr>"

definition backend_config :: "ServerState \<Rightarrow> Object" where
  "backend_config st = obj_of [(''max_mem_read'', num_of_int (uint (max_mem_read_size st))),
     (''uia_depth'', num_of_int (uia_depth st)), (''service_timeout'', num_of_int (service_timeout_sec st))]"

text \<open>\<open>files\<close> gives the content of a file that can be opened; otherwise nothing is read.\<close>

definition load_keys :: "(string \<Rightarrow> string option) \<Rightarrow> string \<Rightarrow> string" where
  "load_keys files auth_keys = (if auth_keys = [] then [] else case files auth_keys of None \<Rightarrow> [] | Some s \<Rightarrow> s)"

text \<open>
  The arguments of the two servers. The TCP server is not passed \<open>--require-auth\<close>, and nothing it does
  looks at that field.
\<close>

definition server_config :: "(string \<Rightarrow> string option) \<Rightarrow> Options \<Rightarrow> ServerConfig" where
  "server_config files o' = \<lparr>cfg_read_only = op_read_only o', cfg_require_auth = op_require_auth o',
     cfg_admin_logs = op_admin_logs o', cfg_auth_keys = load_keys files (op_auth_keys o')\<rparr>"

text \<open>
  From the options to the first state with no client: the backend is configured and asked for its
  environment, and the lines up to the start of the TCP server are logged. A backend whose metadata lack
  an entry ends the process.
\<close>

definition greeting :: "'s IBackend \<Rightarrow> ('s, string list) comp" where
  "greeting B = andThen (get_env_metadata B) (\<lambda>env.
     andThen (lift_res (rthen (obj_at env ''os'') as_str)) (\<lambda>os_name.
     andThen (lift_res (rthen (obj_at env ''arch'') as_str)) (\<lambda>arch_name.
     andThen (if map_of env ''wine_version'' = None then ret []
              else lift_res (rthen (rthen (obj_at env ''wine_version'') as_str) (\<lambda>v. Ok [''Wine Version: '' @ v]))) (\<lambda>wine.
       ret ((''Environment: '' @ os_name @ '' ('' @ arch_name @ '')'') # wine)))))"

definition start_lines :: "(string \<Rightarrow> string option) \<Rightarrow> Options \<Rightarrow> string list" where
  "start_lines files o' =
     (if op_auth_keys o' = [] then []
      else [''Loaded '' @ to_string_nat (length (load_keys files (op_auth_keys o'))) @
            '' bytes of authorized keys from '' @ op_auth_keys o']) @
     [''Starting Discovery responder...'', ''Starting Cleanup thread...'',
      ''Starting Named Pipe server (background)...'', ''Starting TCP Server (blocking main thread)...'']"

definition start_daemon ::
  "(string \<Rightarrow> string option) \<Rightarrow> 's IBackend \<Rightarrow> string \<Rightarrow> Options \<Rightarrow> 's \<Rightarrow> 's Daemon res" where
  "start_daemon files B ts o' b =
     (let st = configured_state o';
          lg = (case op_log_level o' of None \<Rightarrow> new_logger | Some l \<Rightarrow> set_level l new_logger) in
      case andThen (set_config B (backend_config st)) (\<lambda>_. greeting B) b of
        (Ok env_lines, b') \<Rightarrow> Ok \<lparr>d_world = \<lparr>w_st = st, w_backend = b', w_log =
           log_all (map (\<lambda>m. (INFO, ts, m))
             (''WinInspect Daemon starting up...'' # env_lines @ start_lines files o')) lg\<rparr>, d_clients = []\<rparr>
      | (Throw e, b') \<Rightarrow> Throw e
      | (Stuck, b') \<Rightarrow> Stuck)"

section \<open>Discovery\<close>

definition short_pipe_name :: "string \<Rightarrow> string" where
  "short_pipe_name full = (if CHR 0x5C \<in> set full then rev (takeWhile (\<lambda>c. c \<noteq> CHR 0x5C) (rev full)) else full)"

definition announcement :: "Options \<Rightarrow> string \<Rightarrow> bool \<Rightarrow> string \<Rightarrow> Object" where
  "announcement o' os_name wine hostname = obj_of (
     [(''type'', Str ''announcement''), (''port'', num_of_int (op_tcp_port o')), (''os'', Str os_name),
      (''is_wine'', Bool wine), (''pipe_name'', Str (short_pipe_name (op_pipe_name o')))] @
     (if op_include_hostname o' then [(''hostname'', Str hostname)] else []))"

text \<open>
  The answer to a datagram; \<open>env.at\<close> throws where the backend's metadata lack an entry, and nothing
  catches that.
\<close>

definition discovery_reply :: "'s IBackend \<Rightarrow> Options \<Rightarrow> string \<Rightarrow> string \<Rightarrow> ('s, string option) comp" where
  "discovery_reply B o' hostname msg =
     (if msg \<noteq> ''WININSPECT_DISCOVER'' then ret None
      else andThen (get_env_metadata B) (\<lambda>env.
        andThen (lift_res (rthen (obj_at env ''os'') as_str)) (\<lambda>os_name.
        andThen (lift_res (rthen (obj_at env ''is_wine'') as_bool)) (\<lambda>wine.
          ret (Some (dumps (Obj (announcement o' os_name wine hostname))))))))"

text \<open>A datagram that has been received; an empty one is passed over, every other is logged first.\<close>

definition discovery_datagram ::
  "'s IBackend \<Rightarrow> Options \<Rightarrow> string \<Rightarrow> string \<Rightarrow> string \<Rightarrow> 's World \<Rightarrow> string option res \<times> 's World" where
  "discovery_datagram B o' hostname ts msg w =
     (if msg = [] then (Ok None, w)
      else case discovery_reply B o' hostname msg (w_backend w) of (r, b) \<Rightarrow>
        (r, w\<lparr>w_log := log_at DEBUG ts (''Discovery packet received: '' @ msg) (w_log w), w_backend := b\<rparr>))"

section \<open>Reading the options back\<close>

definition option_names :: "string set" where
  "option_names = check_name ` set checks"

lemma option_names_dashed: "a \<in> option_names \<Longrightarrow> take 2 a = ''--''"
  by (auto simp: option_names_def checks_def)

lemma int_not_option: "to_string_int v \<notin> option_names"
proof
  assume "to_string_int v \<in> option_names"
  then have t: "take 2 (to_string_int v) = ''--''" by (rule option_names_dashed)
  then have "CHR ''-'' \<in> set (dec_str (nat \<bar>v\<bar>))"
    by (auto simp: to_string_int_def split: if_splits)
      (metis in_set_takeD list.set_intros(1))+
  then show False using dec_str_isdigit isdigit_not_special by blast
qed

text \<open>The command line that says everything.\<close>

definition level_name :: "LogLevel \<Rightarrow> string" where
  "level_name l = (case l of TRACE \<Rightarrow> ''TRACE'' | DEBUG \<Rightarrow> ''DEBUG'' | INFO \<Rightarrow> ''INFO'' | WARN \<Rightarrow> ''WARN'' | ERR \<Rightarrow> ''ERROR'')"

definition show_args :: "string \<Rightarrow> Options \<Rightarrow> string list" where
  "show_args pipe o' =
     (if op_headless o' then [''--headless''] else []) @
     (if op_bind_public o' then [''--public''] else []) @
     (if op_read_only o' then [''--read-only''] else []) @
     (if op_require_auth o' then [''--require-auth''] else []) @
     (if op_include_hostname o' then [''--include-hostname''] else []) @
     (if op_admin_logs o' then [''--admin-logs''] else []) @
     [''--auth-keys'', op_auth_keys o', ''--port'', to_string_int (op_tcp_port o'),
      ''--max-snapshots'', to_string_int (op_max_snaps o'), ''--max-conns'', to_string_int (op_max_conns o'),
      ''--session-ttl'', to_string_int (op_session_ttl o'),
      ''--request-timeout'', to_string_int (op_req_timeout o'),
      ''--poll-interval'', to_string_int (op_poll_interval o'), ''--max-wait'', to_string_int (op_max_wait o'),
      ''--pipe-name'', pipe, ''--discovery-port'', to_string_int (op_discovery_port o'),
      ''--max-mem-read'', to_string_int (op_max_mem_read o'), ''--uia-depth'', to_string_int (op_uia_depth o'),
      ''--service-timeout'', to_string_int (op_service_timeout o'),
      ''--max-event-log'', to_string_int (op_max_event_log o')] @
     (case op_log_level o' of None \<Rightarrow> [] | Some l \<Rightarrow> [''--log-level'', level_name l])"

definition int_options :: "Options \<Rightarrow> int list" where
  "int_options o' = [op_tcp_port o', op_max_snaps o', op_max_conns o', op_session_ttl o', op_req_timeout o',
     op_poll_interval o', op_max_wait o', op_discovery_port o', op_max_mem_read o', op_uia_depth o',
     op_service_timeout o', op_max_event_log o']"

lemma parse_args_nil: "parse_args [] o' = Ok o'"
  by (simp add: parse_args_def)

lemma parse_switches:
  "parse_args ((if b then [''--headless''] else []) @ rest) o' =
     parse_args rest (o'\<lparr>op_headless := b \<or> op_headless o'\<rparr>)"
  "parse_args ((if b then [''--public''] else []) @ rest) o' =
     parse_args rest (o'\<lparr>op_bind_public := b \<or> op_bind_public o'\<rparr>)"
  "parse_args ((if b then [''--read-only''] else []) @ rest) o' =
     parse_args rest (o'\<lparr>op_read_only := b \<or> op_read_only o'\<rparr>)"
  "parse_args ((if b then [''--require-auth''] else []) @ rest) o' =
     parse_args rest (o'\<lparr>op_require_auth := b \<or> op_require_auth o'\<rparr>)"
  "parse_args ((if b then [''--include-hostname''] else []) @ rest) o' =
     parse_args rest (o'\<lparr>op_include_hostname := b \<or> op_include_hostname o'\<rparr>)"
  "parse_args ((if b then [''--admin-logs''] else []) @ rest) o' =
     parse_args rest (o'\<lparr>op_admin_logs := b \<or> op_admin_logs o'\<rparr>)"
  by (simp_all add: parse_args_def checks_def int_option_def)

lemmas not_option = option_names_def[unfolded checks_def, simplified]

lemma parse_strings:
  "v \<notin> option_names \<Longrightarrow> parse_args (''--auth-keys'' # v # rest) o' = parse_args rest (o'\<lparr>op_auth_keys := v\<rparr>)"
  "v \<notin> option_names \<Longrightarrow>
     parse_args (''--pipe-name'' # v # rest) o' = parse_args rest (o'\<lparr>op_pipe_name := pipe_prefix @ v\<rparr>)"
  "parse_args (''--log-level'' # level_name l # rest) o' = parse_args rest (o'\<lparr>op_log_level := Some l\<rparr>)"
  by (simp_all add: parse_args_def checks_def int_option_def not_option log_level_option_def level_name_def split: LogLevel.split)

lemma parse_ints:
  assumes "- (2 ^ 31) \<le> n" "n < 2 ^ 31"
  shows "parse_args (''--port'' # to_string_int n # rest) o' = parse_args rest (o'\<lparr>op_tcp_port := n\<rparr>)"
    "parse_args (''--max-snapshots'' # to_string_int n # rest) o' = parse_args rest (o'\<lparr>op_max_snaps := n\<rparr>)"
    "parse_args (''--max-conns'' # to_string_int n # rest) o' = parse_args rest (o'\<lparr>op_max_conns := n\<rparr>)"
    "parse_args (''--session-ttl'' # to_string_int n # rest) o' = parse_args rest (o'\<lparr>op_session_ttl := n\<rparr>)"
    "parse_args (''--request-timeout'' # to_string_int n # rest) o' = parse_args rest (o'\<lparr>op_req_timeout := n\<rparr>)"
    "parse_args (''--poll-interval'' # to_string_int n # rest) o' = parse_args rest (o'\<lparr>op_poll_interval := n\<rparr>)"
    "parse_args (''--max-wait'' # to_string_int n # rest) o' = parse_args rest (o'\<lparr>op_max_wait := n\<rparr>)"
    "parse_args (''--discovery-port'' # to_string_int n # rest) o' = parse_args rest (o'\<lparr>op_discovery_port := n\<rparr>)"
    "parse_args (''--max-mem-read'' # to_string_int n # rest) o' = parse_args rest (o'\<lparr>op_max_mem_read := n\<rparr>)"
    "parse_args (''--uia-depth'' # to_string_int n # rest) o' = parse_args rest (o'\<lparr>op_uia_depth := n\<rparr>)"
    "parse_args (''--service-timeout'' # to_string_int n # rest) o' = parse_args rest (o'\<lparr>op_service_timeout := n\<rparr>)"
    "parse_args (''--max-event-log'' # to_string_int n # rest) o' = parse_args rest (o'\<lparr>op_max_event_log := n\<rparr>)"
  using int_not_option[of n, unfolded not_option, simplified]
  by (simp_all add: parse_args_def checks_def int_option_def stoi_to_string[OF assms])

section \<open>Properties\<close>

text \<open>C24: a command line that spells out every option is read back as those options: no switch is mistaken for a value or the
  other way round, and every number of the range of \<open>int\<close> arrives.\<close>

theorem args_read_back:
  assumes "op_pipe_name o' = pipe_prefix @ pipe" "pipe \<notin> option_names" "op_auth_keys o' \<notin> option_names"
    and "\<forall>n \<in> set (int_options o'). - (2 ^ 31) \<le> n \<and> n < 2 ^ 31"
  shows "parse_args (show_args pipe o') default_options = Ok o'"
proof -
  have "parse_args (show_args pipe o') default_options = Ok (default_options
    \<lparr>op_headless := op_headless o', op_bind_public := op_bind_public o', op_read_only := op_read_only o',
     op_require_auth := op_require_auth o', op_include_hostname := op_include_hostname o',
     op_admin_logs := op_admin_logs o', op_auth_keys := op_auth_keys o', op_tcp_port := op_tcp_port o',
     op_max_snaps := op_max_snaps o', op_max_conns := op_max_conns o', op_session_ttl := op_session_ttl o',
     op_req_timeout := op_req_timeout o', op_poll_interval := op_poll_interval o',
     op_max_wait := op_max_wait o', op_pipe_name := op_pipe_name o', op_discovery_port := op_discovery_port o',
     op_max_mem_read := op_max_mem_read o', op_uia_depth := op_uia_depth o',
     op_service_timeout := op_service_timeout o', op_max_event_log := op_max_event_log o',
     op_log_level := op_log_level o'\<rparr>)"
    using assms by (simp add: show_args_def parse_switches parse_strings parse_ints int_options_def
      default_options_def parse_args_nil split: option.split split del: if_split)
  then show ?thesis by (simp add: default_options_def)
qed

theorem args_read_back_witness:
  "parse_args (show_args ''test'' (default_options\<lparr>op_pipe_name := pipe_prefix @ ''test'', op_read_only := True,
      op_uia_depth := 7, op_log_level := Some DEBUG\<rparr>)) default_options =
    Ok (default_options\<lparr>op_pipe_name := pipe_prefix @ ''test'', op_read_only := True, op_uia_depth := 7, op_log_level := Some DEBUG\<rparr>)"
proof -
  have "''test'' \<notin> option_names" "[] \<notin> option_names" using option_names_dashed by force+
  then show ?thesis
    by (intro args_read_back) (simp_all add: default_options_def int_options_def)
qed

lemma initial_started: "start_daemon files B ts o' b = Ok d \<Longrightarrow> initial d \<and> max_snapshots (d_st d) = word_of_int (op_max_snaps o')"
  by (auto simp: start_daemon_def configured_state_def initial_def new_server_state_def Let_def
    split: res.splits prod.splits)

lemma fake_starts:
  "\<exists>d. start_daemon files fake_backend ts o' b = Ok d \<and> w_backend (d_world d) = b"
  by (simp add: start_daemon_def greeting_def fake_get_env_metadata_def fake_set_config_def fake_caps_def
      comp_simps obj_at_def as_str_def Let_def)

text \<open>C34: a key file that cannot be opened leaves the TCP server open. The daemon starts as if no keys were asked for, and whoever
  connects is served on an unencrypted connection without having said anything, even under
  \<open>--require-auth\<close>.\<close>

theorem unreadable_keys_admit:
  fixes C nonce
  defines "start \<equiv> generate_local_key C new_crypto"
  defines "hello \<equiv> dumps (Obj (challenge [] nonce (fst start)))"
  assumes "files (op_auth_keys o') = None" and "length hello < 2 ^ 31" and "writable (length (frame hello) + n) sizes"
  shows "\<exists>sz. handle_socket_client (server_config files o') B tks C nonce sizes pieces w =
      (let (out, t) = serve (server_config files o') B tks (C, False) sz pieces (snd start) w new_conn
       in (frame hello @ out, t)) \<and> writable n sz"
proof -
  have "cfg_auth_keys (server_config files o') = []" using assms(3) by (simp add: server_config_def load_keys_def)
  moreover have "\<not> cs_initialized (snd start)"
    by (simp add: start_def generate_local_key_def new_crypto_def split: option.split)
  ultimately show ?thesis
    using socket_write_writable[OF assms(5,4)]
    by (auto simp: handle_socket_client_def handshake_def start_def hello_def case_prod_beta Let_def)
qed

theorem unreadable_keys_admit_witness:
  "\<forall>tk w. \<exists>sz. handle_socket_client (server_config (\<lambda>_. None) (default_options\<lparr>op_auth_keys := ''keys'', op_require_auth := True\<rparr>))
      fake_backend (\<lambda>_ _. tk) plain_cng zeros32 (replicate 2000 1) [] w =
    (let (out, t) = serve (server_config (\<lambda>_. None) (default_options\<lparr>op_auth_keys := ''keys'', op_require_auth := True\<rparr>))
        fake_backend (\<lambda>_ _. tk) (plain_cng, False) sz [] (snd (generate_local_key plain_cng new_crypto)) w new_conn
     in (frame (dumps (Obj (challenge [] zeros32 [1]))) @ out, t)) \<and> writable 0 sz"
proof -
  have start: "fst (generate_local_key plain_cng new_crypto) = [1]"
    by (simp add: generate_local_key_def plain_cng_def)
  have "length (dumps (Obj (challenge [] zeros32 [1]))) < 1000" by code_simp
  then have "length (dumps (Obj (challenge [] zeros32 [1]))) < 2 ^ 31"
    "writable (length (frame (dumps (Obj (challenge [] zeros32 [1])))) + 0) (replicate 2000 1)"
    by (simp_all add: frame_def writable_def)
  then show ?thesis
    using unreadable_keys_admit[where files = "\<lambda>_. None" and o' = "default_options\<lparr>op_auth_keys := ''keys'', op_require_auth := True\<rparr>"
      and nonce = zeros32 and C = plain_cng and n = 0 and sizes = "replicate 2000 1" and B = fake_backend and pieces = "[]"] unfolding start by simp
qed

section \<open>The announcement\<close>

lemma short_name: "CHR 0x5C \<notin> set pipe \<Longrightarrow> short_pipe_name (pipe_prefix @ pipe) = pipe"
proof -
  assume "CHR 0x5C \<notin> set pipe"
  then have "takeWhile (\<lambda>c. c \<noteq> CHR 0x5C) (rev pipe @ CHR 0x5C # xs) = rev pipe" for xs
    by (subst takeWhile_append2) auto
  then show ?thesis by (simp add: short_pipe_name_def pipe_prefix_def)
qed

lemma wire_announcement: "\<bar>op_tcp_port o'\<bar> \<le> 2 ^ 64 \<Longrightarrow> wire_value (Obj (announcement o' os_name wine hostname))"
  unfolding announcement_def by (intro wire_obj_of) (auto intro: wire_num_of_int)

text \<open>Discovery. Only the exact word is answered, and a client that parses the answer finds the TCP port, the system, the
  name given to \<open>--pipe-name\<close>, and the host name exactly when \<open>--include-hostname\<close> was given. Any other
  datagram leaves at most a line in the log.\<close>

theorem discovery_answered:
  assumes "get_env_metadata B (w_backend w) = (Ok env, b')" and "map_of env ''os'' = Some (Str os_name)"
    and "map_of env ''is_wine'' = Some (Bool wine)" and "op_pipe_name o' = pipe_prefix @ pipe" and "CHR 0x5C \<notin> set pipe"
    and "- (2 ^ 31) \<le> op_tcp_port o'" "op_tcp_port o' < 2 ^ 31"
  shows "(\<exists>text m lg. discovery_datagram B o' hostname ts ''WININSPECT_DISCOVER'' w =
        (Ok (Some text), w\<lparr>w_log := lg, w_backend := b'\<rparr>) \<and> parse text = Ok (Obj m) \<and>
      get_num m ''port'' = Some (double_of_int (op_tcp_port o')) \<and> get_str m ''os'' = Some os_name \<and>
      get_bool m ''is_wine'' = Some wine \<and> get_str m ''pipe_name'' = Some pipe \<and>
      get_str m ''hostname'' = (if op_include_hostname o' then Some hostname else None)) \<and>
    (msg \<noteq> ''WININSPECT_DISCOVER'' \<longrightarrow>
      (\<exists>lg. discovery_datagram B o' hostname ts msg w = (Ok None, w\<lparr>w_log := lg\<rparr>)))"
proof -
  let ?m = "announcement o' os_name wine hostname"
  have "discovery_reply B o' hostname ''WININSPECT_DISCOVER'' (w_backend w) = (Ok (Some (dumps (Obj ?m))), b')"
    using assms(1-3) by (simp add: discovery_reply_def andThen_def obj_at_def as_str_def as_bool_def comp_simps lift_res_def)
  then have "\<exists>lg. discovery_datagram B o' hostname ts ''WININSPECT_DISCOVER'' w =
      (Ok (Some (dumps (Obj ?m))), w\<lparr>w_log := lg, w_backend := b'\<rparr>)"
    by (auto simp: discovery_datagram_def)
  moreover have "parse (dumps (Obj ?m)) = Ok (Obj ?m)"
    using wire_announcement assms(6,7) by (intro wire_round_trip) simp
  moreover have "\<exists>lg. discovery_datagram B o' hostname ts msg w = (Ok None, w\<lparr>w_log := lg\<rparr>)" if "msg \<noteq> ''WININSPECT_DISCOVER''"
  proof (cases "msg = []")
    case True
    then have "discovery_datagram B o' hostname ts msg w = (Ok None, w\<lparr>w_log := w_log w\<rparr>)" by (simp add: discovery_datagram_def)
    then show ?thesis ..
  next
    case False
    then have "discovery_datagram B o' hostname ts msg w =
        (Ok None, w\<lparr>w_log := log_at DEBUG ts (''Discovery packet received: '' @ msg) (w_log w)\<rparr>)"
      using that by (simp add: discovery_datagram_def discovery_reply_def comp_simps)
    then show ?thesis ..
  qed
  ultimately show ?thesis
    using assms(4,5) by (auto simp: announcement_def get_num_def get_str_def get_bool_def short_name)
qed

theorem discovery_answered_witness:
  "\<forall>w :: FakeBackend World. (\<exists>text m lg. discovery_datagram fake_backend (default_options\<lparr>op_include_hostname := True\<rparr>) ''box'' ''t'' ''WININSPECT_DISCOVER'' w =
      (Ok (Some text), w\<lparr>w_log := lg\<rparr>) \<and> parse text = Ok (Obj m) \<and> get_str m ''pipe_name'' = Some ''wininspectd'' \<and>
      get_str m ''hostname'' = Some ''box'') \<and>
    (\<exists>lg. discovery_datagram fake_backend (default_options\<lparr>op_include_hostname := True\<rparr>) ''box'' ''t'' ''hello'' w = (Ok None, w\<lparr>w_log := lg\<rparr>))"
proof
  fix w :: "FakeBackend World"
  show "(\<exists>text m lg. discovery_datagram fake_backend (default_options\<lparr>op_include_hostname := True\<rparr>) ''box'' ''t'' ''WININSPECT_DISCOVER'' w =
      (Ok (Some text), w\<lparr>w_log := lg\<rparr>) \<and> parse text = Ok (Obj m) \<and> get_str m ''pipe_name'' = Some ''wininspectd'' \<and>
      get_str m ''hostname'' = Some ''box'') \<and>
    (\<exists>lg. discovery_datagram fake_backend (default_options\<lparr>op_include_hostname := True\<rparr>) ''box'' ''t'' ''hello'' w = (Ok None, w\<lparr>w_log := lg\<rparr>))"
    using discovery_answered[of fake_backend w _ "w_backend w" "os fake_caps" "is_wine fake_caps"
        "default_options\<lparr>op_include_hostname := True\<rparr>" "''wininspectd''" "''box''" "''t''" "''hello''"]
    by (simp add: fake_get_env_metadata_def comp_simps default_options_def) blast
qed

end
