(* ===== verification/Daemon_Liveness.thy ===== *)
theory Daemon_Liveness
  imports Daemon_Main Daemon_Contract Core_Invariant
begin

text \<open>
  The daemon from its command line to the last response: what the backend keeps it keeps under every
  interleaving of the threads, the limits never change, and so a conversation that starts in any
  reachable state is answered to the end.
\<close>

section \<open>The backend under every interleaving\<close>

lemma backend_kept [simp]:
  "w_backend (fst (snd (pipe_open cfg tk w))) = w_backend w"
  "w_backend (fst (snd (pipe_receive tk msg w c))) = w_backend w"
  "w_backend (fst (snd (pipe_close tk w c))) = w_backend w"
  "w_backend (fst (snd (tcp_receive msg w c))) = w_backend w"
  by (auto simp: pipe_open_def pipe_receive_def pipe_close_def tcp_receive_def Let_def split: res.splits)

context invariant_backend
begin

lemma capture_then_keeps: "Inv (w_backend w) \<Longrightarrow> Inv (w_backend (fst (snd (capture_then B catch k w c))))"
  using keepsD[OF capture_keeps, of "w_backend w"] by (auto simp: capture_then_def split: prod.splits res.splits)

lemma run_core_keeps: "Inv (w_backend w) \<Longrightarrow> Inv (w_backend (fst (snd (run_core late catch cfg B tk req snap old w c))))"
  using handle_keeps[of "w_backend w" "engine cfg tk" req snap old "w_log w"]
  by (auto simp: run_core_def Let_def split: prod.splits res.splits)

lemma thread_keeps:
  assumes "Inv (w_backend (fst (snd t)))"
  shows "Inv (w_backend (fst (snd (pipe_step cfg B tk t))))" "Inv (w_backend (fst (snd (tcp_step cfg B tk t))))"
proof -
  obtain ph w c where t: "t = (ph, w, c)" by (cases t)
  then have I: "Inv (w_backend w)" using assms by simp
  show "Inv (w_backend (fst (snd (pipe_step cfg B tk t))))" "Inv (w_backend (fst (snd (tcp_step cfg B tk t))))"
    unfolding t using I run_core_keeps[OF I] capture_then_keeps[OF I]
    by (cases ph; simp add: pipe_session_def tcp_session_def tcp_enter_session_def pipe_route_def tcp_route_def do_subscribe_def
        unsubscribed_def guard_def do_store_def pipe_pin_def tcp_pin_def choose_old_def do_commit_def send_response_def
        do_unpin_def case_prod_beta Let_def split: option.splits)+
qed

lemma daemon_step_keeps: "daemon_step cfg B d d' \<Longrightarrow> Inv (w_backend (d_world d)) \<Longrightarrow> Inv (w_backend (d_world d'))"
proof (induction rule: daemon_step.induct)
  case (pipe_piece i d ph c tk)
  then show ?case using thread_keeps(1)[of "(ph, d_world d, c)"] by (simp add: set_client_def case_prod_beta)
next
  case (tcp_piece i d ph c tk)
  then show ?case using thread_keeps(2)[of "(ph, d_world d, c)"] by (simp add: set_client_def case_prod_beta)
qed (simp_all add: set_client_def case_prod_beta accept_pipe_def accept_tcp_def cleanup_def Let_def)

lemma daemon_run_keeps: "daemon_run cfg B n d d' \<Longrightarrow> Inv (w_backend (d_world d)) \<Longrightarrow> Inv (w_backend (d_world d'))"
  by (induction rule: daemon_run.induct) (auto intro: daemon_step_keeps)

end

section \<open>A conversation\<close>

text \<open>The numbers of the request, if the message is one, fit the types they are converted to.\<close>

definition numbers_fit :: "string \<Rightarrow> bool" where
  "numbers_fit msg \<longleftrightarrow> (case parse_request_json msg of Ok req \<Rightarrow> params_in_range (req_params req) | _ \<Rightarrow> True)"

lemma numbers_fitD: "numbers_fit msg \<Longrightarrow> \<forall>req. parse_request_json msg = Ok req \<longrightarrow> params_in_range (req_params req)"
  by (auto simp: numbers_fit_def split: res.splits)

lemma acyclic_tree: "fake_shape R b \<Longrightarrow> acyclic R \<Longrightarrow> fst (fake_get_window_tree snap h b) \<noteq> Stuck"
  by (auto simp: fake_tree_stuck fake_shape_def acyclic_def)

lemma filter_update: "\<not> P (xs ! i) \<Longrightarrow> \<not> P x \<Longrightarrow> filter P (xs[i := x]) = filter P xs"
  by (induction xs arbitrary: i) (auto split: nat.split)

lemma reading_not_busy [simp]: "\<not> busy (TcpClient Reading c)"
  by (simp add: busy_def holding_def)

lemma converse_answered:
  assumes "initial d0" "daemon_run cfg fake_backend n d0 d" "n + 11 * length msgs < 2 ^ 64 - 1"
    and "fake_shape R (w_backend (d_world d))" "acyclic R" "\<forall>msg \<in> set msgs. numbers_fit msg"
    and "i < length (d_clients d)" "d_clients d ! i = TcpClient Reading c"
    and "length (filter busy (d_clients d)) < unat (max_snapshots (d_st d))"
  shows "\<exists>w' c'. converse cfg fake_backend tks msgs (d_world d) c = (Reading, w', c') \<and>
    length (cn_sent c') = length (cn_sent c) + length msgs"
  using assms(2-4,6-)
proof (induction msgs arbitrary: n d c)
  case (Cons msg msgs)
  let ?d = "set_client i TcpClient (tcp_message cfg fake_backend (tks (length (cn_sent c))) msg (d_world d) c) d"
  have "fits (d_st d)" using run_fits[OF assms(1) Cons.prems(1) _ Cons.prems(7)] Cons.prems(2) by simp
  then obtain w1 c1 out where m: "tcp_message cfg fake_backend (tks (length (cn_sent c))) msg (d_world d) c = (Reading, w1, c1)"
    "cn_sent c1 = cn_sent c @ [out]"
    using tcp_answered[of "d_world d" msg cfg "tks (length (cn_sent c))" c] acyclic_tree[OF Cons.prems(3) assms(5)]
      numbers_fitD[of msg] Cons.prems(4) by auto
  obtain k where k: "k \<le> 11" "daemon_run cfg fake_backend k d ?d"
    using tcp_message_run[OF Cons.prems(5,6)] by blast
  have "\<exists>w' c'. converse cfg fake_backend tks msgs (d_world ?d) c1 = (Reading, w', c') \<and>
      length (cn_sent c') = length (cn_sent c1) + length msgs"
  proof (rule Cons.IH[where n = "n + k"])
    show "daemon_run cfg fake_backend (n + k) d0 ?d" by (rule run_trans[OF k(2) Cons.prems(1)])
    show "n + k + 11 * length msgs < 2 ^ 64 - 1" using Cons.prems(2) k(1) by simp
    show "fake_shape R (w_backend (d_world ?d))" by (rule shape.daemon_run_keeps[OF k(2) Cons.prems(3)])
    show "length (filter busy (d_clients ?d)) < unat (max_snapshots (d_st ?d))"
      using Cons.prems(6,7) run_limit[OF k(2)] m(1) by (simp add: set_client_def filter_update)
  qed (use Cons.prems m in \<open>simp_all add: set_client_def\<close>)
  then show ?case using m by (auto simp: set_client_def)
qed simp


lemma garbage_fits: "numbers_fit ''hello''"
  by code_simp


end
