(* ===== verification/Cli_Main.thy ===== *)
theory Cli_Main
  imports Command_Line Cli Tcp_Handshake "HOL-Library.Sublist"
begin

text \<open>
  \<open>clients/cli/src/cli.cpp\<close> from its arguments to the line it prints: the global options, the table of
  commands, the authentication of a TCP connection, the exchange of one request, \<open>discover\<close>, \<open>watch\<close> and
  \<open>config\<close>. The connection itself is \<open>Transport\<close>'s \<^const>\<open>conn_send\<close> and \<^const>\<open>conn_recv\<close>; opening
  sockets and pipes is the operating system's and not modelled.
\<close>

section \<open>Numbers on the command line\<close>

text \<open>
  \<open>std::stod\<close> also reads hexadecimal numerals with a binary exponent. It reads names of infinities and of
  not-a-number too, which the model of \<open>double\<close> does not have: such a text is \<^const>\<open>Stuck\<close> here.
\<close>

definition split_hex_fraction :: "string \<Rightarrow> string \<times> string" where
  "split_hex_fraction s = (case s of
     c # t \<Rightarrow> (if c = CHR ''.'' then (takeWhile isxdigit t, dropWhile isxdigit t) else ([], s))
   | [] \<Rightarrow> ([], s))"

definition read_binary_exponent :: "string \<Rightarrow> int" where
  "read_binary_exponent s = (case s of
     c # t \<Rightarrow> (if c = CHR ''p'' \<or> c = CHR ''P''
       then (let (neg, u) = read_sign t; n = int (digits_val 10 (takeWhile isdigit u))
             in if neg then - n else n)
       else 0)
   | [] \<Rightarrow> 0)"

definition hex_prefixed :: "string \<Rightarrow> bool" where
  "hex_prefixed t \<longleftrightarrow> take 2 t \<in> {''0x'', ''0X''} \<and>
     (let u = drop 2 t in takeWhile isxdigit u \<noteq> [] \<or> fst (split_hex_fraction u) \<noteq> [])"

definition stod_hex :: "bool \<Rightarrow> string \<Rightarrow> double res" where
  "stod_hex neg t =
     (let ip = takeWhile isxdigit t;
          (fp, u) = split_hex_fraction (dropWhile isxdigit t);
          x = of_nat (digits_val 16 (ip @ fp)) * 2 powi (read_binary_exponent u - 4 * int (length fp));
          r = rnd64 x
      in if double_limit \<le> r \<or> (x \<noteq> 0 \<and> x < 2 powi (- 1022) \<and> r \<noteq> x)
         then Throw (OutOfRange ''stod'')
         else Ok (Double neg r))"

definition named_number :: "string \<Rightarrow> bool" where
  "named_number t \<longleftrightarrow> map toupper (take 3 t) \<in> {''INF'', ''NAN''}"

definition arg_number :: "string \<Rightarrow> double res" where
  "arg_number s =
     (let (neg, t) = read_sign (dropWhile isspace s)
      in if named_number t then Stuck
         else if hex_prefixed t then stod_hex neg (drop 2 t)
         else stod s)"

text \<open>\<open>std::stoull(s, nullptr, 0)\<close>: the base is read off the prefix, a minus sign negates modulo \<open>2 ^ 64\<close>.\<close>

definition isoctal :: "char \<Rightarrow> bool" where
  "isoctal c \<longleftrightarrow> 48 \<le> code_of c \<and> code_of c \<le> 55"

definition stoull :: "string \<Rightarrow> 64 word res" where
  "stoull s =
     (let (neg, t) = read_sign (dropWhile isspace s);
          (b, ds) = (if take 2 t \<in> {''0x'', ''0X''} \<and> takeWhile isxdigit (drop 2 t) \<noteq> [] then (16, takeWhile isxdigit (drop 2 t))
                     else if take 1 t = ''0'' then (8, takeWhile isoctal t)
                     else (10, takeWhile isdigit t));
          n = digits_val b ds
      in if ds = [] then Throw (InvalidArgument ''stoull'')
         else if 2 ^ 64 \<le> n then Throw (OutOfRange ''stoull'')
         else Ok (if neg then - of_nat n else of_nat n))"

section \<open>Global options\<close>

record Globals =
  gl_pipe :: "string option"
  gl_use_tcp :: bool
  gl_tcp_host :: string
  gl_tcp_port :: int
  gl_session_id :: string
  gl_args :: "string list"

definition new_globals :: Globals where
  "new_globals = \<lparr>gl_pipe = None, gl_use_tcp = False, gl_tcp_host = ''127.0.0.1'', gl_tcp_port = 1985,
     gl_session_id = [], gl_args = []\<rparr>"

definition tcp_option :: "string \<Rightarrow> Globals \<Rightarrow> Globals res" where
  "tcp_option host_port g =
     (if CHR '':'' \<in> set host_port
      then let host = takeWhile (\<lambda>c. c \<noteq> CHR '':'') host_port in
        rthen (stoi (drop (Suc (length host)) host_port)) (\<lambda>n. Ok (g\<lparr>gl_tcp_host := host, gl_tcp_port := n\<rparr>))
      else Ok (g\<lparr>gl_tcp_host := host_port\<rparr>))"

fun global_args :: "string list \<Rightarrow> Globals \<Rightarrow> Globals res" where
  "global_args [] g = Ok g"
| "global_args [a] g =
     Ok (if a = ''--tcp'' then g\<lparr>gl_use_tcp := True\<rparr> else g\<lparr>gl_args := gl_args g @ [a]\<rparr>)"
| "global_args (a # b # rest) g =
     (if a = ''--pipe'' then global_args rest (g\<lparr>gl_pipe := Some b\<rparr>)
      else if a = ''--tcp'' then rthen (tcp_option b (g\<lparr>gl_use_tcp := True\<rparr>)) (\<lambda>g'. global_args rest g')
      else if a = ''--session-id'' then global_args rest (g\<lparr>gl_session_id := b\<rparr>)
      else global_args (b # rest) (g\<lparr>gl_args := gl_args g @ [a]\<rparr>))"

definition start_params :: "Globals \<Rightarrow> Object" where
  "start_params g = obj_of ((''canonical'', Bool True) #
     (if gl_session_id g = [] then [] else [(''session_id'', Str (gl_session_id g))]))"

section \<open>Commands\<close>

text \<open>What a command comes to: a request, one of the special commands, or the usage text and exit code 2.\<close>

datatype action =
    Usage
  | Discover
  | Watch
  | Save_key string
  | Request string Object

text \<open>
  The parameters a command takes from its arguments. An assignment guarded by \<open>args.size() > i\<close> is one
  that is skipped when the argument is missing; where the command has checked the number before, none is.
\<close>

datatype field = Text | Number | Address | Truth

definition field_value :: "field \<Rightarrow> string \<Rightarrow> Value res" where
  "field_value f s = (case f of
     Text \<Rightarrow> Ok (Str s)
   | Number \<Rightarrow> rthen (arg_number s) (\<lambda>d. Ok (Num d))
   | Address \<Rightarrow> rthen (stoull s) (\<lambda>w. Ok (num_of_int (uint w)))
   | Truth \<Rightarrow> Ok (Bool (s = ''true'')))"

fun fill :: "(string \<times> field \<times> nat) list \<Rightarrow> string list \<Rightarrow> Object \<Rightarrow> Object res" where
  "fill [] args params = Ok params"
| "fill ((k, f, i) # fs) args params =
     (if i < length args then rthen (field_value f (args ! i)) (\<lambda>v. fill fs args (om_set k v params))
      else fill fs args params)"

definition plain :: "nat \<Rightarrow> (string \<times> field \<times> nat) list \<Rightarrow> string \<Rightarrow> string list \<Rightarrow> Object \<Rightarrow> action res" where
  "plain n fs method args params =
     (if length args < n then Ok Usage
      else rthen (fill fs args params) (\<lambda>p. Ok (Request method p)))"

text \<open>\<open>get_snapshot\<close> in its loop.\<close>

fun get_snapshot :: "string list \<Rightarrow> Object \<Rightarrow> Object" where
  "get_snapshot (a # b # rest) params =
     (if a = ''--snapshot'' then get_snapshot rest (om_set ''snapshot_id'' (Str b) params)
      else get_snapshot (b # rest) params)"
| "get_snapshot rest params = params"

text \<open>The same after \<open>n - 1\<close> arguments of the command.\<close>

definition on_snapshot :: "nat \<Rightarrow> (string \<times> field \<times> nat) list \<Rightarrow> string \<Rightarrow> string list \<Rightarrow> Object \<Rightarrow> action res" where
  "on_snapshot n fs method args params =
     (if length args < n then Ok Usage
      else rthen (fill fs args params) (\<lambda>p. Ok (Request method (get_snapshot (drop n args) p))))"

definition cmd_tree :: "string list \<Rightarrow> Object \<Rightarrow> action res" where
  "cmd_tree args params =
     (if 2 \<le> length args \<and> prefix ''0x'' (args ! 1) then on_snapshot 2 [(''hwnd'', Text, 1)] ''window.getTree'' args params
      else on_snapshot 1 [] ''window.getTree'' args params)"

text \<open>\<open>--wait-ms\<close> is looked for among all arguments of the process.\<close>

fun wait_ms_args :: "string list \<Rightarrow> Object \<Rightarrow> Object res" where
  "wait_ms_args (a # b # rest) params =
     (if a = ''--wait-ms'' then rthen (arg_number b) (\<lambda>d. wait_ms_args (b # rest) (om_set ''wait_ms'' (Num d) params))
      else wait_ms_args (b # rest) params)"
| "wait_ms_args rest params = Ok params"

definition cmd_events_poll :: "string list \<Rightarrow> string list \<Rightarrow> Object \<Rightarrow> action res" where
  "cmd_events_poll argv args params =
     (if length args < 2 then Ok Usage
      else let p1 = om_set ''snapshot_id'' (Str (args ! 1)) params;
               p2 = (if 2 < length args \<and> \<not> prefix ''0x'' (args ! 2) \<and> \<not> sublist ''--'' (args ! 2)
                     then om_set ''old_snapshot_id'' (Str (args ! 2)) p1 else p1)
           in rthen (wait_ms_args argv p2) (\<lambda>p. Ok (Request ''events.poll'' p)))"

fun update_args :: "string list \<Rightarrow> Object \<Rightarrow> Object" where
  "update_args (a # b # rest) params =
     (if a = ''--url'' then update_args rest (om_set ''url'' (Str b) params)
      else if a = ''--type'' then update_args rest (om_set ''type'' (Str b) params)
      else update_args (b # rest) params)"
| "update_args rest params = params"

definition cmd_update :: "string list \<Rightarrow> Object \<Rightarrow> action res" where
  "cmd_update args params = Ok (Request ''daemon.downloadUpdate'' (update_args (tl args) params))"

definition cmd_config :: "string list \<Rightarrow> Object \<Rightarrow> action res" where
  "cmd_config args params =
     (if 3 \<le> length args \<and> args ! 1 = ''--key'' then Ok (Save_key (args ! 2)) else Ok Usage)"

abbreviation rect_fields :: "(string \<times> field \<times> nat) list" where
  "rect_fields \<equiv> [(''left'', Number, 1), (''top'', Number, 2), (''right'', Number, 3), (''bottom'', Number, 4)]"

text \<open>The commands in the order of the source, the second \<open>capture\<close> included; the first entry of a name counts.\<close>

definition window_commands :: "(string \<times> (string list \<Rightarrow> Object \<Rightarrow> action res)) list" where
  "window_commands =
     [(''discover'', \<lambda>args params. Ok Discover),
      (''capture'', plain 1 [] ''snapshot.capture''),
      (''top'', on_snapshot 1 [] ''window.listTop''),
      (''info'', on_snapshot 2 [(''hwnd'', Text, 1)] ''window.getInfo''),
      (''children'', on_snapshot 2 [(''hwnd'', Text, 1)] ''window.listChildren''),
      (''tree'', cmd_tree),
      (''highlight'', plain 2 [(''hwnd'', Text, 1)] ''window.highlight''),
      (''pick'', on_snapshot 3 [(''x'', Number, 1), (''y'', Number, 2)] ''window.pickAtPoint''),
      (''set-prop'', plain 4 [(''hwnd'', Text, 1), (''name'', Text, 2), (''value'', Text, 3)] ''window.setProperty''),
      (''control-click'', plain 4 [(''hwnd'', Text, 1), (''x'', Number, 2), (''y'', Number, 3), (''button'', Number, 4)]
         ''window.controlClick''),
      (''control-send'', plain 3 [(''hwnd'', Text, 1), (''text'', Text, 2)] ''window.controlSend''),
      (''get-pixel'', plain 3 [(''x'', Number, 1), (''y'', Number, 2)] ''screen.getPixel''),
      (''pixel-search'', plain 8 (rect_fields @ [(''r'', Number, 5), (''g'', Number, 6), (''b'', Number, 7), (''variation'', Number, 8)])
         ''screen.pixelSearch''),
      (''capture'', plain 5 rect_fields ''screen.capture'')]"

definition system_commands :: "(string \<times> (string list \<Rightarrow> Object \<Rightarrow> action res)) list" where
  "system_commands =
     [(''ps'', plain 1 [] ''process.list''),
      (''kill'', plain 2 [(''pid'', Number, 1)] ''process.kill''),
      (''file-info'', plain 2 [(''path'', Text, 1)] ''file.getInfo''),
      (''file-read'', plain 2 [(''path'', Text, 1)] ''file.read''),
      (''find-regex'', plain 1 [(''title_regex'', Text, 1), (''class_regex'', Text, 2)] ''window.findRegex''),
      (''reg-read'', plain 2 [(''path'', Text, 1)] ''reg.read''),
      (''reg-write'', plain 5 [(''path'', Text, 1), (''name'', Text, 2), (''type'', Text, 3), (''data'', Text, 4)] ''reg.write''),
      (''reg-delete'', plain 2 [(''path'', Text, 1), (''name'', Text, 2)] ''reg.delete''),
      (''clip-read'', plain 1 [] ''clipboard.read''),
      (''clip-write'', plain 2 [(''text'', Text, 1)] ''clipboard.write''),
      (''svc-list'', plain 1 [] ''service.list''),
      (''svc-status'', plain 2 [(''name'', Text, 1)] ''service.status''),
      (''svc-control'', plain 3 [(''name'', Text, 1), (''action'', Text, 2)] ''service.control''),
      (''env-get'', plain 1 [] ''env.get''),
      (''env-set'', plain 3 [(''name'', Text, 1), (''value'', Text, 2)] ''env.set''),
      (''wine-drives'', plain 1 [] ''wine.drives''),
      (''wine-overrides'', plain 1 [] ''wine.overrides''),
      (''mutex-check'', plain 2 [(''name'', Text, 1)] ''sync.checkMutex''),
      (''mutex-create'', plain 2 [(''name'', Text, 1), (''own'', Truth, 2)] ''sync.createMutex''),
      (''mem-read'', plain 4 [(''pid'', Number, 1), (''address'', Address, 2), (''size'', Number, 3)] ''mem.read''),
      (''mem-write'', plain 4 [(''pid'', Number, 1), (''address'', Address, 2), (''data_b64'', Text, 3)] ''mem.write''),
      (''image-match'', plain 6 (rect_fields @ [(''sub_image_b64'', Text, 5)]) ''image.match''),
      (''input-hook'', plain 2 [(''enabled'', Truth, 1)] ''input.hook'')]"

definition daemon_commands :: "string list \<Rightarrow> (string \<times> (string list \<Rightarrow> Object \<Rightarrow> action res)) list" where
  "daemon_commands argv =
     [(''events-poll'', cmd_events_poll argv),
      (''events-subscribe'', plain 1 [] ''events.subscribe''),
      (''events-unsubscribe'', plain 1 [] ''events.unsubscribe''),
      (''watch'', \<lambda>args params. Ok Watch),
      (''status'', plain 1 [] ''daemon.status''),
      (''ensure-visible'', plain 3 [(''hwnd'', Text, 1), (''visible'', Truth, 2)] ''window.ensureVisible''),
      (''ensure-foreground'', plain 2 [(''hwnd'', Text, 1)] ''window.ensureForeground''),
      (''post-message'', plain 3 [(''hwnd'', Text, 1), (''msg'', Number, 2), (''wparam'', Number, 3), (''lparam'', Number, 4)]
         ''window.postMessage''),
      (''send-input'', plain 2 [(''data_b64'', Text, 1)] ''input.send''),
      (''ui-inspect'', plain 2 [(''hwnd'', Text, 1)] ''ui.inspect''),
      (''ui-invoke'', plain 3 [(''hwnd'', Text, 1), (''automation_id'', Text, 2)] ''ui.invoke''),
      (''health'', plain 1 [] ''daemon.health''),
      (''capabilities'', plain 1 [] ''daemon.capabilities''),
      (''check-update'', plain 1 [] ''daemon.checkUpdate''),
      (''update'', cmd_update),
      (''config'', cmd_config)]"

definition commands :: "string list \<Rightarrow> (string \<times> (string list \<Rightarrow> Object \<Rightarrow> action res)) list" where
  "commands argv = window_commands @ system_commands @ daemon_commands argv"

lemmas commands_table = commands_def window_commands_def system_commands_def daemon_commands_def append.simps

text \<open>The text of \<open>usage\<close>, line by line; the first two are headings.\<close>

definition usage_lines :: "string list" where
  "usage_lines =
     [''Usage: wininspect <command> [args] [--tcp host:port] [--pipe name]'',
      ''Commands:'',
      ''  discover'',
      ''  capture'',
      ''  top [--snapshot s-..]'',
      ''  info <hwnd> [--snapshot s-..]'',
      ''  children <hwnd> [--snapshot s-..]'',
      ''  tree [hwnd] [--snapshot s-..]'',
      ''  pick <x> <y> [--snapshot s-..]'',
      ''  highlight <hwnd>'',
      ''  set-prop <hwnd> <name> <value>'',
      ''  control-click <hwnd> <x> <y> [button]'',
      ''  control-send <hwnd> <text>'',
      ''  get-pixel <x> <y>'',
      ''  pixel-search <left> <top> <right> <bottom> <r> <g> <b> [variation]'',
      ''  capture <left> <top> <right> <bottom>'',
      ''  ps'',
      ''  kill <pid>'',
      ''  file-info <path>'',
      ''  file-read <path>'',
      ''  find-regex [title_regex] [class_regex]'',
      ''  reg-read <path>'',
      ''  reg-write <path> <name> <type> <data>'',
      ''  reg-delete <path> [name]'',
      ''  clip-read'',
      ''  clip-write <text>'',
      ''  svc-list'',
      ''  svc-status <name>'',
      ''  svc-control <name> <start|stop>'',
      ''  env-get'',
      ''  env-set <name> <value>'',
      ''  wine-drives'',
      ''  wine-overrides'',
      ''  mutex-check <name>'',
      ''  mutex-create <name> [own]'',
      ''  mem-read <pid> <address> <size>'',
      ''  mem-write <pid> <address> <base64_data>'',
      ''  image-match <left> <top> <right> <bottom> <base64_bmp>'',
      ''  input-hook <true|false>'',
      ''  events-poll <new_snap_id> [old_snap_id] [--wait-ms ms]'',
      ''  events-subscribe'',
      ''  events-unsubscribe'',
      ''  watch'',
      ''  status'',
      ''  ensure-visible <hwnd> <true|false>'',
      ''  ensure-foreground <hwnd>'',
      ''  post-message <hwnd> <msg> [wparam] [lparam]'',
      ''  send-input <base64_data>'',
      ''  ui-inspect <hwnd>'',
      ''  ui-invoke <hwnd> <automation_id>'',
      ''  health'',
      ''  capabilities'',
      ''  check-update'',
      ''  update [--type portable|installer]'',
      ''  config --key <path>'']"

definition cli_action :: "string list \<Rightarrow> (Globals \<times> action) res" where
  "cli_action argv =
     (if argv = [] then Ok (new_globals, Usage)
      else rthen (global_args argv new_globals) (\<lambda>g.
        case gl_args g of [] \<Rightarrow> Ok (g, Usage)
        | cmd # _ \<Rightarrow> (case map_of (commands argv) cmd of
              None \<Rightarrow> Ok (g, Usage)
            | Some f \<Rightarrow> rthen (f (gl_args g) (start_params g)) (\<lambda>a. Ok (g, a)))))"

section \<open>The key file\<close>

text \<open>\<open>env\<close> is the environment of the process.\<close>

definition get_config_path :: "(string \<Rightarrow> string option) \<Rightarrow> string" where
  "get_config_path env =
     (case env ''USERPROFILE'' of Some home \<Rightarrow> home @ ''/.wininspect_config''
      | None \<Rightarrow> (case env ''HOME'' of Some home \<Rightarrow> home @ ''/.wininspect_config'' | None \<Rightarrow> ''.wininspect_config''))"

definition save_key_path :: "(string \<Rightarrow> string option) \<Rightarrow> string \<Rightarrow> (string \<Rightarrow> string option) \<Rightarrow> (string \<Rightarrow> string option)" where
  "save_key_path env path files = files(get_config_path env \<mapsto> path)"

definition load_key_path :: "(string \<Rightarrow> string option) \<Rightarrow> (string \<Rightarrow> string option) \<Rightarrow> string" where
  "load_key_path env files =
     (case files (get_config_path env) of None \<Rightarrow> []
      | Some s \<Rightarrow> takeWhile (\<lambda>c. c \<noteq> CHR 0x0A) s)"

section \<open>A connection\<close>

text \<open>
  The authentication of a TCP connection; it returns what was sent, the verdict, and the input that is left.
  \<open>at\<close> throws, and nothing catches it, where a member is missing.
\<close>

definition auth_reply :: "string \<Rightarrow> string \<Rightarrow> Object" where
  "auth_reply nonce_b64 key_path = obj_of [(''version'', Str PROTOCOL_VERSION), (''identity'', Str ''wininspect-user''),
     (''signature'', Str (sign_ssh_msg (decode nonce_b64) key_path))]"

definition auth_accepted :: "string \<Rightarrow> bool res" where
  "auth_accepted status_json = rthen (parse status_json) (\<lambda>sv. case sv of
     Obj m \<Rightarrow> rthen (rthen (obj_at m ''type'') as_str) (\<lambda>t.
       if t = ''auth_status'' then rthen (obj_at m ''ok'') as_bool else Ok False)
   | _ \<Rightarrow> Ok False)"

text \<open>The nonce of a challenge; none where the daemon asks for nothing.\<close>

definition asked_nonce :: "string \<Rightarrow> string option res" where
  "asked_nonce challenge_json = rthen (parse challenge_json) (\<lambda>v. case v of
     Obj m \<Rightarrow> rthen (rthen (obj_at m ''type'') as_str) (\<lambda>t.
       if t = ''hello'' then rthen (rthen (obj_at m ''nonce'') as_str) (\<lambda>n. Ok (Some n)) else Ok None)
   | _ \<Rightarrow> Ok None)"

definition perform_auth :: "string \<Rightarrow> nat list \<Rightarrow> string list \<Rightarrow> (string \<times> bool \<times> string list) res" where
  "perform_auth key_path sizes pieces =
     rthen (conn_recv True pieces) (\<lambda>r. case r of None \<Rightarrow> Ok ([], False, [])
     | Some (challenge_json, rest) \<Rightarrow>
         rthen (asked_nonce challenge_json) (\<lambda>nonce. case nonce of None \<Rightarrow> Ok ([], True, rest)
         | Some nonce_b64 \<Rightarrow>
             (if key_path = [] \<or> sign_ssh_msg (decode nonce_b64) key_path = [] then Ok ([], False, rest)
              else let (out, ok) = conn_send True sizes (dumps (Obj (auth_reply nonce_b64 key_path))) in
                if \<not> ok then Ok (out, False, rest)
                else rthen (conn_recv True rest) (\<lambda>r2. case r2 of None \<Rightarrow> Ok (out, False, [])
                  | Some (status_json, rest2) \<Rightarrow> rthen (auth_accepted status_json) (\<lambda>b. Ok (out, b, rest2))))))"

text \<open>
  The handles of a connection: what the system opens is an argument, what has been closed is recorded. The
  verdict of the authentication may be an exception, which leaves the socket open.
\<close>

record Link =
  ln_tcp :: bool
  ln_pipe :: "nat option"
  ln_sock :: "nat option"
  ln_closed :: "nat list"

definition new_link :: Link where
  "new_link = \<lparr>ln_tcp = False, ln_pipe = None, ln_sock = None, ln_closed = []\<rparr>"

definition conn_close :: "Link \<Rightarrow> Link" where
  "conn_close l =
     (if ln_tcp l then case ln_sock l of None \<Rightarrow> l | Some h \<Rightarrow> l\<lparr>ln_closed := ln_closed l @ [h], ln_sock := None\<rparr>
      else case ln_pipe l of None \<Rightarrow> l | Some h \<Rightarrow> l\<lparr>ln_closed := ln_closed l @ [h], ln_pipe := None\<rparr>)"

definition connect_daemon :: "bool \<Rightarrow> bool \<Rightarrow> nat option \<Rightarrow> bool \<Rightarrow> bool res \<Rightarrow> (Link, bool) comp" where
  "connect_daemon tcp wsa opened ready auth = (\<lambda>l.
     if tcp then
       if \<not> wsa then (Ok False, l)
       else (case opened of None \<Rightarrow> (Ok False, l)
         | Some s \<Rightarrow> let l1 = l\<lparr>ln_sock := Some s\<rparr> in
             if \<not> ready then (Ok False, l1\<lparr>ln_closed := ln_closed l1 @ [s]\<rparr>)
             else let l2 = l1\<lparr>ln_tcp := True\<rparr> in
               (case auth of Ok True \<Rightarrow> (Ok True, l2) | Ok False \<Rightarrow> (Ok False, conn_close l2)
                | Throw e \<Rightarrow> (Throw e, l2) | Stuck \<Rightarrow> (Stuck, l2)))
     else (case opened of None \<Rightarrow> (Ok False, l) | Some h \<Rightarrow> (Ok True, l\<lparr>ln_pipe := Some h, ln_tcp := False\<rparr>)))"

text \<open>
  \<open>send_and_print\<close> closes a connection it got on every path, and gets none that is still open otherwise: what
  was opened is closed once.
\<close>

lemma connection_closed:
  assumes "connect_daemon tcp wsa opened ready auth new_link = (Ok ok, l)"
  shows "ln_closed (if ok then conn_close l else l) = (if tcp \<and> \<not> wsa then [] else case opened of None \<Rightarrow> [] | Some h \<Rightarrow> [h])"
  using assms by (auto simp: connect_daemon_def conn_close_def new_link_def Let_def split: if_splits option.splits res.splits bool.splits)

text \<open>
  \<open>send_and_print\<close> on an open connection: what is written, what is printed, the exit code. Over TCP the
  authentication comes first.
\<close>

definition send_and_print ::
  "bool \<Rightarrow> string \<Rightarrow> nat list \<Rightarrow> string list \<Rightarrow> string \<Rightarrow> Object \<Rightarrow> (string \<times> string \<times> nat) res" where
  "send_and_print tcp key_path sizes pieces method params =
     rthen (if tcp then perform_auth key_path sizes pieces else Ok ([], True, pieces)) (\<lambda>(pre, ok, rest).
       if \<not> ok then Ok (pre, [], 1)
       else let (out, sent) = conn_send tcp (if pre = [] then sizes else drop 2 sizes) (make_req ''cli-1'' method params) in
         if \<not> sent then Ok (pre @ out, [], 1)
         else rthen (conn_recv tcp rest) (\<lambda>r. case r of None \<Rightarrow> Ok (pre @ out, [], 1)
           | Some (resp, _) \<Rightarrow> Ok (pre @ out, resp @ [CHR 0x0A], 0)))"

section \<open>Commands of their own\<close>

text \<open>
  \<open>discover\<close>: its options, and one line for each datagram that fits the buffer, printed up to its first
  zero byte.
\<close>

definition discover_options :: "string list \<Rightarrow> (int \<times> int) res" where
  "discover_options argv = scan_args [int_option ''--discovery-port'' (\<lambda>n (port, ms). (n, ms)),
     int_option ''--discovery-timeout'' (\<lambda>n (port, ms). (port, n))] argv (1986, 2000)"

definition discover_line :: "string \<times> string \<Rightarrow> string" where
  "discover_line d = (case d of (ip, data) \<Rightarrow>
     if data = [] \<or> 1023 < length data then []
     else ''['' @ ip @ ''] '' @ takeWhile (\<lambda>c. c \<noteq> CHR 0x00) data @ [CHR 0x0A])"

definition discover_output :: "int \<Rightarrow> (string \<times> string) list \<Rightarrow> string" where
  "discover_output port datagrams = ''Scanning for WinInspect daemons on port '' @ to_string_int port @ ''...'' @ [CHR 0x0A] @
     concat (map discover_line datagrams)"

text \<open>
  \<open>watch\<close>: the requests of the first \<open>n\<close> rounds, and what is printed for what is received; the loop never
  ends by itself, a lost connection included.
\<close>

definition watch_requests :: "Object \<Rightarrow> nat \<Rightarrow> string list" where
  "watch_requests params n = make_req ''w-0'' ''events.poll'' params # replicate n (make_req ''w-1'' ''events.poll'' params)"

definition watch_output :: "string option list \<Rightarrow> string" where
  "watch_output received = ''Watching for window events... (Ctrl+C to stop)'' @ [CHR 0x0A] @
     concat (map (\<lambda>r. case r of None \<Rightarrow> [] | Some resp \<Rightarrow> resp @ [CHR 0x0A]) (tl received))"

end
