(* ===== verification/Cli_Properties.thy ===== *)
theory Cli_Properties
  imports Cli_Main Daemon_Contract
begin

text \<open>
  The command line client against the daemon: the methods it asks for, the parameters it sends, one request
  over the pipe from the arguments to the printed line, and its attempts to authenticate over TCP.
\<close>

section \<open>The parameters of a request\<close>

lemma stod_hex_wf: "stod_hex neg t = Ok d \<Longrightarrow> wf_double d"
  by (auto simp: stod_hex_def wf_double_def rnd64_nonneg rnd64_idem zero_le_mult_iff not_le
      zero_le_power_int Let_def split: prod.splits if_splits)

lemma arg_number_wf: "arg_number s = Ok d \<Longrightarrow> wf_double d"
  by (auto simp: arg_number_def intro: stod_wf stod_hex_wf split: prod.splits if_splits)

text \<open>The type the handlers of the daemon read a parameter at.\<close>

definition number_params :: "string set" where
  "number_params = {''x'', ''y'', ''button'', ''left'', ''top'', ''right'', ''bottom'', ''r'', ''g'', ''b'', ''variation'',
     ''pid'', ''address'', ''size'', ''msg'', ''wparam'', ''lparam'', ''wait_ms''}"

definition bool_params :: "string set" where
  "bool_params = {''canonical'', ''own'', ''enabled'', ''visible''}"

definition well_typed :: "string \<times> Value \<Rightarrow> bool" where
  "well_typed e \<longleftrightarrow> (case e of (k, v) \<Rightarrow>
     if k \<in> number_params then \<exists>d. v = Num d \<and> wf_double d
     else if k \<in> bool_params then \<exists>b. v = Bool b
     else \<exists>s. v = Str s)"

definition typed_params :: "Object \<Rightarrow> bool" where
  "typed_params p \<longleftrightarrow> om_wf p \<and> list_all well_typed p"

definition field_fits :: "string \<times> field \<times> nat \<Rightarrow> bool" where
  "field_fits e \<longleftrightarrow> (case e of (k, f, i) \<Rightarrow>
     if k \<in> number_params then f = Number \<or> f = Address else if k \<in> bool_params then f = Truth else f = Text)"

lemma well_typed_simps [simp]:
  "well_typed (k, Str s) \<longleftrightarrow> k \<notin> number_params \<and> k \<notin> bool_params"
  "well_typed (k, Bool b) \<longleftrightarrow> k \<notin> number_params \<and> k \<in> bool_params"
  "well_typed (k, Num d) \<longleftrightarrow> k \<in> number_params \<and> wf_double d"
  by (simp_all add: well_typed_def)

lemma typed_set: "typed_params p \<Longrightarrow> well_typed (k, v) \<Longrightarrow> typed_params (om_set k v p)"
  using set_om_set[of k v p] by (auto simp: typed_params_def om_wf_set list_all_iff)

lemma typed_text: "typed_params p \<Longrightarrow> k \<notin> number_params \<Longrightarrow> k \<notin> bool_params \<Longrightarrow> typed_params (om_set k (Str s) p)"
  by (rule typed_set) simp_all

lemma text_keys [simp]:
  "''snapshot_id'' \<notin> number_params" "''snapshot_id'' \<notin> bool_params" "''url'' \<notin> number_params" "''url'' \<notin> bool_params"
  "''type'' \<notin> number_params" "''type'' \<notin> bool_params" "''old_snapshot_id'' \<notin> number_params"
  "''old_snapshot_id'' \<notin> bool_params" "''session_id'' \<notin> number_params" "''session_id'' \<notin> bool_params"
  "''wait_ms'' \<in> number_params" "''canonical'' \<notin> number_params" "''canonical'' \<in> bool_params"
  by (simp_all add: number_params_def bool_params_def)

lemma field_value_typed:
  assumes "field_value f s = Ok v" "field_fits (k, f, i)"
  shows "well_typed (k, v)"
proof -
  have "wf_double (double_of_int (uint w))" for w :: "64 word"
    using wf_double_of_int[of "uint w"] uint_lt2p[of w] by simp
  then show ?thesis using assms
    by (cases f) (auto simp: field_value_def field_fits_def rthen_eq_Ok arg_number_wf split: if_splits)
qed

lemma typed_fill: "fill fs args p = Ok p' \<Longrightarrow> list_all field_fits fs \<Longrightarrow> typed_params p \<Longrightarrow> typed_params p'"
proof (induction fs args p rule: fill.induct)
  case (2 k f i fs args params)
  show ?case
  proof (cases "i < length args")
    case True
    with 2(3) obtain v where v: "field_value f (args ! i) = Ok v" "fill fs args (om_set k v params) = Ok p'"
      by (auto simp: rthen_eq_Ok)
    have "typed_params (om_set k v params)"
      using 2(4,5) field_value_typed[OF v(1), of k i] typed_set by simp
    then show ?thesis using 2(1)[OF True _ v(2)] 2(4) v(1) by simp
  qed (use 2 in simp)
qed simp

lemma typed_snapshot: "typed_params p \<Longrightarrow> typed_params (get_snapshot args p)"
  by (induction args p rule: get_snapshot.induct) (simp_all add: typed_text)

lemma typed_update: "typed_params p \<Longrightarrow> typed_params (update_args args p)"
  by (induction args p rule: update_args.induct) (simp_all add: typed_text)

lemma typed_wait: "wait_ms_args args p = Ok p' \<Longrightarrow> typed_params p \<Longrightarrow> typed_params p'"
  by (induction args p rule: wait_ms_args.induct)
    (auto simp: rthen_eq_Ok arg_number_wf typed_set split: if_splits)

lemma typed_start: "typed_params (start_params g)"
  by (simp add: start_params_def obj_of_def typed_params_def om_wf_def)

text \<open>What every command of the table does with typed parameters.\<close>

definition typed_command :: "(string list \<Rightarrow> Object \<Rightarrow> action res) \<Rightarrow> string \<Rightarrow> bool" where
  "typed_command f method \<longleftrightarrow> (\<forall>args p m p'. f args p = Ok (Request m p') \<longrightarrow> typed_params p \<longrightarrow> m = method \<and> typed_params p')"

lemma typed_plain: "list_all field_fits fs \<Longrightarrow> typed_command (plain n fs method) method"
  by (auto simp: typed_command_def plain_def rthen_eq_Ok dest: typed_fill split: if_splits)

lemma typed_on_snapshot: "list_all field_fits fs \<Longrightarrow> typed_command (on_snapshot n fs method) method"
  by (auto simp: typed_command_def on_snapshot_def rthen_eq_Ok dest: typed_fill intro: typed_snapshot split: if_splits)

lemma typed_tree: "typed_command cmd_tree ''window.getTree''"
proof -
  have "list_all field_fits [(''hwnd'', Text, 1)]" by (simp add: field_fits_def number_params_def bool_params_def)
  then show ?thesis
    using typed_on_snapshot[of "[(''hwnd'', Text, 1)]" 2 "''window.getTree''"] typed_on_snapshot[of "[]" 1 "''window.getTree''"]
    by (auto simp: typed_command_def cmd_tree_def split: if_splits)
qed

lemma typed_poll: "typed_command (cmd_events_poll argv) ''events.poll''"
  by (auto simp: typed_command_def cmd_events_poll_def rthen_eq_Ok Let_def split: if_splits
      elim!: typed_wait intro!: typed_text)

lemma typed_others:
  "typed_command cmd_update ''daemon.downloadUpdate''" "typed_command cmd_config method"
  "typed_command (\<lambda>args params. Ok Discover) method" "typed_command (\<lambda>args params. Ok Watch) method"
  by (auto simp: typed_command_def cmd_update_def cmd_config_def intro: typed_update split: if_splits)

text \<open>The methods the client can ask for.\<close>

definition cli_methods :: "string list" where
  "cli_methods = [''snapshot.capture'', ''window.listTop'', ''window.getInfo'', ''window.listChildren'', ''window.getTree'',
     ''window.highlight'', ''window.pickAtPoint'', ''window.setProperty'', ''window.controlClick'', ''window.controlSend'',
     ''screen.getPixel'', ''screen.pixelSearch'', ''screen.capture'', ''process.list'', ''process.kill'', ''file.getInfo'',
     ''file.read'', ''window.findRegex'', ''reg.read'', ''reg.write'', ''reg.delete'', ''clipboard.read'',
     ''clipboard.write'', ''service.list'', ''service.status'', ''service.control'', ''env.get'', ''env.set'',
     ''wine.drives'', ''wine.overrides'', ''sync.checkMutex'', ''sync.createMutex'', ''mem.read'', ''mem.write'',
     ''image.match'', ''input.hook'', ''events.poll'', ''events.subscribe'', ''events.unsubscribe'', ''daemon.status'',
     ''window.ensureVisible'', ''window.ensureForeground'', ''window.postMessage'', ''input.send'', ''ui.inspect'',
     ''ui.invoke'', ''daemon.health'', ''daemon.capabilities'', ''daemon.checkUpdate'', ''daemon.downloadUpdate'']"

definition sound_command :: "(string list \<Rightarrow> Object \<Rightarrow> action res) \<Rightarrow> bool" where
  "sound_command f \<longleftrightarrow> (\<exists>method \<in> set cli_methods. typed_command f method)"

lemma soundI: "typed_command f method \<Longrightarrow> method \<in> set cli_methods \<Longrightarrow> sound_command f"
  by (auto simp: sound_command_def)

lemmas sound_intros = soundI[OF typed_plain] soundI[OF typed_on_snapshot] soundI[OF typed_tree] soundI[OF typed_poll]
  soundI[OF typed_others(1)] soundI[OF typed_others(2), of "''env.get''"] soundI[OF typed_others(3), of "''env.get''"]
  soundI[OF typed_others(4), of "''env.get''"]

lemma commands_sound: "list_all (\<lambda>(cmd, f). sound_command f) (commands argv)"
  unfolding commands_table list.pred_inject prod.case
  by (intro conjI sound_intros TrueI) (simp_all add: cli_methods_def field_fits_def number_params_def bool_params_def)

lemma action_typed:
  assumes "cli_action argv = Ok (g, Request m p)"
  shows "m \<in> set cli_methods \<and> typed_params p"
proof -
  obtain cmd f where f: "(cmd, f) \<in> set (commands argv)" "f (gl_args g) (start_params g) = Ok (Request m p)"
  proof -
    obtain a where a: "(case gl_args a of [] \<Rightarrow> Ok (a, Usage)
        | cmd # _ \<Rightarrow> (case map_of (commands argv) cmd of None \<Rightarrow> Ok (a, Usage)
            | Some f \<Rightarrow> rthen (f (gl_args a) (start_params a)) (\<lambda>x. Ok (a, x)))) = Ok (g, Request m p)"
      using assms unfolding cli_action_def by (auto simp only: rthen_eq_Ok split: if_splits)
    then obtain cmd rest f where "gl_args a = cmd # rest" "map_of (commands argv) cmd = Some f"
      by (cases "gl_args a"; cases "map_of (commands argv) (hd (gl_args a))") auto
    then show ?thesis using that[of cmd f] a map_of_SomeD[of "commands argv" cmd f] by (auto simp: rthen_eq_Ok)
  qed
  have "sound_command f" using commands_sound[of argv] f(1) by (auto simp: list_all_iff)
  then show ?thesis using f(2) typed_start[of g] by (auto simp: sound_command_def typed_command_def)
qed

text \<open>The branches of the two servers that answer without the core.\<close>

definition server_methods :: "string set" where
  "server_methods = {''snapshot.capture'', ''events.subscribe'', ''events.unsubscribe''}"

lemma cli_methods_served: "m \<in> set cli_methods \<Longrightarrow> m = ''daemon.status'' \<or> m \<in> server_methods \<or>
  m \<in> set (map fst (dispatch_table B eng logs))"
proof -
  have "set cli_methods - {''daemon.status''} - server_methods \<subseteq> set (map fst (dispatch_table fake_backend sample_engine []))"
    by code_simp
  then show "m \<in> set cli_methods \<Longrightarrow> ?thesis" using dispatch_names[of B eng logs fake_backend sample_engine "[]"] by auto
qed

text \<open>C11: the requests of the command line client. Whatever the arguments, a request it makes names a method the daemon serves,
  the command \<open>status\<close> excepted, and gives every parameter the type the daemon reads it at.\<close>

theorem cli_requests_typed:
  assumes "cli_action argv = Ok (g, Request m p)"
  shows "(m = ''daemon.status'' \<or> m \<in> server_methods \<or> m \<in> set (map fst (dispatch_table B eng logs))) \<and> typed_params p"
  using action_typed[OF assms] cli_methods_served by blast

theorem cli_requests_typed_witness:
  "cli_action [''--session-id'', ''a'', ''info'', ''0x10''] = Ok (new_globals\<lparr>gl_session_id := ''a'', gl_args := [''info'', ''0x10'']\<rparr>,
     Request ''window.getInfo'' [(''canonical'', Bool True), (''hwnd'', Str ''0x10''), (''session_id'', Str ''a'')]) \<and>
   typed_params [(''canonical'', Bool True), (''hwnd'', Str ''0x10''), (''session_id'', Str ''a'')]"
proof -
  have "cli_action [''--session-id'', ''a'', ''info'', ''0x10''] = Ok (new_globals\<lparr>gl_session_id := ''a'', gl_args := [''info'', ''0x10'']\<rparr>,
     Request ''window.getInfo'' [(''canonical'', Bool True), (''hwnd'', Str ''0x10''), (''session_id'', Str ''a'')])"
    by code_simp
  from this cli_requests_typed[OF this, of fake_backend sample_engine "[]"] show ?thesis by simp
qed

section \<open>One request over the pipe\<close>

lemma typed_wire: "typed_params p \<Longrightarrow> integral_value (Obj p) \<Longrightarrow> wire_value (Obj p)"
  by (auto simp: typed_params_def wire_value_def list_all_iff well_typed_def split: if_splits)

lemma conn_send_whole:
  assumes "4 \<le> w1" "length m \<le> w2" "length m < 2 ^ 31" "m \<noteq> []"
  shows "conn_send tcp (w1 # w2 # ws) m = (frame m, True)"
proof -
  have "take w1 (le32 (length m)) = le32 (length m)" using assms(1) by (simp add: length_le32)
  moreover have "0 < w2" using assms(2,4) by (cases m) auto
  ultimately show ?thesis using assms by (auto simp: conn_send_def frame_def Let_def)
qed

lemma conn_recv_whole:
  assumes "length m < 2 ^ 31" "m \<noteq> []"
  shows "conn_recv tcp (frame m # ps) = Ok (Some (m, ps))"
  using assms by (simp add: conn_recv_def frame_def os_read_def un_le32_le32 length_le32)

lemma dumps_nonempty [simp]: "dumps (Obj p) \<noteq> []"
  using dump_aggregates(2)[of p] by (simp add: dumps_def del: dump.simps)

lemma make_req_nonempty [simp]: "make_req i m p \<noteq> []"
  by (simp add: make_req_def)


section \<open>Authentication\<close>

lemma stub_short: "length (decode (sign_ssh_msg msg key_path)) < 64"
proof -
  have "length (decode ''SSHSIG_STUB_REPLACE_WITH_REAL_SIGNING'') = 4" by code_simp
  then show ?thesis by (simp add: sign_ssh_msg_def)
qed

lemma wire_challenge: "wire_value (Obj (challenge auth_keys nonce pk))"
  unfolding challenge_def by (intro wire_obj_of) auto

lemma asked_by_daemon:
  "asked_nonce (dumps (Obj (challenge auth_keys nonce pk))) =
     (if auth_keys = [] then Throw bad_at else Ok (Some (encode nonce)))"
  by (simp add: asked_nonce_def wire_round_trip[OF wire_challenge])
    (simp add: challenge_def obj_at_def as_str_def)

lemma reply_refused: "check_reply C auth_keys nonce (dumps (Obj (auth_reply nonce_b64 key_path))) cs = None"
proof -
  have "wire_value (Obj (auth_reply nonce_b64 key_path))" unfolding auth_reply_def by (intro wire_obj_of) auto
  then have "parse (dumps (Obj (auth_reply nonce_b64 key_path))) = Ok (Obj (auth_reply nonce_b64 key_path))" by (rule wire_round_trip)
  moreover have "get_str (auth_reply nonce_b64 key_path) ''signature'' = Some (sign_ssh_msg (decode nonce_b64) key_path)"
    by (simp add: auth_reply_def get_str_def)
  ultimately have "check_reply C auth_keys nonce (dumps (Obj (auth_reply nonce_b64 key_path))) cs \<noteq> Some cs'" for cs'
    unfolding check_reply_iff using stub_short[of "decode nonce_b64" key_path] by (auto simp: signed_by_def)
  then show ?thesis by (cases "check_reply C auth_keys nonce (dumps (Obj (auth_reply nonce_b64 key_path))) cs") auto
qed

lemma auth_reply_length: "length (dumps (Obj (auth_reply nonce_b64 key_path))) < 2 ^ 31"
proof -
  have "length (dumps (Obj (auth_reply [] []))) < 1000" by code_simp
  then show ?thesis by (simp add: auth_reply_def sign_ssh_msg_def)
qed

lemma reply_read_back:
  assumes "[] \<notin> set pieces" "concat pieces = frame (dumps (Obj (auth_reply nonce_b64 key_path)))"
  shows "\<exists>pieces'. socket_read_reply pieces = Some (dumps (Obj (auth_reply nonce_b64 key_path)), pieces')"
  using socket_read_frame[OF assms(1) _ auth_reply_length, of nonce_b64 key_path "[]"] assms(2) by auto

text \<open>C36: the command line client cannot use TCP. Against a daemon without keys it ends with an exception, because the greeting has no
  nonce; against a daemon with keys it answers with a signature the daemon always refuses, so the daemon
  closes the connection and the client gives up.\<close>

theorem cli_never_connects:
  fixes C auth_keys nonce
  defines "hello \<equiv> dumps (Obj (challenge auth_keys nonce (fst (generate_local_key C new_crypto))))"
  assumes "length hello < 2 ^ 31"
  shows "(auth_keys = [] \<longrightarrow> perform_auth key_path sizes (frame hello # ps) = Throw bad_at) \<and>
    (auth_keys \<noteq> [] \<longrightarrow> (\<forall>out ok rest. perform_auth key_path sizes [frame hello] = Ok (out, ok, rest) \<longrightarrow> \<not> ok)) \<and>
    (auth_keys \<noteq> [] \<longrightarrow> (\<forall>pieces. [] \<notin> set pieces \<and> concat pieces = frame (dumps (Obj (auth_reply (encode nonce) key_path))) \<longrightarrow>
       snd (handshake C auth_keys nonce dsizes pieces) = None))"
proof -
  have ne: "hello \<noteq> []" by (simp add: hello_def)
  have recv: "conn_recv True (frame hello # ps) = Ok (Some (hello, ps))" for ps
    using assms(2) ne by (rule conn_recv_whole)
  have ask: "asked_nonce hello = (if auth_keys = [] then Throw bad_at else Ok (Some (encode nonce)))"
    unfolding hello_def by (rule asked_by_daemon)
  have closed: "conn_recv True [] = Ok None" by (simp add: conn_recv_def os_read_def)
  have refused: "snd (handshake C auth_keys nonce dsizes pieces) = None"
    if "auth_keys \<noteq> []" "[] \<notin> set pieces" "concat pieces = frame (dumps (Obj (auth_reply (encode nonce) key_path)))" for pieces
  proof -
    let ?reply = "dumps (Obj (auth_reply (encode nonce) key_path))"
    have "socket_read_reply pieces = Some (reply, rest) \<Longrightarrow> check_reply C auth_keys nonce reply cs = None" for reply rest cs
      using reply_read_back[OF that(2,3)] reply_refused by auto
    then show ?thesis using that(1)
      by (auto simp: handshake_def case_prod_beta Let_def split: option.splits)
  qed
  have "auth_keys \<noteq> [] \<Longrightarrow> \<exists>out rest. perform_auth key_path sizes [frame hello] = Ok (out, False, rest)"
    by (auto simp: perform_auth_def recv ask case_prod_beta Let_def) (simp add: closed)
  moreover have "auth_keys = [] \<Longrightarrow> perform_auth key_path sizes (frame hello # ps) = Throw bad_at"
    by (simp add: perform_auth_def recv ask)
  ultimately show ?thesis using refused by auto
qed

theorem cli_never_connects_witness:
  "\<not> (\<exists>out rest. perform_auth ''id_ed25519'' [4, 1000] [frame (dumps (Obj (challenge sample_keys zeros32 [1])))] = Ok (out, True, rest)) \<and>
   perform_auth [] [] [frame (dumps (Obj (challenge [] zeros32 [1])))] = Throw bad_at"
proof -
  have start: "fst (generate_local_key plain_cng new_crypto) = [1]"
    by (simp add: generate_local_key_def plain_cng_def)
  have keys: "sample_keys \<noteq> []" by (simp add: sample_keys_def)
  have "length (dumps (Obj (challenge sample_keys zeros32 [1]))) < 1000" "length (dumps (Obj (challenge [] zeros32 [1]))) < 1000"
    by code_simp+
  then show ?thesis
    using cli_never_connects[of sample_keys zeros32 plain_cng "''id_ed25519''" "[4, 1000]" "[]" "[]"] keys
      cli_never_connects[of "[]" zeros32 plain_cng "[]" "[]" "[]" "[]"] unfolding start by fastforce
qed


section \<open>The usage text\<close>

text \<open>The command a line of the usage text is about.\<close>

definition usage_command :: "string \<Rightarrow> string" where
  "usage_command line = takeWhile (\<lambda>c. c \<noteq> CHR '' '') (drop 2 line)"

lemma global_args_none:
  "set args \<inter> {''--pipe'', ''--tcp'', ''--session-id''} = {} \<Longrightarrow> global_args args g = Ok (g\<lparr>gl_args := gl_args g @ args\<rparr>)"
  by (induction args g rule: global_args.induct) auto

lemma usage_names: "set (map usage_command (drop 2 usage_lines)) = set (map fst (commands []))"
  by code_simp

text \<open>The usage text names exactly the commands the client knows. Of the two forms of \<open>capture\<close> it
  documents only one exists: whatever follows, the command asks for a snapshot of the windows.\<close>

theorem usage_names_commands:
  assumes "set rect \<inter> {''--pipe'', ''--tcp'', ''--session-id''} = {}"
  shows "set (map usage_command (drop 2 usage_lines)) = set (map fst (commands argv)) \<and>
   ''  capture <left> <top> <right> <bottom>'' \<in> set usage_lines \<and>
   cli_action (''capture'' # rect) =
     Ok (new_globals\<lparr>gl_args := ''capture'' # rect\<rparr>, Request ''snapshot.capture'' [(''canonical'', Bool True)])"
proof -
  have "map fst (commands argv) = map fst (commands [])" by (simp add: commands_table)
  moreover have "set (''capture'' # rect) \<inter> {''--pipe'', ''--tcp'', ''--session-id''} = {}" using assms by simp
  from global_args_none[OF this, of new_globals]
  have "cli_action (''capture'' # rect) =
     Ok (new_globals\<lparr>gl_args := ''capture'' # rect\<rparr>, Request ''snapshot.capture'' [(''canonical'', Bool True)])"
    by (simp add: cli_action_def new_globals_def commands_def window_commands_def plain_def start_params_def rthen_def obj_of_def)
  moreover have "''  capture <left> <top> <right> <bottom>'' \<in> set usage_lines" by (simp add: usage_lines_def)
  ultimately show ?thesis using usage_names by simp
qed

theorem usage_names_commands_witness:
  "cli_action [''capture'', ''0'', ''0'', ''10'', ''10''] =
     Ok (new_globals\<lparr>gl_args := [''capture'', ''0'', ''0'', ''10'', ''10'']\<rparr>, Request ''snapshot.capture'' [(''canonical'', Bool True)])"
  using usage_names_commands[of "[''0'', ''0'', ''10'', ''10'']" "[]"] by simp

end
