(* ===== verification/Viewmodel.thy ===== *)
theory Viewmodel
  imports Daemon_Properties
begin

text \<open>
  The view model of the graphical client, \<open>clients/gui/viewmodel\<close>: \<open>refresh\<close> and \<open>select_hwnd\<close> over an
  \<open>ITransport\<close>. What it needs of the transport is a locale; the daemon's pipe thread on the deterministic
  backend provides it, so the tree and the properties shown are those of the desktop.
\<close>

section \<open>The view model\<close>

datatype Node = Node (node_hwnd: string) (node_label: string) (node_children: "Node list")

record Property =
  pr_key :: string
  pr_value :: string

record ViewModel =
  vm_tree :: "Node list"
  vm_props :: "Property list"

text \<open>The transport \<open>request\<close> has a state of its own; an exception leaves what was done before it.\<close>

definition on_transport :: "('t, 'a) comp \<Rightarrow> ('t \<times> ViewModel, 'a) comp" where
  "on_transport m = (\<lambda>(t, vm). case m t of (r, t') \<Rightarrow> (r, t', vm))"

definition on_view :: "(ViewModel \<Rightarrow> ViewModel) \<Rightarrow> ('t \<times> ViewModel, unit) comp" where
  "on_view f = (\<lambda>(t, vm). (Ok (), t, f vm))"

definition gui_request :: "string \<Rightarrow> string \<Rightarrow> (string \<times> Value) list \<Rightarrow> string" where
  "gui_request i method params = dumps (Obj (obj_of [(''id'', Str i), (''method'', Str method),
     (''params'', Obj (obj_of ((''canonical'', Bool True) # params)))]))"

definition ask :: "(string \<Rightarrow> ('t, string) comp) \<Rightarrow> string \<Rightarrow> ('t \<times> ViewModel, Object) comp" where
  "ask request msg = andThen (on_transport (request msg)) (\<lambda>s. lift_res (rthen (parse s) as_obj))"

definition snapshot_of :: "Object \<Rightarrow> string res" where
  "snapshot_of resp = rthen (rthen (obj_at resp ''result'') as_obj) (\<lambda>r. rthen (obj_at r ''snapshot_id'') as_str)"

fun push_nodes :: "Value list \<Rightarrow> ('t \<times> ViewModel, unit) comp" where
  "push_nodes [] = ret ()"
| "push_nodes (e # es) = andThen (lift_res (rthen (as_obj e) (\<lambda>m. rthen (obj_at m ''hwnd'') as_str))) (\<lambda>h.
     andThen (on_view (\<lambda>vm. vm\<lparr>vm_tree := vm_tree vm @ [Node h h []]\<rparr>)) (\<lambda>_. push_nodes es))"

definition refresh :: "(string \<Rightarrow> ('t, string) comp) \<Rightarrow> ('t \<times> ViewModel, unit) comp" where
  "refresh request =
     andThen (ask request (gui_request ''gui-1'' ''snapshot.capture'' [])) (\<lambda>cap_resp.
     andThen (lift_res (snapshot_of cap_resp)) (\<lambda>sid.
     andThen (ask request (gui_request ''gui-2'' ''window.listTop'' [(''snapshot_id'', Str sid)])) (\<lambda>resp.
     andThen (on_view (\<lambda>vm. vm\<lparr>vm_tree := []\<rparr>)) (\<lambda>_.
     andThen (lift_res (rthen (obj_at resp ''result'') as_arr)) push_nodes))))"

definition select_hwnd :: "(string \<Rightarrow> ('t, string) comp) \<Rightarrow> string \<Rightarrow> ('t \<times> ViewModel, unit) comp" where
  "select_hwnd request hwnd =
     andThen (ask request (gui_request ''gui-3'' ''snapshot.capture'' [])) (\<lambda>cap_resp.
     andThen (lift_res (snapshot_of cap_resp)) (\<lambda>sid.
     andThen (ask request (gui_request ''gui-4'' ''window.getInfo'' [(''snapshot_id'', Str sid), (''hwnd'', Str hwnd)])) (\<lambda>resp.
     andThen (on_view (\<lambda>vm. vm\<lparr>vm_props := []\<rparr>)) (\<lambda>_.
     andThen (lift_res (rthen (obj_at resp ''ok'') as_bool)) (\<lambda>ok.
       if \<not> ok then ret ()
       else andThen (lift_res (rthen (obj_at resp ''result'') as_obj)) (\<lambda>info.
         on_view (\<lambda>vm. vm\<lparr>vm_props := map (\<lambda>(k, v). \<lparr>pr_key = k, pr_value = dumps v\<rparr>) info\<rparr>)))))))"

section \<open>What it needs of the transport\<close>

locale inspection_service =
  fixes request :: "string \<Rightarrow> ('t, string) comp"
    and ready :: "'t \<Rightarrow> bool" and holds :: "'t \<Rightarrow> string \<Rightarrow> bool"
    and tops :: "'t \<Rightarrow> string list" and info :: "'t \<Rightarrow> string \<Rightarrow> Object option"
  assumes captures: "ready t \<Longrightarrow> \<exists>text t' m sid. request (gui_request i ''snapshot.capture'' []) t = (Ok text, t') \<and>
      parse text = Ok (Obj m) \<and> obj_at m ''result'' = Ok (Obj [(''snapshot_id'', Str sid)]) \<and>
      holds t' sid \<and> tops t' = tops t \<and> info t' = info t"
    and lists: "holds t sid \<Longrightarrow> \<exists>text t' m. request (gui_request i ''window.listTop'' [(''snapshot_id'', Str sid)]) t = (Ok text, t') \<and>
      parse text = Ok (Obj m) \<and> obj_at m ''result'' = Ok (Arr (map (\<lambda>h. Obj [(''hwnd'', Str h)]) (tops t)))"
    and tells: "holds t sid \<Longrightarrow> \<exists>text t' m.
      request (gui_request i ''window.getInfo'' [(''snapshot_id'', Str sid), (''hwnd'', Str h)]) t = (Ok text, t') \<and>
      parse text = Ok (Obj m) \<and> obj_at m ''ok'' = Ok (Bool (info t h \<noteq> None)) \<and>
      (\<forall>w. info t h = Some w \<longrightarrow> obj_at m ''result'' = Ok (Obj w))"
begin

lemma ask_run: "request msg t = (Ok text, t') \<Longrightarrow> parse text = Ok (Obj m) \<Longrightarrow> ask request msg (t, vm) = (Ok m, t', vm)"
  by (simp add: ask_def on_transport_def andThen_def lift_res_def as_obj_def)

lemma push_nodes_run: "push_nodes (map (\<lambda>h. Obj [(''hwnd'', Str h)]) hs) (t, vm) =
  (Ok (), t, vm\<lparr>vm_tree := vm_tree vm @ map (\<lambda>h. Node h h []) hs\<rparr>)"
  by (induction hs arbitrary: vm)
    (simp_all add: ret_def andThen_def lift_res_def on_view_def as_obj_def obj_at_def as_str_def)

lemma refresh_shows: "ready t \<Longrightarrow> \<exists>t'. refresh request (t, vm) = (Ok (), t', vm\<lparr>vm_tree := map (\<lambda>h. Node h h []) (tops t)\<rparr>)"
proof -
  assume "ready t"
  from captures[OF this, of "''gui-1''"] obtain ans1 t1 m sid where
    c: "request (gui_request ''gui-1'' ''snapshot.capture'' []) t = (Ok ans1, t1)" "parse ans1 = Ok (Obj m)"
      "obj_at m ''result'' = Ok (Obj [(''snapshot_id'', Str sid)])" "holds t1 sid" "tops t1 = tops t" by blast
  from lists[OF c(4), of "''gui-2''"] obtain ans2 t2 m2 where
    l: "request (gui_request ''gui-2'' ''window.listTop'' [(''snapshot_id'', Str sid)]) t1 = (Ok ans2, t2)"
      "parse ans2 = Ok (Obj m2)" "obj_at m2 ''result'' = Ok (Arr (map (\<lambda>h. Obj [(''hwnd'', Str h)]) (tops t1)))" by blast
  have "snapshot_of m = Ok sid" using c(3) by (simp add: snapshot_of_def as_obj_def obj_at_def as_str_def)
  then show ?thesis
    using ask_run[OF c(1,2), of vm] ask_run[OF l(1,2), of vm] l(3) c(5)
    by (simp add: refresh_def andThen_def lift_res_def on_view_def as_arr_def push_nodes_run)
qed

lemma select_shows: "ready t \<Longrightarrow> \<exists>t'. select_hwnd request h (t, vm) = (Ok (), t', vm\<lparr>vm_props := (case info t h of None \<Rightarrow> []
  | Some w \<Rightarrow> map (\<lambda>(k, v). \<lparr>pr_key = k, pr_value = dumps v\<rparr>) w)\<rparr>)"
proof -
  assume "ready t"
  from captures[OF this, of "''gui-3''"] obtain ans1 t1 m sid where
    c: "request (gui_request ''gui-3'' ''snapshot.capture'' []) t = (Ok ans1, t1)" "parse ans1 = Ok (Obj m)"
      "obj_at m ''result'' = Ok (Obj [(''snapshot_id'', Str sid)])" "holds t1 sid" "info t1 = info t" by blast
  from tells[OF c(4), of "''gui-4''" h] obtain ans2 t2 m2 where
    l: "request (gui_request ''gui-4'' ''window.getInfo'' [(''snapshot_id'', Str sid), (''hwnd'', Str h)]) t1 = (Ok ans2, t2)"
      "parse ans2 = Ok (Obj m2)" "obj_at m2 ''ok'' = Ok (Bool (info t1 h \<noteq> None))"
      "\<forall>w. info t1 h = Some w \<longrightarrow> obj_at m2 ''result'' = Ok (Obj w)" by blast
  have "snapshot_of m = Ok sid" using c(3) by (simp add: snapshot_of_def as_obj_def obj_at_def as_str_def)
  then show ?thesis
    using ask_run[OF c(1,2), of vm] ask_run[OF l(1,2), of vm] l(3,4) c(5)
    by (cases "info t h") (simp_all add: select_hwnd_def andThen_def lift_res_def on_view_def as_obj_def as_bool_def ret_def)
qed

end

section \<open>The daemon as the transport\<close>

text \<open>A request and its response on the pipe, with no other thread in between.\<close>

definition pipe_request ::
  "ServerConfig \<Rightarrow> (nat \<Rightarrow> Tick) \<Rightarrow> string \<Rightarrow> (FakeBackend World \<times> Conn, string) comp" where
  "pipe_request cfg tks msg = (\<lambda>(w, c). case pipe_message cfg fake_backend tks msg w c of (ph, w', c') \<Rightarrow>
     if ph = Reading then (Ok (last (cn_sent c')), w', c') else (Stuck, w', c'))"

text \<open>The clocks of the requests: no timeout, and a duration a \<open>double\<close> can print.\<close>

definition in_time :: "(nat \<Rightarrow> Tick) \<Rightarrow> bool" where
  "in_time tks \<longleftrightarrow> (\<forall>k. \<not> tk_timeout (tks k) \<and> \<bar>tk_duration (tks k)\<bar> \<le> 2 ^ 64)"

definition gui_ready :: "(nat \<Rightarrow> Tick) \<Rightarrow> FakeBackend World \<times> Conn \<Rightarrow> bool" where
  "gui_ready tks t \<longleftrightarrow> in_time tks \<and> cs_authenticated (cn_session (snd t)) \<and> store_wf (w_st (fst t)) \<and> roomy (w_st (fst t)) \<and>
     length (filter (is_pinned (w_st (fst t))) (lru_order (w_st (fst t)))) < unat (max_snapshots (w_st (fst t))) \<and>
     \<not> is_pinned (w_st (fst t)) (make_snap_id (snap_counter (w_st (fst t))))"

definition gui_holds :: "(nat \<Rightarrow> Tick) \<Rightarrow> FakeBackend World \<times> Conn \<Rightarrow> string \<Rightarrow> bool" where
  "gui_holds tks t sid \<longleftrightarrow> in_time tks \<and> cs_authenticated (cn_session (snd t)) \<and>
     map_of (snaps (w_st (fst t))) sid = Some (fake_snapshot (w_backend (fst t)))"

definition gui_tops :: "FakeBackend World \<times> Conn \<Rightarrow> string list" where
  "gui_tops t = map hwnd_to_string (top (fake_snapshot (w_backend (fst t))))"

definition gui_info :: "FakeBackend World \<times> Conn \<Rightarrow> string \<Rightarrow> Object option" where
  "gui_info t h = (case parse_hwnd h of None \<Rightarrow> None
     | Some x \<Rightarrow> map_option (\<lambda>fw. window_info_to_json (info_of fw)) (map_of (fb_windows (w_backend (fst t))) x))"

lemma parse_gui_request:
  assumes "\<forall>p \<in> set params. wire_value (snd p)"
  shows "parse_request_json (gui_request i method params) =
    Ok \<lparr>req_id = i, req_method = method, req_params = obj_of ((''canonical'', Bool True) # params)\<rparr>"
proof -
  have "gui_request i method params = make_req i method (obj_of ((''canonical'', Bool True) # params))"
    by (simp add: gui_request_def make_req_def)
  then show ?thesis using assms by (auto intro!: parse_make_req wire_obj_of)
qed

lemma reads_only: "\<not> write_method ''snapshot.capture''" "\<not> write_method ''window.listTop''" "\<not> write_method ''window.getInfo''"
  by code_simp+

lemma gui_capture:
  assumes "gui_ready tks (w, c)"
  shows "\<exists>text t' m sid. pipe_request cfg tks (gui_request i ''snapshot.capture'' []) (w, c) = (Ok text, t') \<and>
      parse text = Ok (Obj m) \<and> obj_at m ''result'' = Ok (Obj [(''snapshot_id'', Str sid)]) \<and>
      gui_holds tks t' sid \<and> gui_tops t' = gui_tops (w, c) \<and> gui_info t' = gui_info (w, c)"
proof -
  let ?s = "fake_snapshot (w_backend w)"
  have f: "fits (w_st w)" using assms by (simp add: gui_ready_def fits_def store_wf_def)
  then obtain sid st where cap: "capture_section ?s (w_st w) = Some (sid, st)" using fits_capture by blast
  then have "sid = make_snap_id (snap_counter (w_st w))"
    by (elim capture_run) (auto simp: store_snapshot_def Let_def)
  then have held: "map_of (snaps st) sid = Some ?s"
    using fresh_capture[OF _ _ cap] assms by (simp add: gui_ready_def)
  let ?r = "new_response\<lparr>resp_id := i, resp_ok := True, resp_result := Obj (obj_of [(''snapshot_id'', Str sid)])\<rparr>"
  have run: "\<exists>c'. pipe_message cfg fake_backend tks (gui_request i ''snapshot.capture'' []) w c = (Reading, w\<lparr>w_st := st\<rparr>, c') \<and>
      cn_sent c' = cn_sent c @ [serialize_response_json ?r True] \<and> cs_authenticated (cn_session c')"
    using assms
    by (simp add: pipe_message_def pipe_receive_def parse_gui_request drive_pipe pipe_session_def pipe_route_def
      guard_def get_str_def get_bool_def fake_capture_then do_store_def cap send_response_def do_unpin_def unpin_section_def
      succeed_def value_or_def reads_only gui_ready_def Let_def)
  have "wire_value (Obj (to_json_obj ?r True))"
    by (rule wire_to_json_obj) (simp_all add: new_response_def obj_of_def wire_obj om_wf_def)
  then have "parse (serialize_response_json ?r True) = Ok (Obj (to_json_obj ?r True))"
    by (simp add: serialize_response_json_def wire_round_trip)
  moreover have "obj_at (to_json_obj ?r True) ''result'' = Ok (Obj [(''snapshot_id'', Str sid)])"
    by (simp add: to_json_obj_def obj_at_def new_response_def obj_of_def[of "[(''snapshot_id'', Str sid)]"])
  moreover have "gui_info (w\<lparr>w_st := st\<rparr>, c') = gui_info (w, c)" for c' by (rule ext) (simp add: gui_info_def split: option.split)
  ultimately show ?thesis
    using run held assms by (auto simp: pipe_request_def gui_holds_def gui_tops_def gui_ready_def)
qed

text \<open>A request on a held snapshot: the answer is the handler's.\<close>

lemma gui_run:
  assumes "gui_holds tks (w, c) sid" and "method = ''window.listTop'' \<or> method = ''window.getInfo''"
    and "\<And>logs. map_of (dispatch_table fake_backend (engine cfg (tks 5)) logs) method = Some f"
    and "f \<lparr>req_id = i, req_method = method, req_params = obj_of ((''canonical'', Bool True) # (''snapshot_id'', Str sid) # ps)\<rparr>
        (fake_snapshot (w_backend w)) None (w_backend w) = (r0, w_backend w)" and "r0 \<noteq> Stuck"
    and "\<forall>p \<in> set ps. wire_value (snd p)" and "\<forall>p \<in> set ps. fst p = ''hwnd''"
  shows "\<exists>w' c' r. pipe_message cfg fake_backend tks (gui_request i method ((''snapshot_id'', Str sid) # ps)) w c = (Reading, w', c') \<and>
    cn_sent c' = cn_sent c @ [serialize_response_json r True] \<and>
    (case r0 of Ok x \<Rightarrow> r = timed (engine cfg (tks 5)) x
     | _ \<Rightarrow> \<not> resp_ok r \<and> metrics r = [(''duration_ms'', num_of_int (tk_duration (tks 5)))])"
proof -
  let ?s = "fake_snapshot (w_backend w)"
  let ?req = "\<lparr>req_id = i, req_method = method, req_params = obj_of ((''canonical'', Bool True) # (''snapshot_id'', Str sid) # ps)\<rparr>"
  have nokey: "map_of (rev ps) k = None" if "k \<noteq> ''hwnd''" for k
    using assms(7) that by (force simp: map_of_eq_None_iff)
  have parse: "parse_request_json (gui_request i method ((''snapshot_id'', Str sid) # ps)) = Ok ?req"
    using assms(6) by (intro parse_gui_request) auto
  obtain st where pin: "pin_section sid (w_st w) = Some (?s, st)"
    using assms(1) by (auto simp: gui_holds_def pin_section_def)
  obtain r b lg where h: "handle fake_backend (engine cfg (tks 5)) ?req ?s None (w_backend w, w_log w) = (Ok r, b, lg)"
    "case r0 of Ok x \<Rightarrow> r = timed (engine cfg (tks 5)) x
     | _ \<Rightarrow> \<not> resp_ok r \<and> metrics r = [(''duration_ms'', num_of_int (tk_duration (tks 5)))]"
    using handle_run[of fake_backend "engine cfg (tks 5)" ?req "w_log w" f ?s None "w_backend w"] assms(3,4,5)
    by (cases "handle fake_backend (engine cfg (tks 5)) ?req ?s None (w_backend w, w_log w)"; cases r0)
      (auto simp: timed_def with_error_def engine_def)
  have m: "method \<noteq> ''events.subscribe''" "method \<noteq> ''events.unsubscribe''" "method \<noteq> ''session.terminate''"
    "method \<noteq> ''snapshot.capture''" "method \<noteq> ''events.poll''" "\<not> write_method method"
    using assms(2) reads_only by auto
  show ?thesis
    using assms(1) h(2)
    by (simp add: pipe_message_def pipe_receive_def parse drive_pipe pipe_session_def pipe_route_def
      guard_def get_str_def get_bool_def nokey map_add_def m pipe_pin_def pin choose_old_def baseline_def run_core_def h(1) in_time_def
      send_response_def do_unpin_def value_or_def gui_holds_def Let_def) blast
qed

lemma wire_info_of: "wire_value (Obj (window_info_to_json (info_of fw)))"
proof -
  have "wire_value (Obj (rect_to_json \<lparr>left = 0, top_edge = 0, right = 100, bottom_edge = 100\<rparr>))" "wire_value (Obj (rect_to_json zero_rect))"
    by (rule wire_rect; simp add: zero_rect_def)+
  then show ?thesis unfolding window_info_to_json_def
    by (intro wire_obj_of) (auto simp: info_of_def intro: wire_num_of_int)
qed

lemma wire_response:
  assumes "in_time tks" and "resp_ok r \<Longrightarrow> wire_value (resp_result r)"
    and "metrics r = [(''duration_ms'', num_of_int (tk_duration (tks 5)))]"
  shows "parse (serialize_response_json r True) = Ok (Obj (to_json_obj r True))"
proof -
  have "wire_value (num_of_int (tk_duration (tks 5)))" using assms(1) by (intro wire_num_of_int) (simp add: in_time_def)
  then have "wire_value (Obj (to_json_obj r True))" using assms(2,3) by (intro wire_to_json_obj) (simp_all add: wire_obj om_wf_def)
  then show ?thesis by (simp add: serialize_response_json_def wire_round_trip)
qed

lemma reply_metrics:
  "metrics (timed (engine cfg tk) (reply v)) = [(''duration_ms'', num_of_int (tk_duration tk))]"
  "metrics (timed (engine cfg tk) (refuse code msg)) = [(''duration_ms'', num_of_int (tk_duration tk))]"
  by (simp_all add: timed_def reply_def refuse_def engine_def new_response_def)

lemma gui_lists:
  assumes "gui_holds tks (w, c) sid"
  shows "\<exists>text t' m. pipe_request cfg tks (gui_request i ''window.listTop'' [(''snapshot_id'', Str sid)]) (w, c) = (Ok text, t') \<and>
    parse text = Ok (Obj m) \<and> obj_at m ''result'' = Ok (Arr (map (\<lambda>h. Obj [(''hwnd'', Str h)]) (gui_tops (w, c))))"
proof -
  let ?v = "hwnd_list (top (fake_snapshot (w_backend w)))"
  let ?r = "timed (engine cfg (tks 5)) (reply ?v)"
  obtain w' c' where run: "pipe_message cfg fake_backend tks (gui_request i ''window.listTop'' [(''snapshot_id'', Str sid)]) w c = (Reading, w', c')"
    "cn_sent c' = cn_sent c @ [serialize_response_json ?r True]"
    using gui_run[OF assms, of "''window.listTop''" cfg "h_list_top fake_backend" i "[]" "Ok (reply ?v)"]
    by (auto simp: dispatch_list_top h_list_top_def fake_list_top_def comp_simps)
  have t: "in_time tks" using assms by (simp add: gui_holds_def)
  have "parse (serialize_response_json ?r True) = Ok (Obj (to_json_obj ?r True))"
    by (rule wire_response[OF t _ reply_metrics(1)]) (auto simp: reply_def hwnd_list_def intro!: wire_obj_of)
  moreover have "obj_at (to_json_obj ?r True) ''result'' = Ok (Arr (map (\<lambda>h. Obj [(''hwnd'', Str h)]) (gui_tops (w, c))))"
    by (simp add: to_json_obj_def obj_at_def reply_def hwnd_list_def gui_tops_def obj_of_def[of "[(''hwnd'', v)]" for v])
  ultimately show ?thesis using run by (simp add: pipe_request_def)
qed

lemma gui_tells:
  assumes "gui_holds tks (w, c) sid"
  shows "\<exists>text t' m. pipe_request cfg tks (gui_request i ''window.getInfo'' [(''snapshot_id'', Str sid), (''hwnd'', Str h)]) (w, c) = (Ok text, t') \<and>
    parse text = Ok (Obj m) \<and> obj_at m ''ok'' = Ok (Bool (gui_info (w, c) h \<noteq> None)) \<and>
    (\<forall>x. gui_info (w, c) h = Some x \<longrightarrow> obj_at m ''result'' = Ok (Obj x))"
proof -
  let ?r0 = "case parse_hwnd h of None \<Rightarrow> Throw (RuntimeError ''bad hwnd'')
    | Some x \<Rightarrow> Ok (case map_of (fb_windows (w_backend w)) x of None \<Rightarrow> refuse ''E_BAD_HWND'' ''not a valid window handle''
        | Some fw \<Rightarrow> reply (Obj (window_info_to_json (info_of fw))))"
  have f: "map_of (dispatch_table fake_backend (engine cfg (tks 5)) logs) ''window.getInfo'' = Some (h_get_info fake_backend)" for logs
    by (simp add: dispatch_table_def)
  have h: "h_get_info fake_backend \<lparr>req_id = i, req_method = ''window.getInfo'', req_params =
      obj_of ((''canonical'', Bool True) # (''snapshot_id'', Str sid) # [(''hwnd'', Str h)])\<rparr> snap None (w_backend w) = (?r0, w_backend w)" for snap
    by (simp add: h_get_info_def hwnd_param_def need_hwnd_def comp_simps fake_get_info_def reads_def get_str_def andThen_def
        split: option.split)
  have ns: "?r0 \<noteq> Stuck" by (simp split: option.split)
  have "\<exists>w' c' r. pipe_message cfg fake_backend tks (gui_request i ''window.getInfo'' [(''snapshot_id'', Str sid), (''hwnd'', Str h)]) w c =
      (Reading, w', c') \<and> cn_sent c' = cn_sent c @ [serialize_response_json r True] \<and>
    (case ?r0 of Ok x \<Rightarrow> r = timed (engine cfg (tks 5)) x
     | _ \<Rightarrow> \<not> resp_ok r \<and> metrics r = [(''duration_ms'', num_of_int (tk_duration (tks 5)))])"
    by (rule gui_run[OF assms _ f h ns]) simp_all
  then obtain w' c' r where run: "pipe_message cfg fake_backend tks (gui_request i ''window.getInfo'' [(''snapshot_id'', Str sid), (''hwnd'', Str h)]) w c =
      (Reading, w', c')" "cn_sent c' = cn_sent c @ [serialize_response_json r True]"
    "case ?r0 of Ok x \<Rightarrow> r = timed (engine cfg (tks 5)) x
     | _ \<Rightarrow> \<not> resp_ok r \<and> metrics r = [(''duration_ms'', num_of_int (tk_duration (tks 5)))]" by blast
  have t: "in_time tks" using assms by (simp add: gui_holds_def)
  have shape: "resp_ok r = (gui_info (w, c) h \<noteq> None)" "\<forall>x. gui_info (w, c) h = Some x \<longrightarrow> resp_result r = Obj x"
    "metrics r = [(''duration_ms'', num_of_int (tk_duration (tks 5)))]"
    using run(3) by (auto simp: gui_info_def timed_def engine_def reply_def refuse_def new_response_def split: option.splits)
  have "parse (serialize_response_json r True) = Ok (Obj (to_json_obj r True))"
    using shape by (intro wire_response[OF t]) (auto simp: gui_info_def wire_info_of split: option.splits)
  then show ?thesis using run(1,2) shape by (auto simp: pipe_request_def to_json_obj_def obj_at_def)
qed

interpretation daemon_service: inspection_service "pipe_request cfg tks" "gui_ready tks" "gui_holds tks" gui_tops gui_info for cfg tks
proof (unfold_locales)
qed (use gui_capture gui_lists gui_tells in \<open>auto\<close>)

section \<open>Properties\<close>

definition sample_gui_conn :: Conn where
  "sample_gui_conn = new_conn\<lparr>cn_session := new_client_session\<lparr>cs_authenticated := True\<rparr>\<rparr>"

lemma sample_gui_ready: "gui_ready (\<lambda>_. sample_tick) (sample_world, sample_gui_conn)"
  by (simp add: gui_ready_def in_time_def sample_tick_def sample_world_def sample_gui_conn_def new_server_state_def store_wf_def
      roomy_def count_at_def word_less_nat_alt unsigned_minus_1_eq_mask mask_eq_exp_minus_1)

text \<open>What the graphical client shows. Over the daemon on the deterministic backend, \<open>refresh\<close> leaves in the tree one node per
  top-level window, in ascending order of the handles, and \<open>select_hwnd\<close> leaves the members of the window's
  information, printed as JSON, or nothing where the text names no window; neither touches the other half of
  the view. The store must have room for one more snapshot, and no request may run into the timeout.\<close>

theorem view_shows_desktop:
  assumes "gui_ready tks (w, c)"
  shows "(\<exists>t. refresh (pipe_request cfg tks) ((w, c), vm) = (Ok (), t, vm\<lparr>vm_tree :=
      map (\<lambda>h. Node (hwnd_to_string h) (hwnd_to_string h) []) (sort (children_of (fb_windows (w_backend w)) 0))\<rparr>)) \<and>
    (\<exists>t. select_hwnd (pipe_request cfg tks) hwnd ((w, c), vm) = (Ok (), t, vm\<lparr>vm_props :=
      (case gui_info (w, c) hwnd of None \<Rightarrow> []
       | Some info \<Rightarrow> map (\<lambda>(k, v). \<lparr>pr_key = k, pr_value = dumps v\<rparr>) info)\<rparr>))"
  using daemon_service.refresh_shows[OF assms, of cfg vm] daemon_service.select_shows[OF assms, of cfg hwnd vm]
  by (simp add: gui_tops_def fake_snapshot_def comp_def)

theorem view_shows_desktop_witness:
  "\<exists>t. refresh (pipe_request sample_config (\<lambda>_. sample_tick)) ((sample_world, sample_gui_conn), \<lparr>vm_tree = [], vm_props = []\<rparr>) =
    (Ok (), t, \<lparr>vm_tree = map (\<lambda>h. Node (hwnd_to_string h) (hwnd_to_string h) []) (sort (children_of (fb_windows sample_state) 0)), vm_props = []\<rparr>)"
  using view_shows_desktop[OF sample_gui_ready, of sample_config "\<lparr>vm_tree = [], vm_props = []\<rparr>" "[]"]
  by (auto simp: sample_world_def)

end
