(* ===== verification/Win32_Api.thy ===== *)
theory Win32_Api
  imports Backend Base64 Update
begin

text \<open>
  What \<open>core/src/win32_backend.cpp\<close> asks of Windows. The operating system is not part of the sources, so
  every call is a field of the record below, a function of an abstract state of the system: a query gives a
  value, an action gives a value and the state after it. A handle of an object that lives only inside one
  method (a process, a registry key, a service) is represented by what it was opened with. The definitions of
  the backend take the record as an argument.

  Text is a list of 16-bit units. The conversions of \<open>WideCharToMultiByte\<close> and \<open>MultiByteToWideChar\<close> are
  fields too; the widening of a \<open>std::string\<close> unit by unit is the sources' own and defined here.
\<close>

type_synonym wide = "16 word list"

text \<open>The structure \<open>INPUT\<close>, as far as the sources fill it in.\<close>

datatype INPUT =
    MouseInput int int "32 word"
  | KeyInput "16 word" "16 word" "32 word"
  | RawInput bytes

datatype HKEY = HKLM | HKCU | HKCR | HKU

text \<open>Text and windows.\<close>

record 'o User32 =
  to_utf8 :: "wide \<Rightarrow> string"
  from_utf8 :: "string \<Rightarrow> wide"
  enum_windows :: "'o \<Rightarrow> hwnd_u64 list"
  enum_child_windows :: "hwnd_u64 \<Rightarrow> 'o \<Rightarrow> hwnd_u64 list"
  is_window :: "hwnd_u64 \<Rightarrow> 'o \<Rightarrow> bool"
  parent_of :: "hwnd_u64 \<Rightarrow> 'o \<Rightarrow> hwnd_u64"
  owner_of :: "hwnd_u64 \<Rightarrow> 'o \<Rightarrow> hwnd_u64"
  first_child :: "hwnd_u64 \<Rightarrow> 'o \<Rightarrow> hwnd_u64"
  next_sibling :: "hwnd_u64 \<Rightarrow> 'o \<Rightarrow> hwnd_u64"
  window_text_length :: "hwnd_u64 \<Rightarrow> 'o \<Rightarrow> nat"
  window_text :: "hwnd_u64 \<Rightarrow> 'o \<Rightarrow> wide"
  class_name_of :: "hwnd_u64 \<Rightarrow> 'o \<Rightarrow> wide"
  window_rect_of :: "hwnd_u64 \<Rightarrow> 'o \<Rightarrow> Rect option"
  client_rect_of :: "hwnd_u64 \<Rightarrow> 'o \<Rightarrow> Rect option"
  client_origin :: "hwnd_u64 \<Rightarrow> 'o \<Rightarrow> (int \<times> int) option"
  thread_of :: "hwnd_u64 \<Rightarrow> 'o \<Rightarrow> 32 word"
  process_of :: "hwnd_u64 \<Rightarrow> 'o \<Rightarrow> 32 word"
  style_of :: "hwnd_u64 \<Rightarrow> 'o \<Rightarrow> 64 word"
  exstyle_of :: "hwnd_u64 \<Rightarrow> 'o \<Rightarrow> 64 word"
  is_visible :: "hwnd_u64 \<Rightarrow> 'o \<Rightarrow> bool"
  is_enabled :: "hwnd_u64 \<Rightarrow> 'o \<Rightarrow> bool"
  is_iconic :: "hwnd_u64 \<Rightarrow> 'o \<Rightarrow> bool"
  is_zoomed :: "hwnd_u64 \<Rightarrow> 'o \<Rightarrow> bool"
  window_from_point :: "int \<times> int \<Rightarrow> 'o \<Rightarrow> hwnd_u64"
  child_from_point :: "hwnd_u64 \<Rightarrow> int \<times> int \<Rightarrow> bool \<Rightarrow> 'o \<Rightarrow> hwnd_u64"
  foreground_window :: "'o \<Rightarrow> hwnd_u64"

text \<open>Changes to windows, messages and input.\<close>

record 'o Input =
  show_window :: "hwnd_u64 \<Rightarrow> bool \<Rightarrow> 'o \<Rightarrow> 'o"
  set_foreground_window :: "hwnd_u64 \<Rightarrow> 'o \<Rightarrow> 'o"
  set_topmost :: "hwnd_u64 \<Rightarrow> bool \<Rightarrow> 'o \<Rightarrow> bool \<times> 'o"
  set_exstyle :: "hwnd_u64 \<Rightarrow> 64 word \<Rightarrow> 'o \<Rightarrow> 'o"
  set_alpha :: "hwnd_u64 \<Rightarrow> 8 word \<Rightarrow> 'o \<Rightarrow> bool \<times> 'o"
  post_message_w :: "hwnd_u64 \<Rightarrow> 32 word \<Rightarrow> 64 word \<Rightarrow> 64 word \<Rightarrow> 'o \<Rightarrow> bool \<times> 'o"
  send_inputs :: "INPUT list \<Rightarrow> 'o \<Rightarrow> nat \<times> 'o"
  screen_size :: "'o \<Rightarrow> int \<times> int"

text \<open>The screen.\<close>

record 'o Gdi32 =
  screen_dc :: "'o \<Rightarrow> bool"
  draw_rectangle :: "Rect \<Rightarrow> 'o \<Rightarrow> 'o"
  invalidate :: "Rect \<Rightarrow> 'o \<Rightarrow> 'o"
  pixel_at :: "int \<Rightarrow> int \<Rightarrow> 'o \<Rightarrow> 32 word"
  bitmap_stride :: "int \<Rightarrow> int \<Rightarrow> 'o \<Rightarrow> int option"
  dib_bits :: "Rect \<Rightarrow> 'o \<Rightarrow> bytes"

text \<open>Processes, memory and files.\<close>

record 'o Kernel32 =
  open_process :: "32 word \<Rightarrow> 32 word \<Rightarrow> 'o \<Rightarrow> bool"
  image_name :: "32 word \<Rightarrow> 'o \<Rightarrow> wide option"
  toolhelp_processes :: "'o \<Rightarrow> (32 word \<times> wide) list option"
  terminate_process :: "32 word \<Rightarrow> 'o \<Rightarrow> bool \<times> 'o"
  read_process_memory :: "32 word \<Rightarrow> 64 word \<Rightarrow> nat \<Rightarrow> 'o \<Rightarrow> bytes option"
  write_process_memory :: "32 word \<Rightarrow> 64 word \<Rightarrow> bytes \<Rightarrow> 'o \<Rightarrow> bool \<times> 'o"
  current_process_id :: "32 word"
  file_attributes :: "wide \<Rightarrow> 'o \<Rightarrow> (32 word \<times> 32 word \<times> 32 word) option"
  open_file :: "wide \<Rightarrow> 'o \<Rightarrow> bool"
  file_size :: "wide \<Rightarrow> 'o \<Rightarrow> 32 word"
  read_file :: "wide \<Rightarrow> nat \<Rightarrow> 'o \<Rightarrow> string"

text \<open>The registry.\<close>

record 'o Advapi32 =
  open_key :: "HKEY \<Rightarrow> wide \<Rightarrow> 'o \<Rightarrow> bool"
  key_names :: "HKEY \<Rightarrow> wide \<Rightarrow> 'o \<Rightarrow> wide list"
  key_values :: "HKEY \<Rightarrow> wide \<Rightarrow> 'o \<Rightarrow> (wide \<times> 32 word \<times> bytes) list"
  create_key :: "HKEY \<Rightarrow> wide \<Rightarrow> 'o \<Rightarrow> bool \<times> 'o"
  set_value :: "HKEY \<Rightarrow> wide \<Rightarrow> wide \<Rightarrow> 32 word \<Rightarrow> bytes \<Rightarrow> 'o \<Rightarrow> bool \<times> 'o"
  delete_key :: "HKEY \<Rightarrow> wide \<Rightarrow> 'o \<Rightarrow> bool \<times> 'o"
  delete_value :: "HKEY \<Rightarrow> wide \<Rightarrow> wide \<Rightarrow> 'o \<Rightarrow> bool \<times> 'o"

text \<open>The clipboard and the memory handed to it.\<close>

record 'o Clipboard =
  open_clipboard :: "'o \<Rightarrow> bool"
  clipboard_data :: "'o \<Rightarrow> wide option option"
  empty_clipboard :: "'o \<Rightarrow> 'o"
  alloc_memory :: "nat \<Rightarrow> 'o \<Rightarrow> bool"
  lock_memory :: "nat \<Rightarrow> 'o \<Rightarrow> bool"
  set_clipboard_data :: "wide \<Rightarrow> 'o \<Rightarrow> bool \<times> 'o"

text \<open>The service manager, and the clock its callers look at. A service is opened with a mask of access rights.\<close>

record 'o Services =
  open_service_manager :: "'o \<Rightarrow> bool"
  enum_services :: "'o \<Rightarrow> (wide \<times> wide \<times> 32 word) list option"
  open_service :: "wide \<Rightarrow> 32 word \<Rightarrow> 'o \<Rightarrow> bool"
  service_state :: "wide \<Rightarrow> 32 word \<Rightarrow> 'o \<Rightarrow> 32 word option"
  start_service :: "wide \<Rightarrow> 'o \<Rightarrow> bool \<times> 'o"
  stop_service :: "wide \<Rightarrow> 'o \<Rightarrow> bool \<times> 'o"
  wait_half_second :: "'o \<Rightarrow> 'o"
  seconds :: "'o \<Rightarrow> int"

text \<open>Environment variables, drives and mutexes.\<close>

record 'o Environment =
  environment_block :: "'o \<Rightarrow> wide option"
  set_environment :: "wide \<Rightarrow> wide \<Rightarrow> 'o \<Rightarrow> bool \<times> 'o"
  logical_drives :: "'o \<Rightarrow> 32 word"
  drive_type :: "nat \<Rightarrow> 'o \<Rightarrow> 32 word"
  dos_device :: "nat \<Rightarrow> 'o \<Rightarrow> wide option"
  open_mutex :: "wide \<Rightarrow> 'o \<Rightarrow> bool"
  create_mutex :: "wide \<Rightarrow> bool \<Rightarrow> 'o \<Rightarrow> (bool \<times> bool) \<times> 'o"
  close_mutex :: "wide \<Rightarrow> 'o \<Rightarrow> 'o"

text \<open>UI Automation.\<close>

record ('o, 'e) Automation =
  create_automation :: "'o \<Rightarrow> bool"
  element_from_handle :: "hwnd_u64 \<Rightarrow> 'o \<Rightarrow> 'e option"
  true_condition :: "'o \<Rightarrow> bool"
  uia_children :: "'e \<Rightarrow> 'o \<Rightarrow> 'e list"
  uia_automation_id :: "'e \<Rightarrow> 'o \<Rightarrow> wide option"
  uia_name :: "'e \<Rightarrow> 'o \<Rightarrow> wide option"
  uia_class_name :: "'e \<Rightarrow> 'o \<Rightarrow> wide option"
  uia_control_type :: "'e \<Rightarrow> 'o \<Rightarrow> int option"
  uia_rect :: "'e \<Rightarrow> 'o \<Rightarrow> Rect option"
  uia_enabled :: "'e \<Rightarrow> 'o \<Rightarrow> bool option"
  uia_offscreen :: "'e \<Rightarrow> 'o \<Rightarrow> bool option"
  uia_find :: "'e \<Rightarrow> wide \<Rightarrow> 'o \<Rightarrow> 'e option"
  uia_invoke :: "'e \<Rightarrow> 'o \<Rightarrow> bool \<times> 'o"

text \<open>The version of the system, regular expressions, and what the updater receives.\<close>

record 'o Platform =
  regex_compiles :: "string \<Rightarrow> unit res"
  regex_search :: "string \<Rightarrow> string \<Rightarrow> bool"
  wine_get_version :: "string option"
  rtl_version :: "(int \<times> int \<times> int) option"
  release_reply :: "'o \<Rightarrow> string list option"
  http_server :: http
  file_creatable :: "'o \<Rightarrow> bool"
  temp_path :: "'o \<Rightarrow> string option"
  save_download :: "string \<Rightarrow> 'o \<Rightarrow> 'o"

record ('o, 'e) Windows =
  user :: "'o User32"
  input :: "'o Input"
  gdi :: "'o Gdi32"
  kernel :: "'o Kernel32"
  advapi :: "'o Advapi32"
  clip :: "'o Clipboard"
  scm :: "'o Services"
  env :: "'o Environment"
  uia :: "('o, 'e) Automation"
  platform :: "'o Platform"

section \<open>The state of the backend\<close>

record 'o Win32 =
  w32_os :: 'o
  w32_is_wine :: bool
  w32_win_major :: int
  w32_win_minor :: int
  w32_win_build :: int
  w32_uia_depth :: int
  w32_max_mem_read :: "64 word"
  w32_service_timeout :: int

definition ask_os :: "('o \<Rightarrow> 'a) \<Rightarrow> ('o Win32, 'a) comp" where
  "ask_os f = (\<lambda>s. (Ok (f (w32_os s)), s))"

definition run_os :: "('o \<Rightarrow> 'a \<times> 'o) \<Rightarrow> ('o Win32, 'a) comp" where
  "run_os f = (\<lambda>s. case f (w32_os s) of (a, o') \<Rightarrow> (Ok a, s\<lparr>w32_os := o'\<rparr>))"

definition change_os :: "('o \<Rightarrow> 'o) \<Rightarrow> ('o Win32, unit) comp" where
  "change_os f = run_os (\<lambda>o'. ((), f o'))"

section \<open>Text\<close>

text \<open>\<open>std::wstring(s.begin(), s.end())\<close>: a \<open>char\<close> is signed, so a byte above 127 is extended with ones.\<close>

definition widen :: "string \<Rightarrow> wide" where
  "widen s = map (\<lambda>c. scast (of_nat (code_of c) :: 8 word)) s"

text \<open>A wide C string ends at its first zero.\<close>

definition c_wide :: "wide \<Rightarrow> wide" where
  "c_wide ws = takeWhile (\<lambda>c. c \<noteq> 0) ws"

definition w2u8 :: "('o, 'e) Windows \<Rightarrow> wide \<Rightarrow> string" where
  "w2u8 A ws = (if ws = [] then [] else to_utf8 (user A) ws)"

text \<open>\<open>text.c_str()\<close> handed to \<open>MultiByteToWideChar\<close> with length -1.\<close>

definition u8_to_wide :: "('o, 'e) Windows \<Rightarrow> string \<Rightarrow> wide" where
  "u8_to_wide A s = from_utf8 (user A) (takeWhile (\<lambda>c. c \<noteq> CHR 0x00) s)"

definition get_window_text_w :: "('o, 'e) Windows \<Rightarrow> hwnd_u64 \<Rightarrow> 'o \<Rightarrow> wide" where
  "get_window_text_w A h o' =
     (let n = window_text_length (user A) h o'; t = take n (window_text (user A) h o')
      in t @ replicate (n - length t) 0)"

definition get_class_name_w :: "('o, 'e) Windows \<Rightarrow> hwnd_u64 \<Rightarrow> 'o \<Rightarrow> wide" where
  "get_class_name_w A h o' = take 255 (class_name_of (user A) h o')"

definition try_process_image_path :: "('o, 'e) Windows \<Rightarrow> 32 word \<Rightarrow> 'o \<Rightarrow> string" where
  "try_process_image_path A pid o' =
     (if \<not> open_process (kernel A) 0x1000 pid o' then []
      else case image_name (kernel A) pid o' of None \<Rightarrow> [] | Some ws \<Rightarrow> w2u8 A ws)"

section \<open>Construction and configuration\<close>

definition new_win32 :: "('o, 'e) Windows \<Rightarrow> 'o \<Rightarrow> 'o Win32" where
  "new_win32 A o' =
     (let (major, minor, build) = (case rtl_version (platform A) of None \<Rightarrow> (0, 0, 0) | Some v \<Rightarrow> v);
          wine = wine_get_version (platform A) \<noteq> None
      in \<lparr>w32_os = o', w32_is_wine = wine, w32_win_major = major, w32_win_minor = minor, w32_win_build = build,
          w32_uia_depth = (if wine then 5 else 50), w32_max_mem_read = 1024 * 1024, w32_service_timeout = 30\<rparr>)"

definition configured :: "Object \<Rightarrow> string \<Rightarrow> (double \<Rightarrow> 'a option) \<Rightarrow> ('a \<Rightarrow> 'o Win32 \<Rightarrow> 'o Win32) \<Rightarrow> ('o Win32, unit) comp" where
  "configured config k cast f =
     (if map_of config k = None then ret ()
      else andThen (lift_res (rthen (obj_at config k) as_num)) (\<lambda>d.
        andThen (defined (cast d)) (\<lambda>v s. (Ok (), f v s))))"

definition win32_set_config :: "Object \<Rightarrow> ('o Win32, unit) comp" where
  "win32_set_config config =
     andThen (configured config ''uia_depth'' cast_int (\<lambda>n s. s\<lparr>w32_uia_depth := n\<rparr>)) (\<lambda>_.
     andThen (configured config ''max_mem_read'' cast_u64 (\<lambda>n s. s\<lparr>w32_max_mem_read := n\<rparr>)) (\<lambda>_.
       configured config ''service_timeout'' cast_int (\<lambda>n s. s\<lparr>w32_service_timeout := n\<rparr>)))"

end
