(* ===== verification/Gui_Main.thy ===== *)
theory Gui_Main
  imports Viewmodel Transport Win32_Api
begin

text \<open>
  The window of the graphical client, \<open>clients/gui/src/gui_main.cpp\<close>: the transport over the named pipe, the
  tree and the list it fills from the view model, its window procedure and the message loop. The two controls
  are represented by what has been inserted since they were last emptied; the pipe is an argument.
\<close>

section \<open>The pipe\<close>

text \<open>
  Whether the pipe can be opened, and what can be read after some bytes have been written, piece by piece.
\<close>

record 't Pipe =
  pipe_there :: "'t \<Rightarrow> bool"
  pipe_exchange :: "string \<Rightarrow> 't \<Rightarrow> string list \<times> 't"

definition no_daemon :: string where
  "no_daemon = ''{'' @ [CHR 0x22] @ ''ok'' @ [CHR 0x22] @ '':false,'' @ [CHR 0x22] @ ''error'' @ [CHR 0x22] @ '':'' @ [CHR 0x22] @
     ''no daemon'' @ [CHR 0x22] @ ''}''"

definition no_answer :: string where
  "no_answer = ''{'' @ [CHR 0x22] @ ''ok'' @ [CHR 0x22] @ '':false}''"

text \<open>
  The length starts as zero, so bytes that are not delivered count as zero, and so do bytes of the message that
  one read does not deliver.
\<close>

definition transport_request :: "'t Pipe \<Rightarrow> string \<Rightarrow> ('t, string) comp" where
  "transport_request P json = (\<lambda>t.
     if \<not> pipe_there P t then (Ok no_daemon, t)
     else let len = length json mod 2 ^ 32; (pieces, t') = pipe_exchange P (le32 len @ take len json) t in
       (case os_read 4 pieces of None \<Rightarrow> (Ok no_answer, t')
        | Some (bs, rest) \<Rightarrow> let rlen = un_le32 (bs @ replicate (4 - length bs) (CHR 0x00)) in
            (case os_read rlen rest of None \<Rightarrow> (Ok (replicate rlen (CHR 0x00)), t')
             | Some (resp, _) \<Rightarrow> (Ok (resp @ replicate (rlen - length resp) (CHR 0x00)), t'))))"

section \<open>The window\<close>

datatype Item = Item (it_label: wide) (it_param: nat) (it_children: "Item list")

record WinInspectWindow =
  gw_attached :: bool
  gw_vm :: ViewModel
  gw_columns :: "(wide \<times> int) list"
  gw_tree :: "Item list"
  gw_hwnd_storage :: "string list"
  gw_list :: "(wide \<times> wide) list"
  gw_layout :: "Rect \<times> Rect"
  gw_quit :: bool

definition on_vm :: "('t \<times> ViewModel, 'a) comp \<Rightarrow> ('t \<times> WinInspectWindow, 'a) comp" where
  "on_vm m = (\<lambda>(t, g). case m (t, gw_vm g) of (r, t', vm) \<Rightarrow> (r, t', g\<lparr>gw_vm := vm\<rparr>))"

definition on_window :: "(WinInspectWindow \<Rightarrow> WinInspectWindow) \<Rightarrow> ('t \<times> WinInspectWindow, unit) comp" where
  "on_window f = (\<lambda>(t, g). (Ok (), t, f g))"

definition shown :: "string \<Rightarrow> wide" where
  "shown s = c_wide (widen s)"

text \<open>An item refers to its handle by a position in \<open>hwnd_storage_\<close>.\<close>

fun add_node :: "Node \<Rightarrow> string list \<Rightarrow> Item \<times> string list" and add_nodes :: "Node list \<Rightarrow> string list \<Rightarrow> Item list \<times> string list" where
  "add_node (Node h l children) storage =
     (let (items, storage') = add_nodes children (storage @ [h]) in (Item (shown l) (length storage) items, storage'))"
| "add_nodes [] storage = ([], storage)"
| "add_nodes (n # ns) storage =
     (let (item, s1) = add_node n storage; (items, s2) = add_nodes ns s1 in (item # items, s2))"

definition gui_refresh :: "(string \<Rightarrow> ('t, string) comp) \<Rightarrow> ('t \<times> WinInspectWindow, unit) comp" where
  "gui_refresh request = andThen (on_vm (refresh request)) (\<lambda>_. on_window (\<lambda>g.
     case add_nodes (vm_tree (gw_vm g)) [] of (items, storage) \<Rightarrow> g\<lparr>gw_tree := items, gw_hwnd_storage := storage\<rparr>))"

definition update_props :: "WinInspectWindow \<Rightarrow> WinInspectWindow" where
  "update_props g = g\<lparr>gw_list := map (\<lambda>p. (shown (pr_key p), shown (pr_value p))) (vm_props (gw_vm g))\<rparr>"

definition TVN_SELCHANGEDW :: "32 word" where
  "TVN_SELCHANGEDW = - 451"

definition on_notify :: "(string \<Rightarrow> ('t, string) comp) \<Rightarrow> 32 word \<Rightarrow> nat \<Rightarrow> ('t \<times> WinInspectWindow, unit) comp" where
  "on_notify request code idx = (\<lambda>(t, g).
     if code = TVN_SELCHANGEDW \<and> idx < length (gw_hwnd_storage g)
     then andThen (on_vm (select_hwnd request (gw_hwnd_storage g ! idx))) (\<lambda>_. on_window update_props) (t, g)
     else (Ok (), t, g))"

text \<open>\<open>onSize\<close> for a client area of that width and height; a rectangle is given by its edges.\<close>

definition on_size :: "int \<Rightarrow> int \<Rightarrow> WinInspectWindow \<Rightarrow> WinInspectWindow" where
  "on_size w h g = g\<lparr>gw_layout := (\<lparr>left = 0, top_edge = 0, right = 250, bottom_edge = h\<rparr>,
     \<lparr>left = 250, top_edge = 0, right = 250 + (w - 250), bottom_edge = h\<rparr>)\<rparr>"

definition create_controls :: "WinInspectWindow \<Rightarrow> WinInspectWindow" where
  "create_controls g = g\<lparr>gw_tree := [], gw_list := [], gw_columns := [(widen ''Property'', 150), (widen ''Value'', 400)],
     gw_layout := (\<lparr>left = 0, top_edge = 0, right = 200, bottom_edge = 600\<rparr>,
       \<lparr>left = 200, top_edge = 0, right = 800, bottom_edge = 600\<rparr>)\<rparr>"

section \<open>Messages\<close>

datatype wm = WM_NCCREATE | WM_SIZE int int | WM_NOTIFY "32 word" nat | WM_DESTROY | WM_OTHER

text \<open>The result tells whether the message was dealt with; otherwise \<open>DefWindowProcW\<close> does it.\<close>

fun wnd_proc :: "(string \<Rightarrow> ('t, string) comp) \<Rightarrow> wm \<Rightarrow> ('t \<times> WinInspectWindow, bool) comp" where
  "wnd_proc request WM_NCCREATE (t, g) = (Ok False, t, g\<lparr>gw_attached := True\<rparr>)"
| "wnd_proc request m (t, g) =
     (if \<not> gw_attached g then (Ok False, t, g)
      else case m of
        WM_SIZE w h \<Rightarrow> (Ok True, t, on_size w h g)
      | WM_NOTIFY code idx \<Rightarrow> andThen (on_notify request code idx) (\<lambda>_. ret True) (t, g)
      | WM_DESTROY \<Rightarrow> (Ok True, t, g\<lparr>gw_quit := True\<rparr>)
      | _ \<Rightarrow> (Ok False, t, g))"

definition new_window :: WinInspectWindow where
  "new_window = \<lparr>gw_attached = False, gw_vm = \<lparr>vm_tree = [], vm_props = []\<rparr>, gw_columns = [], gw_tree = [], gw_hwnd_storage = [],
     gw_list = [], gw_layout = (zero_rect, zero_rect), gw_quit = False\<rparr>"

text \<open>\<open>init\<close>; \<open>registered\<close> and \<open>created\<close> tell whether the system registers the class and creates the window.\<close>

definition gui_init :: "(string \<Rightarrow> ('t, string) comp) \<Rightarrow> bool \<Rightarrow> bool \<Rightarrow> ('t \<times> WinInspectWindow, bool) comp" where
  "gui_init request registered created =
     (if \<not> registered \<or> \<not> created then ret False
      else andThen (wnd_proc request WM_NCCREATE) (\<lambda>_.
        andThen (on_window (\<lambda>g. create_controls (g\<lparr>gw_vm := \<lparr>vm_tree = [], vm_props = []\<rparr>\<rparr>))) (\<lambda>_. andThen (gui_refresh request) (\<lambda>_. ret True))))"

text \<open>The loop takes messages until the window is destroyed, and its caller has to supply them.\<close>

fun gui_loop :: "(string \<Rightarrow> ('t, string) comp) \<Rightarrow> wm list \<Rightarrow> ('t \<times> WinInspectWindow, unit) comp" where
  "gui_loop request [] = ret ()"
| "gui_loop request (m # ms) = (\<lambda>(t, g). if gw_quit g then (Ok (), t, g)
     else andThen (wnd_proc request m) (\<lambda>_. gui_loop request ms) (t, g))"

definition win_main :: "(string \<Rightarrow> ('t, string) comp) \<Rightarrow> bool \<Rightarrow> bool \<Rightarrow> wm list \<Rightarrow> ('t \<times> WinInspectWindow, nat) comp" where
  "win_main request registered created ms = andThen (gui_init request registered created) (\<lambda>ok.
     if \<not> ok then ret 1 else andThen (gui_loop request ms) (\<lambda>_. ret 0))"

section \<open>Items and handles\<close>

text \<open>The handles of nodes and the positions of items, both in the order of insertion.\<close>

fun node_handles :: "Node \<Rightarrow> string list" where
  "node_handles (Node h l children) = h # concat (map node_handles children)"

fun item_params :: "Item \<Rightarrow> nat list" where
  "item_params (Item l p children) = p # concat (map item_params children)"

lemma add_nodes_index:
  "add_node n storage = (item, storage1) \<Longrightarrow> storage1 = storage @ node_handles n \<and>
     item_params item = [length storage..<length storage1]"
  "add_nodes ns storage = (items, storage2) \<Longrightarrow> storage2 = storage @ concat (map node_handles ns) \<and>
     concat (map item_params items) = [length storage..<length storage2]"
proof (induction n storage and ns storage arbitrary: item storage1 and items storage2 rule: add_node_add_nodes.induct)
  case (1 h l children storage)
  obtain items' s' where r: "add_nodes children (storage @ [h]) = (items', s')" by fastforce
  have "s' = (storage @ [h]) @ concat (map node_handles children) \<and>
      concat (map item_params items') = [length (storage @ [h])..<length s']" using 1(1)[OF r] .
  then show ?case using 1(2) r by (auto simp: upt_conv_Cons simp del: upt_Suc)
next
  case (3 n ns storage)
  obtain item' s1 items' s2 where r: "add_node n storage = (item', s1)" "add_nodes ns s1 = (items', s2)" by fastforce
  have "s1 = storage @ node_handles n \<and> item_params item' = [length storage..<length s1]" using 3(1)[OF r(1)] .
  moreover have "s2 = s1 @ concat (map node_handles ns) \<and> concat (map item_params items') = [length s1..<length s2]"
    using 3(2)[OF r(1)[symmetric] _ r(2)] by simp
  ultimately show ?case using 3(3) r upt_add_eq_append[of "length storage" "length s1" "length (concat (map node_handles ns))"]
    by (auto simp: add.assoc)
qed auto

section \<open>What the window shows\<close>

context inspection_service
begin

lemma add_leaves: "add_nodes (map (\<lambda>h. Node h h []) hs) storage =
  (map (\<lambda>k. Item (shown (hs ! k)) (length storage + k) []) [0..<length hs], storage @ hs)"
  by (induction hs arbitrary: storage) (simp_all add: upt_conv_Cons map_Suc_upt[symmetric] comp_def del: upt_Suc)

lemma window_refreshed:
  assumes "ready t"
  shows "\<exists>t' g'. gui_refresh request (t, g) = (Ok (), t', g') \<and> gw_hwnd_storage g' = tops t \<and>
    gw_tree g' = map (\<lambda>k. Item (shown (tops t ! k)) k []) [0..<length (tops t)] \<and> gw_list g' = gw_list g"
  using refresh_shows[OF assms, of "gw_vm g"]
  by (auto simp: gui_refresh_def on_vm_def on_window_def andThen_def add_leaves)

lemma window_selected:
  assumes "ready t" "gw_attached g" "k < length (gw_hwnd_storage g)"
  shows "\<exists>t' g'. wnd_proc request (WM_NOTIFY TVN_SELCHANGEDW k) (t, g) = (Ok True, t', g') \<and>
    gw_tree g' = gw_tree g \<and> gw_hwnd_storage g' = gw_hwnd_storage g \<and>
    gw_list g' = (case info t (gw_hwnd_storage g ! k) of None \<Rightarrow> []
      | Some w \<Rightarrow> map (\<lambda>(k, v). (shown k, shown (dumps v))) w)"
  using select_shows[OF assms(1), of "gw_hwnd_storage g ! k" "gw_vm g"] assms(2,3)
  by (auto simp: on_notify_def on_vm_def on_window_def andThen_def update_props_def ret_def split: option.splits)

end



text \<open>C35: the graphical client does not survive a missing daemon. When the pipe cannot be opened, the transport
  answers with an object that has no result, the view model asks for one, and the exception leaves \<open>WinMain\<close>
  before the window is shown.\<close>

theorem gui_needs_daemon:
  assumes "\<not> pipe_there P t"
  shows "\<exists>g. win_main (transport_request P) True True ms (t, new_window) = (Throw bad_at, t, g)"
proof -
  have p: "parse no_daemon = Ok (Obj [(''error'', Str ''no daemon''), (''ok'', Bool False)])" by code_simp
  have "ask (transport_request P) msg (t, vm) = (Ok [(''error'', Str ''no daemon''), (''ok'', Bool False)], t, vm)" for msg vm
    using assms by (simp add: ask_def on_transport_def transport_request_def andThen_def lift_res_def p as_obj_def)
  then have "refresh (transport_request P) (t, vm) = (Throw bad_at, t, vm)" for vm
    by (simp add: refresh_def andThen_def lift_res_def snapshot_of_def obj_at_def)
  then show ?thesis
    by (simp add: win_main_def gui_init_def andThen_def on_window_def gui_refresh_def on_vm_def)
qed

theorem gui_needs_daemon_witness:
  "\<exists>g. win_main (transport_request \<lparr>pipe_there = \<lambda>_. False, pipe_exchange = \<lambda>_ t. ([], t)\<rparr>) True True [] ((), new_window) = (Throw bad_at, (), g)"
  by (rule gui_needs_daemon) simp

text \<open>A pipe on which the answer arrives as it was written, first the length and then the text.\<close>

lemma transport_answered:
  assumes "pipe_there P t" "length json < 2 ^ 32" "pipe_exchange P (frame json) t = ([le32 (length resp), resp], t')"
    and "length resp < 2 ^ 32"
  shows "transport_request P json t = (Ok resp, t')"
  using assms by (simp add: transport_request_def frame_def os_read_def length_le32 un_le32_le32)

end
