(* ===== verification/Win32_Windows.thy ===== *)
theory Win32_Windows
  imports Win32_Api
begin

text \<open>
  The methods of \<open>Win32Backend\<close> in \<open>core/src/win32_backend.cpp\<close> that look at windows and the screen, act on
  windows and inject input.
\<close>

unbundle bit_operations_syntax

section \<open>Snapshots and windows\<close>

text \<open>The callback refuses to go on once it has seen 5000 windows.\<close>

definition win32_capture_snapshot :: "('o, 'e) Windows \<Rightarrow> ('o Win32, Snapshot) comp" where
  "win32_capture_snapshot A = ask_os (\<lambda>o'. \<lparr>top = take 5000 (enum_windows (user A) o')\<rparr>)"

definition win32_list_top :: "Snapshot \<Rightarrow> ('o Win32, hwnd_u64 list) comp" where
  "win32_list_top s = ret (top s)"

definition win32_list_children :: "('o, 'e) Windows \<Rightarrow> Snapshot \<Rightarrow> hwnd_u64 \<Rightarrow> ('o Win32, hwnd_u64 list) comp" where
  "win32_list_children A s parent = ask_os (enum_child_windows (user A) parent)"

definition ws_flags :: "(64 word \<times> string) list" where
  "ws_flags =
     [(0x00000000, ''WS_OVERLAPPED''), (0x80000000, ''WS_POPUP''), (0x40000000, ''WS_CHILD''),
      (0x20000000, ''WS_MINIMIZE''), (0x10000000, ''WS_VISIBLE''), (0x08000000, ''WS_DISABLED''),
      (0x04000000, ''WS_CLIPSIBLINGS''), (0x02000000, ''WS_CLIPCHILDREN''), (0x01000000, ''WS_MAXIMIZE''),
      (0x00C00000, ''WS_CAPTION''), (0x00800000, ''WS_BORDER''), (0x00400000, ''WS_DLGFRAME''),
      (0x00200000, ''WS_VSCROLL''), (0x00100000, ''WS_VSCROLL''), (0x00080000, ''WS_SYSMENU''),
      (0x00040000, ''WS_THICKFRAME''), (0x00020000, ''WS_GROUP''), (0x00010000, ''WS_TABSTOP''),
      (0x00020000, ''WS_MINIMIZEBOX''), (0x00010000, ''WS_MAXIMIZEBOX'')]"

definition parse_ws :: "64 word \<Rightarrow> string list" where
  "parse_ws style =
     map snd (filter (\<lambda>f. style AND fst f = fst f \<and> fst f \<noteq> 0) ws_flags) @
     (if style = 0 then [''WS_OVERLAPPED''] else [])"

definition ws_ex_flags :: "(64 word \<times> string) list" where
  "ws_ex_flags =
     [(0x00000001, ''WS_EX_DLGMODALFRAME''), (0x00000004, ''WS_EX_NOPARENTNOTIFY''), (0x00000008, ''WS_EX_TOPMOST''),
      (0x00000010, ''WS_EX_ACCEPTFILES''), (0x00000020, ''WS_EX_TRANSPARENT''), (0x00000040, ''WS_EX_MDICHILD''),
      (0x00000080, ''WS_EX_TOOLWINDOW''), (0x00000100, ''WS_EX_WINDOWEDGE''), (0x00000200, ''WS_EX_CLIENTEDGE''),
      (0x00000400, ''WS_EX_CONTEXTHELP''), (0x00001000, ''WS_EX_RIGHT''), (0x00000000, ''WS_EX_LEFT''),
      (0x00002000, ''WS_EX_RTLREADING''), (0x00000000, ''WS_EX_LTRREADING''), (0x00004000, ''WS_EX_LEFTSCROLLBAR''),
      (0x00000000, ''WS_EX_RIGHTSCROLLBAR''), (0x00010000, ''WS_EX_CONTROLPARENT''), (0x00020000, ''WS_EX_STATICEDGE''),
      (0x00040000, ''WS_EX_APPWINDOW''), (0x00080000, ''WS_EX_LAYERED''), (0x00100000, ''WS_EX_NOINHERITLAYOUT''),
      (0x00400000, ''WS_EX_LAYOUTRTL''), (0x02000000, ''WS_EX_COMPOSITED''), (0x08000000, ''WS_EX_NOACTIVATE'')]"

definition parse_ws_ex :: "64 word \<Rightarrow> string list" where
  "parse_ws_ex exstyle = map snd (filter (\<lambda>f. exstyle AND fst f = fst f) ws_ex_flags)"

text \<open>A failing call leaves the zero-initialised structure.\<close>

definition or_zero :: "Rect option \<Rightarrow> Rect" where
  "or_zero r = (case r of None \<Rightarrow> zero_rect | Some r \<Rightarrow> r)"

definition info_at :: "('o, 'e) Windows \<Rightarrow> hwnd_u64 \<Rightarrow> 'o \<Rightarrow> WindowInfo" where
  "info_at A h o' =
     (let cr = or_zero (client_rect_of (user A) h o');
          (x, y) = (case client_origin (user A) h o' of None \<Rightarrow> (0, 0) | Some pt \<Rightarrow> pt);
          pid = process_of (user A) h o'
      in \<lparr>wi_hwnd = h, wi_parent = parent_of (user A) h o', wi_owner = owner_of (user A) h o',
          wi_class_name = w2u8 A (get_class_name_w A h o'), wi_title = w2u8 A (get_window_text_w A h o'),
          window_rect = or_zero (window_rect_of (user A) h o'), client_rect = cr,
          screen_rect = \<lparr>left = x, top_edge = y, right = x + (right cr - left cr),
            bottom_edge = y + (bottom_edge cr - top_edge cr)\<rparr>,
          wi_pid = pid, wi_tid = thread_of (user A) h o', wi_style = style_of (user A) h o', wi_exstyle = exstyle_of (user A) h o',
          style_flags = parse_ws (style_of (user A) h o'), ex_style_flags = parse_ws_ex (exstyle_of (user A) h o'),
          wi_visible = is_visible (user A) h o', wi_enabled = is_enabled (user A) h o', wi_iconic = is_iconic (user A) h o',
          wi_zoomed = is_zoomed (user A) h o', process_image = try_process_image_path A pid o'\<rparr>)"

definition win32_get_info :: "('o, 'e) Windows \<Rightarrow> Snapshot \<Rightarrow> hwnd_u64 \<Rightarrow> ('o Win32, WindowInfo option) comp" where
  "win32_get_info A s h = ask_os (\<lambda>o'. if \<not> is_window (user A) h o' then None else Some (info_at A h o'))"

definition win32_pick_at_point ::
  "('o, 'e) Windows \<Rightarrow> Snapshot \<Rightarrow> int \<Rightarrow> int \<Rightarrow> PickFlags \<Rightarrow> ('o Win32, hwnd_u64 option) comp" where
  "win32_pick_at_point A s x y flags = ask_os (\<lambda>o'.
     let h = window_from_point (user A) (x, y) o' in
     if h = 0 then None
     else if prefer_child flags then
       (let child = child_from_point (user A) h (x, y) (ignore_transparent flags) o'
        in Some (if child \<noteq> 0 then child else h))
     else Some h)"

text \<open>
  The recursive lambda \<open>build_node\<close> and its loop over siblings: the nodes of a window and of the windows
  after it. \<open>None\<close> is a recursion that does not end.
\<close>

partial_function (option) nodes_from :: "('o, 'e) Windows \<Rightarrow> 'o \<Rightarrow> hwnd_u64 \<Rightarrow> WindowNode list option" where
  "nodes_from A o' child =
     (if child = 0 then Some []
      else Option.bind (nodes_from A o' (first_child (user A) child o')) (\<lambda>children.
        Option.bind (nodes_from A o' (next_sibling (user A) child o')) (\<lambda>rest.
          Some (WindowNode child (w2u8 A (get_window_text_w A child o')) (w2u8 A (get_class_name_w A child o')) children # rest))))"

definition win32_build_node :: "('o, 'e) Windows \<Rightarrow> 'o \<Rightarrow> hwnd_u64 \<Rightarrow> WindowNode option" where
  "win32_build_node A o' h = map_option
     (WindowNode h (w2u8 A (get_window_text_w A h o')) (w2u8 A (get_class_name_w A h o')))
     (nodes_from A o' (first_child (user A) h o'))"

definition win32_get_window_tree :: "('o, 'e) Windows \<Rightarrow> Snapshot \<Rightarrow> hwnd_u64 \<Rightarrow> ('o Win32, WindowNode list) comp" where
  "win32_get_window_tree A s root_u =
     (if root_u = 0
      then ask_os (\<lambda>o'. map (\<lambda>h. WindowNode h (w2u8 A (get_window_text_w A h o')) (w2u8 A (get_class_name_w A h o')) [])
        (enum_windows (user A) o'))
      else andThen (ask_os (\<lambda>o'. win32_build_node A o' root_u)) (\<lambda>n. andThen (defined n) (\<lambda>node. ret [node])))"

section \<open>Changing windows\<close>

definition win32_ensure_visible :: "('o, 'e) Windows \<Rightarrow> hwnd_u64 \<Rightarrow> bool \<Rightarrow> ('o Win32, bool) comp" where
  "win32_ensure_visible A h visible = run_os (\<lambda>o'.
     if \<not> is_window (user A) h o' then (False, o')
     else if is_visible (user A) h o' = visible then (False, o')
     else (True, show_window (input A) h visible o'))"

definition win32_ensure_foreground :: "('o, 'e) Windows \<Rightarrow> hwnd_u64 \<Rightarrow> ('o Win32, bool) comp" where
  "win32_ensure_foreground A h = run_os (\<lambda>o'.
     if \<not> is_window (user A) h o' then (False, o')
     else if foreground_window (user A) o' = h then (False, o')
     else (True, set_foreground_window (input A) h o'))"

definition win32_post_message ::
  "('o, 'e) Windows \<Rightarrow> hwnd_u64 \<Rightarrow> 32 word \<Rightarrow> 64 word \<Rightarrow> 64 word \<Rightarrow> ('o Win32, bool) comp" where
  "win32_post_message A h msg wparam lparam = run_os (\<lambda>o'.
     if \<not> is_window (user A) h o' then (False, o') else post_message_w (input A) h msg wparam lparam o')"

definition win32_set_property :: "('o, 'e) Windows \<Rightarrow> hwnd_u64 \<Rightarrow> string \<Rightarrow> string \<Rightarrow> ('o Win32, bool) comp" where
  "win32_set_property A h name val =
     andThen (ask_os (is_window (user A) h)) (\<lambda>ok.
       if \<not> ok then ret False
       else if name = ''topmost'' then run_os (set_topmost (input A) h (val = ''true''))
       else if name = ''opacity'' then
         andThen (lift_res (stoi val)) (\<lambda>n.
           let alpha = (if n < 0 then 0 else if n > 255 then 255 else n) in
           andThen (change_os (\<lambda>o'. set_exstyle (input A) h (exstyle_of (user A) h o' OR 0x00080000) o')) (\<lambda>_.
             run_os (set_alpha (input A) h (word_of_int alpha))))
       else ret False)"

text \<open>Three flashes of a red frame. The rectangle is not initialised, so a failing \<open>GetWindowRect\<close> leaves it undefined.\<close>

definition win32_highlight_window :: "('o, 'e) Windows \<Rightarrow> hwnd_u64 \<Rightarrow> ('o Win32, bool) comp" where
  "win32_highlight_window A h =
     andThen (ask_os (\<lambda>o'. is_window (user A) h o' \<and> screen_dc (gdi A) o')) (\<lambda>ok.
       if \<not> ok then ret False
       else andThen (ask_os (window_rect_of (user A) h)) (\<lambda>rect. andThen (defined rect) (\<lambda>r.
         andThen (change_os ((\<lambda>o'. invalidate (gdi A) r (draw_rectangle (gdi A) r o')) ^^ 3)) (\<lambda>_. ret True))))"

text \<open>\<open>MAKELPARAM\<close>: two 16-bit halves in a 32-bit \<open>LONG\<close>, extended to the width of \<open>LPARAM\<close>.\<close>

definition makelparam :: "int \<Rightarrow> int \<Rightarrow> 64 word" where
  "makelparam x y = scast (((word_of_int x AND 0xFFFF) OR push_bit 16 (word_of_int y AND 0xFFFF)) :: 32 word)"

definition button_messages :: "int \<Rightarrow> 32 word \<times> 32 word" where
  "button_messages button =
     (if button = 1 then (0x0204, 0x0205) else if button = 2 then (0x0207, 0x0208) else (0x0201, 0x0202))"

definition win32_control_click :: "('o, 'e) Windows \<Rightarrow> hwnd_u64 \<Rightarrow> int \<Rightarrow> int \<Rightarrow> int \<Rightarrow> ('o Win32, bool) comp" where
  "win32_control_click A h x y button = run_os (\<lambda>o'.
     if \<not> is_window (user A) h o' then (False, o')
     else let lp = makelparam x y; (down, up) = button_messages button
       in (True, snd (post_message_w (input A) h up 0 lp (snd (post_message_w (input A) h down 1 lp o')))))"

definition win32_control_send :: "('o, 'e) Windows \<Rightarrow> hwnd_u64 \<Rightarrow> string \<Rightarrow> ('o Win32, bool) comp" where
  "win32_control_send A h s = run_os (\<lambda>o'.
     if \<not> is_window (user A) h o' then (False, o')
     else (True, fold (\<lambda>c o'. snd (post_message_w (input A) h 0x0102 (ucast c) 0 o')) (u8_to_wide A s) o'))"

section \<open>Input\<close>

text \<open>\<open>sizeof(INPUT)\<close> is 40 on 64-bit Windows.\<close>

definition win32_send_input :: "('o, 'e) Windows \<Rightarrow> bytes \<Rightarrow> ('o Win32, bool) comp" where
  "win32_send_input A raw =
     (if raw = [] \<or> length raw mod 40 \<noteq> 0 then ret False
      else let count = length raw div 40 in
        run_os (\<lambda>o'. case send_inputs (input A) (map (\<lambda>k. RawInput (take 40 (drop (40 * k) raw))) [0..<count]) o' of
          (n, o'') \<Rightarrow> (n = count, o'')))"

text \<open>The division of C++, towards zero; a product outside \<open>int\<close> is undefined.\<close>

definition cdiv :: "int \<Rightarrow> int \<Rightarrow> int" where
  "cdiv a b = sgn a * sgn b * (\<bar>a\<bar> div \<bar>b\<bar>)"

definition normalize_coord :: "int \<Rightarrow> int \<Rightarrow> int option" where
  "normalize_coord x extent = (if - (2 ^ 31) \<le> x * 65535 \<and> x * 65535 < 2 ^ 31
     then Some (cdiv (x * 65535) (if extent = 0 then 1 else extent)) else None)"

definition click_flags :: "int \<Rightarrow> (32 word \<times> 32 word) option" where
  "click_flags button =
     (if button = 0 then Some (0x8001 OR 0x0002, 0x8000 OR 0x0004)
      else if button = 1 then Some (0x8001 OR 0x0008, 0x8000 OR 0x0010)
      else if button = 2 then Some (0x8001 OR 0x0020, 0x8000 OR 0x0040)
      else None)"

definition win32_send_mouse_click :: "('o, 'e) Windows \<Rightarrow> int \<Rightarrow> int \<Rightarrow> int \<Rightarrow> ('o Win32, bool) comp" where
  "win32_send_mouse_click A x y button =
     andThen (ask_os (screen_size (input A))) (\<lambda>(sw, sh).
     andThen (defined (normalize_coord x sw)) (\<lambda>nx.
     andThen (defined (normalize_coord y sh)) (\<lambda>ny.
       case click_flags button of None \<Rightarrow> ret False
       | Some (down, up) \<Rightarrow>
           run_os (\<lambda>o'. case send_inputs (input A) [MouseInput nx ny down, MouseInput nx ny up] o' of (n, o'') \<Rightarrow> (n = 2, o'')))))"

definition win32_send_key_press :: "('o, 'e) Windows \<Rightarrow> int \<Rightarrow> ('o Win32, bool) comp" where
  "win32_send_key_press A vk =
     run_os (\<lambda>o'. case send_inputs (input A) [KeyInput (word_of_int vk) 0 0, KeyInput (word_of_int vk) 0 2] o' of
       (n, o'') \<Rightarrow> (n = 2, o''))"

definition text_inputs :: "wide \<Rightarrow> INPUT list" where
  "text_inputs ws = concat (map (\<lambda>c. [KeyInput 0 c 4, KeyInput 0 c (4 OR 2)]) ws)"

definition win32_send_text :: "('o, 'e) Windows \<Rightarrow> string \<Rightarrow> ('o Win32, bool) comp" where
  "win32_send_text A s =
     (let inputs = text_inputs (u8_to_wide A s) in
      if inputs = [] then ret True
      else run_os (\<lambda>o'. case send_inputs (input A) inputs o' of (n, o'') \<Rightarrow> (n = length inputs, o'')))"

section \<open>The screen\<close>

definition color_of :: "32 word \<Rightarrow> Color" where
  "color_of c = \<lparr>red = ucast c, green = ucast (drop_bit 8 c), blue = ucast (drop_bit 16 c)\<rparr>"

definition win32_get_pixel :: "('o, 'e) Windows \<Rightarrow> int \<Rightarrow> int \<Rightarrow> ('o Win32, Color option) comp" where
  "win32_get_pixel A x y = ask_os (\<lambda>o'.
     if \<not> screen_dc (gdi A) o' then None
     else let c = pixel_at (gdi A) x y o' in if c = 0xFFFFFFFF then None else Some (color_of c))"

definition near :: "8 word \<Rightarrow> 8 word \<Rightarrow> int \<Rightarrow> bool" where
  "near a b variation \<longleftrightarrow> \<bar>uint a - uint b\<bar> \<le> variation"

definition pixel_matches :: "Color \<Rightarrow> int \<Rightarrow> 32 word \<Rightarrow> bool" where
  "pixel_matches target variation c \<longleftrightarrow> c \<noteq> 0xFFFFFFFF \<and>
     near (red (color_of c)) (red target) variation \<and> near (green (color_of c)) (green target) variation \<and>
     near (blue (color_of c)) (blue target) variation"

text \<open>The two loops, rows first; the first point that matches is the result.\<close>

definition scan_points :: "Rect \<Rightarrow> (int \<times> int) list" where
  "scan_points region = concat (map (\<lambda>y. map (\<lambda>x. (x, y)) [left region..right region - 1])
     [top_edge region..bottom_edge region - 1])"

definition win32_pixel_search :: "('o, 'e) Windows \<Rightarrow> Rect \<Rightarrow> Color \<Rightarrow> int \<Rightarrow> ('o Win32, (int \<times> int) option) comp" where
  "win32_pixel_search A region target variation = ask_os (\<lambda>o'.
     if \<not> screen_dc (gdi A) o' then None
     else find (\<lambda>(x, y). pixel_matches target variation (pixel_at (gdi A) x y o')) (scan_points region))"

text \<open>A bitmap file: the two headers as they lie in memory, then the rows \<open>GetDIBits\<close> writes.\<close>

definition le_bytes :: "nat \<Rightarrow> int \<Rightarrow> bytes" where
  "le_bytes n i = map (\<lambda>k. word_of_int (i div 2 ^ (8 * k))) [0..<n]"

definition bmp_headers :: "int \<Rightarrow> int \<Rightarrow> int \<Rightarrow> bytes" where
  "bmp_headers w h bfsize =
     le_bytes 2 0x4D42 @ le_bytes 4 bfsize @ le_bytes 2 0 @ le_bytes 2 0 @ le_bytes 4 54 @
     le_bytes 4 40 @ le_bytes 4 w @ le_bytes 4 h @ le_bytes 2 1 @ le_bytes 2 24 @ le_bytes 4 0 @
     le_bytes 4 0 @ le_bytes 4 0 @ le_bytes 4 0 @ le_bytes 4 0 @ le_bytes 4 0"

text \<open>
  The buffer has the size of the screen's own bitmap, with \<open>stride\<close> bytes a row; \<open>GetDIBits\<close> writes rows of
  24-bit pixels. More than the buffer holds is undefined, and so is a width or height outside \<open>int\<close>.
\<close>

definition bmp_file :: "int \<Rightarrow> int \<Rightarrow> int \<Rightarrow> bytes \<Rightarrow> bytes option" where
  "bmp_file w h stride bits =
     (let bfsize = 54 + stride * h in
      if bfsize < 54 \<or> bfsize < 54 + int (length bits) \<or> 2 ^ 31 \<le> bfsize then None
      else Some (bmp_headers w h bfsize @ bits @ replicate (nat bfsize - 54 - length bits) 0))"

definition int_range :: "int \<Rightarrow> bool" where
  "int_range i \<longleftrightarrow> - (2 ^ 31) \<le> i \<and> i < 2 ^ 31"

definition win32_capture_screen :: "('o, 'e) Windows \<Rightarrow> Rect \<Rightarrow> ('o Win32, ScreenCapture option) comp" where
  "win32_capture_screen A region =
     (let w = right region - left region; h = bottom_edge region - top_edge region in
      if \<not> int_range w \<or> \<not> int_range h then stuck
      else if w \<le> 0 \<or> h \<le> 0 then ret None
      else andThen (ask_os (\<lambda>o'. Option.bind (bitmap_stride (gdi A) w h o') (\<lambda>stride. bmp_file w h stride (dib_bits (gdi A) region o')))) (\<lambda>file.
        andThen (defined file) (\<lambda>buffer.
          ret (Some \<lparr>sc_width = w, sc_height = h, sc_data_b64 = encode buffer\<rparr>))))"

section \<open>UI Automation\<close>

definition get_element_info :: "('o, 'e) Windows \<Rightarrow> 'o \<Rightarrow> 'e \<Rightarrow> UIElementInfo list \<Rightarrow> UIElementInfo" where
  "get_element_info A o' e children =
     (let str = (\<lambda>x. case x of None \<Rightarrow> [] | Some ws \<Rightarrow> w2u8 A ws) in
      UIElementInfo (str (uia_automation_id (uia A) e o')) (str (uia_name (uia A) e o')) (str (uia_class_name (uia A) e o'))
        (case uia_control_type (uia A) e o' of None \<Rightarrow> [] | Some t \<Rightarrow> to_string_int t)
        (or_zero (uia_rect (uia A) e o'))
        (case uia_enabled (uia A) e o' of None \<Rightarrow> False | Some b \<Rightarrow> b)
        (case uia_offscreen (uia A) e o' of None \<Rightarrow> False | Some b \<Rightarrow> \<not> b)
        children)"

text \<open>The walk with \<open>n\<close> levels left, that is \<open>max_depth - depth + 1\<close>.\<close>

fun walk_uia_tree :: "('o, 'e) Windows \<Rightarrow> 'o \<Rightarrow> nat \<Rightarrow> 'e \<Rightarrow> UIElementInfo list" where
  "walk_uia_tree A o' 0 top_el = []"
| "walk_uia_tree A o' (Suc n) top_el =
     map (\<lambda>e. get_element_info A o' e (walk_uia_tree A o' n e)) (uia_children (uia A) top_el o')"

definition uia_root :: "('o, 'e) Windows \<Rightarrow> hwnd_u64 \<Rightarrow> 'o \<Rightarrow> 'e option" where
  "uia_root A h o' =
     (if create_automation (uia A) o' \<and> is_window (user A) h o' then element_from_handle (uia A) h o' else None)"

definition win32_inspect_ui_elements :: "('o, 'e) Windows \<Rightarrow> hwnd_u64 \<Rightarrow> ('o Win32, UIElementInfo list) comp" where
  "win32_inspect_ui_elements A h = (\<lambda>s.
     let o' = w32_os s in
     (Ok (case uia_root A h o' of None \<Rightarrow> []
        | Some top_el \<Rightarrow> if true_condition (uia A) o' then walk_uia_tree A o' (nat (w32_uia_depth s + 1)) top_el else []), s))"

definition win32_invoke_ui_element :: "('o, 'e) Windows \<Rightarrow> hwnd_u64 \<Rightarrow> string \<Rightarrow> ('o Win32, bool) comp" where
  "win32_invoke_ui_element A h aid = run_os (\<lambda>o'.
     case Option.bind (uia_root A h o') (\<lambda>top_el. uia_find (uia A) top_el (c_wide (widen aid)) o') of
       None \<Rightarrow> (False, o')
     | Some target \<Rightarrow> uia_invoke (uia A) target o')"

section \<open>Events\<close>

text \<open>\<open>std::set_difference\<close> on sorted ranges.\<close>

fun set_difference :: "'a::linorder list \<Rightarrow> 'a list \<Rightarrow> 'a list" where
  "set_difference [] ys = []"
| "set_difference xs [] = xs"
| "set_difference (x # xs) (y # ys) =
     (if x < y then x # set_difference xs (y # ys)
      else if y < x then set_difference (x # xs) ys
      else set_difference xs ys)"

definition window_event :: "string \<Rightarrow> hwnd_u64 \<Rightarrow> Event" where
  "window_event t h = \<lparr>seq = 0, ev_type = t, ev_hwnd = h, ev_property = []\<rparr>"

definition win32_poll_events :: "Snapshot \<Rightarrow> Snapshot \<Rightarrow> ('o Win32, Event list) comp" where
  "win32_poll_events old_snap new_snap =
     (let ol = sort (top old_snap); n = sort (top new_snap) in
      ret (map (window_event ''window.created'') (set_difference n ol) @
           map (window_event ''window.destroyed'') (set_difference ol n)))"

end
