(* ===== verification/Win32_System.thy ===== *)
theory Win32_System
  imports Win32_Api
begin

text \<open>
  The methods of \<open>Win32Backend\<close> in \<open>core/src/win32_backend.cpp\<close> on processes, memory, files, the registry, the
  clipboard, services, the environment, drives, mutexes, capabilities and updates.
\<close>

unbundle bit_operations_syntax

section \<open>Processes and memory\<close>

definition win32_list_processes :: "('o, 'e) Windows \<Rightarrow> ('o Win32, ProcessInfo list) comp" where
  "win32_list_processes A = ask_os (\<lambda>o'. case toolhelp_processes (kernel A) o' of None \<Rightarrow> []
     | Some ps \<Rightarrow> map (\<lambda>(pid, exe). \<lparr>pr_pid = pid, pr_name = w2u8 A (c_wide exe), pr_path = try_process_image_path A pid o'\<rparr>) ps)"

definition win32_kill_process :: "('o, 'e) Windows \<Rightarrow> 32 word \<Rightarrow> ('o Win32, bool) comp" where
  "win32_kill_process A pid = run_os (\<lambda>o'.
     if \<not> open_process (kernel A) 1 pid o' then (False, o') else terminate_process (kernel A) pid o')"

definition win32_mem_read ::
  "('o, 'e) Windows \<Rightarrow> 32 word \<Rightarrow> 64 word \<Rightarrow> 64 word \<Rightarrow> ('o Win32, MemoryRegion option) comp" where
  "win32_mem_read A pid address n = (\<lambda>s.
     let o' = w32_os s; k = (if n > w32_max_mem_read s then w32_max_mem_read s else n) in
     (Ok (if \<not> open_process (kernel A) 0x10 pid o' then None
          else case read_process_memory (kernel A) pid address (unat k) o' of None \<Rightarrow> None
            | Some bs \<Rightarrow> Some \<lparr>mr_address = address, mr_data_b64 = encode (take (unat k) bs)\<rparr>), s))"

definition win32_mem_write :: "('o, 'e) Windows \<Rightarrow> 32 word \<Rightarrow> 64 word \<Rightarrow> bytes \<Rightarrow> ('o Win32, bool) comp" where
  "win32_mem_write A pid address bs = run_os (\<lambda>o'.
     if \<not> open_process (kernel A) 0x28 pid o' then (False, o') else write_process_memory (kernel A) pid address bs o')"

section \<open>Files\<close>

definition win32_get_file_info :: "('o, 'e) Windows \<Rightarrow> string \<Rightarrow> ('o Win32, FileInfo option) comp" where
  "win32_get_file_info A path = ask_os (\<lambda>o'. case file_attributes (kernel A) (c_wide (widen path)) o' of None \<Rightarrow> None
     | Some (attrs, high, low) \<Rightarrow> Some \<lparr>fi_path = path, fi_size = push_bit 32 (ucast high) OR ucast low,
         fi_is_directory = (attrs AND 0x10 \<noteq> 0), fi_last_modified = ''TODO''\<rparr>)"

text \<open>The result of \<open>ReadFile\<close> is not looked at: what it did not fill stays zero.\<close>

definition win32_read_file_content :: "('o, 'e) Windows \<Rightarrow> string \<Rightarrow> ('o Win32, string option) comp" where
  "win32_read_file_content A path = ask_os (\<lambda>o'. let f = c_wide (widen path) in
     if \<not> open_file (kernel A) f o' then None
     else let n = unat (file_size (kernel A) f o'); bs = take n (read_file (kernel A) f n o')
       in Some (bs @ replicate (n - length bs) (CHR 0x00)))"

section \<open>Finding windows\<close>

text \<open>An invalid pattern throws before any window is looked at.\<close>

definition win32_find_windows_regex :: "('o, 'e) Windows \<Rightarrow> string \<Rightarrow> string \<Rightarrow> ('o Win32, hwnd_u64 list) comp" where
  "win32_find_windows_regex A title_re class_re =
     andThen (lift_res (regex_compiles (platform A) title_re)) (\<lambda>_.
     andThen (lift_res (regex_compiles (platform A) class_re)) (\<lambda>_.
       ask_os (\<lambda>o'. filter (\<lambda>h. regex_search (platform A) title_re (w2u8 A (get_window_text_w A h o')) \<and>
         regex_search (platform A) class_re (w2u8 A (get_class_name_w A h o'))) (enum_windows (user A) o'))))"

section \<open>The registry\<close>

definition parse_hkey :: "string \<Rightarrow> HKEY option \<times> string" where
  "parse_hkey path =
     (let head = takeWhile (\<lambda>c. c \<noteq> CHR 0x5C) path; subpath = drop (Suc (length head)) path in
      (if head = ''HKEY_LOCAL_MACHINE'' \<or> head = ''HKLM'' then Some HKLM
       else if head = ''HKEY_CURRENT_USER'' \<or> head = ''HKCU'' then Some HKCU
       else if head = ''HKEY_CLASSES_ROOT'' \<or> head = ''HKCR'' then Some HKCR
       else if head = ''HKEY_USERS'' \<or> head = ''HKU'' then Some HKU
       else None, subpath))"

text \<open>
  The value types, and the two ways the data are read: a wide string up to its zero, and four bytes. Data
  without a zero, or too short for a number, leave what was in the buffer before, which is not defined.
\<close>

definition wide_of_bytes :: "bytes \<Rightarrow> wide" where
  "wide_of_bytes bs = map (\<lambda>k. ucast (bs ! (2 * k)) OR push_bit 8 (ucast (bs ! (2 * k + 1)))) [0..<length bs div 2]"

definition value_data :: "('o, 'e) Windows \<Rightarrow> 32 word \<Rightarrow> bytes \<Rightarrow> (string \<times> string) option" where
  "value_data A t bs =
     (if t = 1 then (let ws = wide_of_bytes bs in if 0 \<in> set ws then Some (''SZ'', w2u8 A (c_wide ws)) else None)
      else if t = 4 then (if length bs < 4 then None
        else Some (''DWORD'', to_string_nat (unat (bs ! 0) + 256 * unat (bs ! 1) + 65536 * unat (bs ! 2) + 16777216 * unat (bs ! 3))))
      else Some (''BINARY'', ''(binary data)''))"

text \<open>The two loops over \<open>RegEnumKeyExW\<close> and \<open>RegEnumValueW\<close>: the first name or value that does not fit ends them.\<close>

definition fitting_names :: "wide list \<Rightarrow> wide list" where
  "fitting_names ns = takeWhile (\<lambda>n. length n < 256) ns"

definition fitting_values :: "(wide \<times> 32 word \<times> bytes) list \<Rightarrow> (wide \<times> 32 word \<times> bytes) list" where
  "fitting_values vs = takeWhile (\<lambda>(n, t, bs). length n < 256 \<and> length bs \<le> 4096) vs"

definition registry_value :: "('o, 'e) Windows \<Rightarrow> wide \<times> 32 word \<times> bytes \<Rightarrow> RegistryValue option" where
  "registry_value A v = (case v of (n, t, bs) \<Rightarrow> map_option (\<lambda>(ty, d). \<lparr>rv_name = w2u8 A (c_wide n), rv_type = ty, rv_data = d\<rparr>)
     (value_data A t bs))"

definition win32_reg_read :: "('o, 'e) Windows \<Rightarrow> string \<Rightarrow> ('o Win32, RegistryKeyInfo option) comp" where
  "win32_reg_read A path = (case parse_hkey path of
     (None, subpath) \<Rightarrow> ret None
   | (Some hive, subpath) \<Rightarrow> (let k = c_wide (widen subpath) in
       andThen (ask_os (open_key (advapi A) hive k)) (\<lambda>ok.
         if \<not> ok then ret None
         else andThen (ask_os (key_names (advapi A) hive k)) (\<lambda>ns.
           andThen (ask_os (\<lambda>o'. those (map (registry_value A) (fitting_values (key_values (advapi A) hive k o'))))) (\<lambda>vs.
             andThen (defined vs) (\<lambda>vals.
               ret (Some \<lparr>rk_path = path, rk_subkeys = map (\<lambda>n. w2u8 A (c_wide n)) (fitting_names ns), rk_values = vals\<rparr>)))))))"

text \<open>\<open>std::stoul\<close>: \<open>unsigned long\<close> has 32 bits on Windows; a minus sign negates.\<close>

definition stoul :: "string \<Rightarrow> 32 word res" where
  "stoul s =
     (let (neg, t) = read_sign (dropWhile isspace s); ds = takeWhile isdigit t; n = digits_val 10 ds
      in if ds = [] then Throw (InvalidArgument ''stoul'')
         else if 2 ^ 32 \<le> n then Throw (OutOfRange ''stoul'')
         else Ok (if neg then - of_nat n else of_nat n))"

definition wide_bytes :: "wide \<Rightarrow> bytes" where
  "wide_bytes ws = concat (map (\<lambda>c. [ucast c, ucast (drop_bit 8 c)]) ws)"

definition dword_bytes :: "32 word \<Rightarrow> bytes" where
  "dword_bytes d = [ucast d, ucast (drop_bit 8 d), ucast (drop_bit 16 d), ucast (drop_bit 24 d)]"

text \<open>The key is created before the type of the value is looked at.\<close>

definition win32_reg_write :: "('o, 'e) Windows \<Rightarrow> string \<Rightarrow> RegistryValue \<Rightarrow> ('o Win32, bool) comp" where
  "win32_reg_write A path val = (case parse_hkey path of
     (None, subpath) \<Rightarrow> ret False
   | (Some hive, subpath) \<Rightarrow> (let k = c_wide (widen subpath); n = c_wide (widen (rv_name val)) in
       andThen (run_os (create_key (advapi A) hive k)) (\<lambda>ok.
         if \<not> ok then ret False
         else if rv_type val = ''SZ'' then run_os (set_value (advapi A) hive k n 1 (wide_bytes (widen (rv_data val) @ [0])))
         else if rv_type val = ''DWORD'' then
           andThen (lift_res (stoul (rv_data val))) (\<lambda>d. run_os (set_value (advapi A) hive k n 4 (dword_bytes d)))
         else ret False)))"

definition win32_reg_delete :: "('o, 'e) Windows \<Rightarrow> string \<Rightarrow> string \<Rightarrow> ('o Win32, bool) comp" where
  "win32_reg_delete A path value_name = (case parse_hkey path of
     (None, subpath) \<Rightarrow> ret False
   | (Some hive, subpath) \<Rightarrow> (let k = c_wide (widen subpath) in
       if value_name = [] then run_os (delete_key (advapi A) hive k)
       else run_os (\<lambda>o'. if \<not> open_key (advapi A) hive k o' then (False, o')
         else delete_value (advapi A) hive k (c_wide (widen value_name)) o')))"

definition win32_reg_subscribe :: "string \<Rightarrow> ('o Win32, bool) comp" where
  "win32_reg_subscribe path = ret True"

section \<open>The clipboard\<close>

text \<open>\<open>Some None\<close> is data that cannot be locked.\<close>

definition win32_clipboard_read :: "('o, 'e) Windows \<Rightarrow> ('o Win32, string option) comp" where
  "win32_clipboard_read A = ask_os (\<lambda>o'.
     if \<not> open_clipboard (clip A) o' then None
     else case clipboard_data (clip A) o' of None \<Rightarrow> None
       | Some None \<Rightarrow> Some []
       | Some (Some ws) \<Rightarrow> Some (w2u8 A (c_wide ws)))"

definition win32_clipboard_write :: "('o, 'e) Windows \<Rightarrow> string \<Rightarrow> ('o Win32, bool) comp" where
  "win32_clipboard_write A s = run_os (\<lambda>o'.
     if \<not> open_clipboard (clip A) o' then (False, o')
     else let o1 = empty_clipboard (clip A) o'; ws = u8_to_wide A s @ [0]; n = 2 * length ws in
       if \<not> alloc_memory (clip A) n o1 \<or> \<not> lock_memory (clip A) n o1 then (False, o1)
       else set_clipboard_data (clip A) ws o1)"

section \<open>Services\<close>

definition win32_service_list :: "('o, 'e) Windows \<Rightarrow> ('o Win32, ServiceInfo list) comp" where
  "win32_service_list A = ask_os (\<lambda>o'.
     if \<not> open_service_manager (scm A) o' then []
     else case enum_services (scm A) o' of None \<Rightarrow> []
       | Some l \<Rightarrow> map (\<lambda>(n, d, st). \<lparr>sv_name = w2u8 A (c_wide n), sv_display_name = w2u8 A (c_wide d),
           sv_state = (if st = 4 then ''RUNNING'' else ''STOPPED'')\<rparr>) l)"

definition state_name :: "32 word \<Rightarrow> string" where
  "state_name st =
     (if st = 4 then ''RUNNING'' else if st = 1 then ''STOPPED'' else if st = 2 then ''STARTING''
      else if st = 3 then ''STOPPING'' else if st = 7 then ''PAUSED'' else ''OTHER'')"

definition win32_service_status :: "('o, 'e) Windows \<Rightarrow> string \<Rightarrow> ('o Win32, string) comp" where
  "win32_service_status A name = ask_os (\<lambda>o'. let n = c_wide (widen name) in
     if \<not> open_service_manager (scm A) o' then ''UNKNOWN''
     else if \<not> open_service (scm A) n 4 o' then ''NOT_FOUND''
     else case service_state (scm A) n 4 o' of None \<Rightarrow> ''UNKNOWN'' | Some st \<Rightarrow> state_name st)"

text \<open>Polling until the state is reached or the time is up, through a handle with the rights \<open>access\<close>;
  \<open>None\<close> is a loop that does not end.\<close>

partial_function (option) await_state ::
  "('o, 'e) Windows \<Rightarrow> wide \<Rightarrow> 32 word \<Rightarrow> 32 word \<Rightarrow> int \<Rightarrow> int \<Rightarrow> 'o \<Rightarrow> 'o option" where
  "await_state A n access target start timeout o' =
     (if seconds (scm A) o' - start < timeout
      then if service_state (scm A) n access o' = Some target then Some o'
           else await_state A n access target start timeout (wait_half_second (scm A) o')
      else Some o')"

definition control_access :: "string \<Rightarrow> 32 word" where
  "control_access action = (if action = ''start'' then 0x10 else 0x20 OR 4)"

definition win32_service_control :: "('o, 'e) Windows \<Rightarrow> string \<Rightarrow> string \<Rightarrow> ('o Win32, bool) comp" where
  "win32_service_control A name action =
     (let n = c_wide (widen name) in
      andThen (ask_os (\<lambda>o'. open_service_manager (scm A) o' \<and> open_service (scm A) n (control_access action) o')) (\<lambda>opened.
        if \<not> opened then ret False
        else andThen (if action = ''start'' then run_os (start_service (scm A) n)
                      else if action = ''stop'' then run_os (stop_service (scm A) n) else ret False) (\<lambda>ok.
          if \<not> ok then ret False
          else (\<lambda>s. case await_state A n (control_access action) (if action = ''start'' then 4 else 1)
                  (seconds (scm A) (w32_os s)) (w32_service_timeout s) (w32_os s) of
              None \<Rightarrow> (Stuck, s)
            | Some o' \<Rightarrow> (Ok True, s\<lparr>w32_os := o'\<rparr>)))))"

section \<open>Environment, drives, mutexes\<close>

text \<open>The block is a sequence of wide strings, each ended by a zero, up to an empty one.\<close>

function env_strings :: "wide \<Rightarrow> wide list" where
  "env_strings ws = (let s = c_wide ws in if s = [] then [] else s # env_strings (drop (Suc (length s)) ws))"
  by pat_completeness auto
termination
  by (relation "measure length") (auto simp: c_wide_def takeWhile_eq_Nil_iff)

definition env_entry :: "('o, 'e) Windows \<Rightarrow> wide \<Rightarrow> EnvVar option" where
  "env_entry A s =
     (let name = takeWhile (\<lambda>c. c \<noteq> 0x3D) s in
      if name = s \<or> name = [] then None
      else Some \<lparr>ev_name = w2u8 A name, ev_value = w2u8 A (drop (Suc (length name)) s)\<rparr>)"

definition win32_env_get_all :: "('o, 'e) Windows \<Rightarrow> ('o Win32, EnvVar list) comp" where
  "win32_env_get_all A = ask_os (\<lambda>o'. case environment_block (env A) o' of None \<Rightarrow> []
     | Some block \<Rightarrow> List.map_filter (env_entry A) (env_strings block))"

definition win32_env_set :: "('o, 'e) Windows \<Rightarrow> string \<Rightarrow> string \<Rightarrow> ('o Win32, bool) comp" where
  "win32_env_set A name val = run_os (set_environment (env A) (c_wide (widen name)) (c_wide (widen val)))"

definition drive_type_name :: "32 word \<Rightarrow> string" where
  "drive_type_name t =
     (if t = 3 then ''Fixed'' else if t = 4 then ''Remote'' else if t = 5 then ''CDROM''
      else if t = 6 then ''RamDisk'' else ''Unknown'')"

definition win32_wine_get_drives :: "('o, 'e) Windows \<Rightarrow> ('o Win32, DriveInfo list) comp" where
  "win32_wine_get_drives A = ask_os (\<lambda>o'.
     map (\<lambda>i. \<lparr>dr_letter = [char_of (65 + i)],
         dr_mapping = (case dos_device (env A) i o' of None \<Rightarrow> [] | Some ws \<Rightarrow> w2u8 A (c_wide ws)),
         dr_type = drive_type_name (drive_type (env A) i o')\<rparr>)
       (filter (\<lambda>i. bit (logical_drives (env A) o') i) [0..<26]))"

definition win32_wine_get_overrides :: "('o, 'e) Windows \<Rightarrow> ('o Win32, string list) comp" where
  "win32_wine_get_overrides A =
     andThen (win32_reg_read A (''HKCU'' @ [CHR 0x5C] @ ''Software'' @ [CHR 0x5C] @ ''Wine'' @ [CHR 0x5C] @ ''DllOverrides'')) (\<lambda>info.
       ret (case info of None \<Rightarrow> [] | Some k \<Rightarrow> map (\<lambda>v. rv_name v @ ''='' @ rv_data v) (rk_values k)))"

definition win32_sync_check_mutex :: "('o, 'e) Windows \<Rightarrow> string \<Rightarrow> ('o Win32, bool) comp" where
  "win32_sync_check_mutex A name = ask_os (open_mutex (env A) (c_wide (widen name)))"

text \<open>The handle is closed again at the end of the method.\<close>

definition win32_sync_create_mutex :: "('o, 'e) Windows \<Rightarrow> string \<Rightarrow> bool \<Rightarrow> ('o Win32, bool) comp" where
  "win32_sync_create_mutex A name own = run_os (\<lambda>o'. let n = c_wide (widen name) in
     case create_mutex (env A) n own o' of ((valid, existed), o1) \<Rightarrow>
       if valid then (\<not> existed, close_mutex (env A) n o1) else (False, o1))"

section \<open>The rest\<close>

definition win32_image_match :: "Rect \<Rightarrow> bytes \<Rightarrow> ('o Win32, ImageMatchResult option) comp" where
  "win32_image_match region bmp = ret None"

definition win32_input_hook_enable :: "bool \<Rightarrow> ('o Win32, bool) comp" where
  "win32_input_hook_enable enabled = ret True"

definition probe_key :: wide where
  "probe_key = widen (''Software'' @ [CHR 0x5C] @ ''WinInspectHealthCheck'')"

text \<open>The probe of the registry: the key is created and deleted again.\<close>

definition probe_registry :: "('o, 'e) Windows \<Rightarrow> 'o \<Rightarrow> bool \<times> 'o" where
  "probe_registry A o' = (case create_key (advapi A) HKCU probe_key o' of (ok, o1) \<Rightarrow>
     (ok, if ok then snd (delete_key (advapi A) HKCU probe_key o1) else o1))"

definition win32_os_name :: "('o, 'e) Windows \<Rightarrow> 'o Win32 \<Rightarrow> string" where
  "win32_os_name A s =
     (if w32_is_wine s then ''windows (wine)''
      else if 22000 \<le> w32_win_build s then ''windows 11''
      else if w32_win_major s = 10 then ''windows 10'' else ''windows'')"

definition win32_get_capabilities :: "('o, 'e) Windows \<Rightarrow> ('o Win32, Capabilities) comp" where
  "win32_get_capabilities A = (\<lambda>s. case probe_registry A (w32_os s) of (writable, o1) \<Rightarrow>
     (case send_inputs (input A) [] o1 of (sent, o2) \<Rightarrow>
     (Ok \<lparr>os = win32_os_name A s, is_wine = w32_is_wine s, arch = ''x64'', win_major = w32_win_major s,
         win_minor = w32_win_minor s, win_build = w32_win_build s, uia_available = create_automation (uia A) o1,
         clipboard_available = open_clipboard (clip A) (w32_os s), registry_writable = writable,
         service_manager = open_service_manager (scm A) o1, process_memory = open_process (kernel A) 0x10 (current_process_id (kernel A)) o1,
         input_injection = (sent = 0), window_highlight = screen_dc (gdi A) o2,
         wine_version = (if w32_is_wine s then case wine_get_version (platform A) of None \<Rightarrow> [] | Some v \<Rightarrow> v else [])\<rparr>,
      s\<lparr>w32_os := o2\<rparr>)))"

definition env_metadata :: "Capabilities \<Rightarrow> Object" where
  "env_metadata caps = obj_of (
     [(''os'', Str (os caps)), (''is_wine'', Bool (is_wine caps)), (''win_major'', Num (double_of_int (win_major caps))),
      (''win_minor'', Num (double_of_int (win_minor caps))), (''win_build'', Num (double_of_int (win_build caps))),
      (''arch'', Str (arch caps))] @
     (if wine_version caps = [] then [] else [(''wine_version'', Str (wine_version caps))]) @
     [(''diagnostics'', Obj (obj_of
        [(''clipboard'', Bool (clipboard_available caps)), (''registry_write'', Bool (registry_writable caps)),
         (''uia_available'', Bool (uia_available caps)), (''service_manager'', Bool (service_manager caps)),
         (''process_memory'', Bool (process_memory caps)), (''input_injection'', Bool (input_injection caps)),
         (''window_highlight'', Bool (window_highlight caps))]))])"

definition win32_get_env_metadata :: "('o, 'e) Windows \<Rightarrow> ('o Win32, Object) comp" where
  "win32_get_env_metadata A = andThen (win32_get_capabilities A) (\<lambda>caps. ret (env_metadata caps))"

definition win32_check_for_update :: "('o, 'e) Windows \<Rightarrow> ('o Win32, UpdateInfo) comp" where
  "win32_check_for_update A = ask_os (\<lambda>o'. query_update (release_reply (platform A) o') WININSPECT_VERSION)"

definition win32_download_update :: "('o, 'e) Windows \<Rightarrow> string \<Rightarrow> string \<Rightarrow> ('o Win32, string) comp" where
  "win32_download_update A url type_hint = (\<lambda>s. let o' = w32_os s in
     case download_release (http_server (platform A)) (file_creatable (platform A) o') (temp_path (platform A) o') url WININSPECT_VERSION type_hint of
       None \<Rightarrow> (Stuck, s)
     | Some f \<Rightarrow> (Ok f, if f = [] then s else s\<lparr>w32_os := save_download (platform A) f o'\<rparr>))"

end
