(* ===== verification/Win32_Backend.thy ===== *)
theory Win32_Backend
  imports Win32_Windows Win32_System Core_Contract "HOL-Library.Multiset"
begin

text \<open>
  The class \<open>Win32Backend\<close> as an implementation of the interface, and what holds of it over every Windows:
  the contract of the inspection and the desired-state methods on a system that grants what it is asked, the
  events between two snapshots, the bounds of its loops and buffers.
\<close>

section \<open>The class\<close>

definition win32_backend :: "('o, 'e) Windows \<Rightarrow> ('o Win32) IBackend" where
  "win32_backend A = \<lparr>
     set_config = win32_set_config, capture_snapshot = win32_capture_snapshot A,
     list_top = win32_list_top, list_children = win32_list_children A, get_info = win32_get_info A,
     pick_at_point = win32_pick_at_point A, get_window_tree = win32_get_window_tree A,
     ensure_visible = win32_ensure_visible A, ensure_foreground = win32_ensure_foreground A,
     highlight_window = win32_highlight_window A, set_property = win32_set_property A,
     post_message = win32_post_message A, send_input = win32_send_input A,
     send_mouse_click = win32_send_mouse_click A, send_key_press = win32_send_key_press A,
     send_text = win32_send_text A, control_click = win32_control_click A,
     control_send = win32_control_send A, get_pixel = win32_get_pixel A,
     capture_screen = win32_capture_screen A, pixel_search = win32_pixel_search A,
     list_processes = win32_list_processes A, kill_process = win32_kill_process A,
     get_file_info = win32_get_file_info A, read_file_content = win32_read_file_content A,
     find_windows_regex = win32_find_windows_regex A, reg_read = win32_reg_read A,
     reg_write = win32_reg_write A, reg_delete = win32_reg_delete A, reg_subscribe = win32_reg_subscribe,
     clipboard_read = win32_clipboard_read A, clipboard_write = win32_clipboard_write A,
     service_list = win32_service_list A, service_status = win32_service_status A,
     service_control = win32_service_control A, env_get_all = win32_env_get_all A,
     env_set = win32_env_set A, wine_get_drives = win32_wine_get_drives A,
     wine_get_overrides = win32_wine_get_overrides A, sync_check_mutex = win32_sync_check_mutex A,
     sync_create_mutex = win32_sync_create_mutex A, mem_read = win32_mem_read A,
     mem_write = win32_mem_write A, image_match = win32_image_match,
     input_hook_enable = win32_input_hook_enable, inspect_ui_elements = win32_inspect_ui_elements A,
     invoke_ui_element = win32_invoke_ui_element A, get_capabilities = win32_get_capabilities A,
     get_env_metadata = win32_get_env_metadata A, check_for_update = win32_check_for_update A,
     download_update = win32_download_update A, poll_events = win32_poll_events\<rparr>"

section \<open>The contract\<close>

text \<open>
  A system that grants what it is asked. A window below a hidden one does not become visible when it is shown,
  and the system may refuse to change the foreground window; the contract of the desired-state methods is only
  claimed where neither happens. The probe of the registry must leave nothing behind.
\<close>

definition granting :: "('o, 'e) Windows \<Rightarrow> bool" where
  "granting A \<longleftrightarrow>
     (\<forall>h v o'. is_window (user A) h o' \<longrightarrow> is_window (user A) h (show_window (input A) h v o') \<and> is_visible (user A) h (show_window (input A) h v o') = v) \<and>
     (\<forall>h o'. is_window (user A) h o' \<longrightarrow> is_window (user A) h (set_foreground_window (input A) h o') \<and>
        foreground_window (user A) (set_foreground_window (input A) h o') = h)"

definition clean_probes :: "('o, 'e) Windows \<Rightarrow> bool" where
  "clean_probes A \<longleftrightarrow> (\<forall>o'. snd (probe_registry A o') = o' \<and> snd (send_inputs (input A) [] o') = o')"

lemma ask_os_const [frame_intros]: "const_comp (ask_os f)"
  by (simp add: const_comp_def ask_os_def)

lemma same_os [simp]: "s\<lparr>w32_os := w32_os s\<rparr> = s"
  by (cases s) simp

lemma capabilities_const: "clean_probes A \<Longrightarrow> const_comp (win32_get_capabilities A)"
  by (simp add: const_comp_def win32_get_capabilities_def clean_probes_def case_prod_beta)

lemma looking_const: "const_comp (win32_mem_read A pid addr n)" "const_comp (win32_inspect_ui_elements A h)"
  "const_comp (win32_poll_events old new)"
  by (simp_all add: const_comp_def win32_mem_read_def win32_inspect_ui_elements_def win32_poll_events_def ret_def Let_def)

lemma reg_read_const: "const_comp (win32_reg_read A path)"
  unfolding win32_reg_read_def Let_def case_prod_beta
  by (intro frame_intros)

lemma window_queries_const:
  "const_comp (win32_list_top snap)" "const_comp (win32_list_children A snap h)" "const_comp (win32_get_info A snap h)"
  "const_comp (win32_pick_at_point A snap x y fl)" "const_comp (win32_get_window_tree A snap h)"
  "const_comp (win32_get_pixel A x y)" "const_comp (win32_capture_screen A rect)" "const_comp (win32_pixel_search A rect col var)"
  unfolding win32_list_top_def win32_list_children_def win32_get_info_def win32_pick_at_point_def
    win32_get_window_tree_def win32_get_pixel_def win32_capture_screen_def win32_pixel_search_def Let_def
  by (intro frame_intros)+

lemma system_queries_const:
  "const_comp (win32_list_processes A)" "const_comp (win32_get_file_info A path)" "const_comp (win32_read_file_content A path)"
  "const_comp (win32_find_windows_regex A t c)" "const_comp (win32_clipboard_read A)" "const_comp (win32_service_list A)"
  "const_comp (win32_service_status A name)" "const_comp (win32_env_get_all A)" "const_comp (win32_wine_get_drives A)"
  "const_comp (win32_wine_get_overrides A)" "const_comp (win32_sync_check_mutex A name)" "const_comp (win32_image_match rect bmp)"
  "const_comp (win32_check_for_update A)"
  unfolding win32_list_processes_def win32_get_file_info_def win32_read_file_content_def win32_find_windows_regex_def
    win32_clipboard_read_def win32_service_list_def win32_service_status_def win32_env_get_all_def win32_wine_get_drives_def
    win32_wine_get_overrides_def win32_sync_check_mutex_def win32_image_match_def win32_check_for_update_def
  by (intro frame_intros reg_read_const)+

lemma win32_inspecting: "clean_probes A \<Longrightarrow> inspecting_backend (win32_backend A)"
proof (unfold_locales)
  assume c: "clean_probes A"
  show "const_comp (get_env_metadata (win32_backend A))"
    using capabilities_const[OF c] by (simp add: win32_backend_def win32_get_env_metadata_def frame_intros)
qed (simp_all add: win32_backend_def capabilities_const looking_const reg_read_const window_queries_const system_queries_const)

lemma win32_ensuring:
  assumes "granting A" "clean_probes A"
  shows "ensuring_backend (win32_backend A)"
proof (rule ensuring_backend.intro[OF win32_inspecting[OF assms(2)]], unfold ensuring_backend_axioms_def, intro conjI allI impI)
  fix h v s c s'
  assume "ensure_visible (win32_backend A) h v s = (Ok c, s')"
  then show "ensure_visible (win32_backend A) h v s' = (Ok False, s')"
    using assms(1) by (auto simp: win32_backend_def win32_ensure_visible_def run_os_def granting_def split: if_splits)
next
  fix h s c s'
  assume "ensure_foreground (win32_backend A) h s = (Ok c, s')"
  then show "ensure_foreground (win32_backend A) h s' = (Ok False, s')"
    using assms(1) by (auto simp: win32_backend_def win32_ensure_foreground_def run_os_def granting_def split: if_splits)
qed (auto simp: win32_backend_def win32_ensure_visible_def win32_ensure_foreground_def run_os_def)

section \<open>Events\<close>

lemma set_difference_mset:
  "sorted xs \<Longrightarrow> sorted ys \<Longrightarrow> mset (set_difference xs ys) = mset xs - mset ys"
proof (induction xs ys rule: set_difference.induct)
  case (3 x xs y ys)
  consider (less) "x < y" | (equal) "x = y" | (greater) "y < x" by force
  then show ?case
  proof cases
    case less
    then have "x \<notin># mset (y # ys)" using 3(5) by auto
    then have "mset (x # xs) - mset (y # ys) = add_mset x (mset xs - mset (y # ys))" by simp
    then show ?thesis using less 3(1)[OF less] 3(4,5) by simp
  next
    case equal
    then show ?thesis using 3(3) 3(4,5) by simp
  next
    case greater
    then have "y \<notin># mset (x # xs)" using 3(4) by auto
    then have "mset (x # xs) - mset (y # ys) = mset (x # xs) - mset ys" by simp
    then show ?thesis using greater 3(2)[OF _ greater] 3(4,5) by (auto dest: less_asym)
  qed
qed simp_all

lemma set_difference_subset: "set (set_difference xs ys) \<subseteq> set xs"
  by (induction xs ys rule: set_difference.induct) auto

lemma sorted_set_difference: "sorted xs \<Longrightarrow> sorted (set_difference xs ys)"
  by (induction xs ys rule: set_difference.induct) (use set_difference_subset in \<open>auto 4 3\<close>)

lemma set_difference_sorted:
  "set_difference (sort xs) (sort ys) = sorted_list_of_multiset (mset xs - mset ys)"
proof -
  have "sort (set_difference (sort xs) (sort ys)) = set_difference (sort xs) (sort ys)"
    by (simp add: sorted_set_difference sorted_sort_id)
  then show ?thesis
    using sorted_list_of_multiset_mset[of "set_difference (sort xs) (sort ys)"] by (simp add: set_difference_mset)
qed

section \<open>The window tree\<close>

text \<open>The steps of the walk: down to the first child, and on to the next window.\<close>

definition walk_rel :: "('o, 'e) Windows \<Rightarrow> 'o \<Rightarrow> (hwnd_u64 \<times> hwnd_u64) set" where
  "walk_rel A o' = {(x, h). h \<noteq> 0 \<and> (x = first_child (user A) h o' \<or> x = next_sibling (user A) h o')}"

lemma nodes_from_ends: "h \<in> Wellfounded.acc (walk_rel A o') \<Longrightarrow> \<exists>ns. nodes_from A o' h = Some ns"
proof (induction h rule: acc.induct)
  case (accI h)
  show ?case
  proof (cases "h = 0")
    case False
    then have "(first_child (user A) h o', h) \<in> walk_rel A o'" "(next_sibling (user A) h o', h) \<in> walk_rel A o'"
      by (simp_all add: walk_rel_def)
    from accI(2)[OF this(1)] accI(2)[OF this(2)] show ?thesis by (subst nodes_from.simps) auto
  qed (simp add: nodes_from.simps)
qed

lemma nodes_from_accessible:
  assumes "nodes_from A o' h = Some ns"
  shows "h \<in> Wellfounded.acc (walk_rel A o')"
proof (rule nodes_from.raw_induct[where P = "\<lambda>A o' h _. h \<in> Wellfounded.acc (walk_rel A o')", OF _ assms])
  fix nf :: "('a, 'b) Windows \<Rightarrow> 'a \<Rightarrow> hwnd_u64 \<Rightarrow> WindowNode list option" and A o' h ns
  assume IH: "\<And>A o' h ns. nf A o' h = Some ns \<Longrightarrow> h \<in> Wellfounded.acc (walk_rel A o')"
    and body: "(if h = 0 then Some []
      else Option.bind (nf A o' (first_child (user A) h o')) (\<lambda>children.
        Option.bind (nf A o' (next_sibling (user A) h o')) (\<lambda>rest.
          Some (WindowNode h (w2u8 A (get_window_text_w A h o')) (w2u8 A (get_class_name_w A h o')) children # rest)))) = Some ns"
  show "h \<in> Wellfounded.acc (walk_rel A o')"
  proof (rule accI)
    fix x
    assume "(x, h) \<in> walk_rel A o'"
    then have "\<exists>ms. nf A o' x = Some ms" using body by (auto simp: walk_rel_def bind_eq_Some_conv)
    then show "x \<in> Wellfounded.acc (walk_rel A o')" using IH by blast
  qed
qed

lemma nodes_from_iff: "(\<exists>ns. nodes_from A o' h = Some ns) \<longleftrightarrow> h \<in> Wellfounded.acc (walk_rel A o')"
  by (auto intro: nodes_from_accessible dest: nodes_from_ends)

end
