(* ===== verification/Win32_Properties.thy ===== *)
theory Win32_Properties
  imports Win32_Backend Daemon_Main "HOL-Library.AList"
begin

text \<open>
  What holds of \<open>Win32Backend\<close> over every Windows, from the request to the system call: the contract of the
  interface, the events between two snapshots, the window tree, the coordinates of a click, the bitmap of a
  screen capture, the limits set on the command line, the wait for a service, the listing of the environment
  and of styles. Where a statement relies on the system, what it relies on is a named
  condition, and \<open>desk\<close> is a small Windows that meets all of them.
\<close>

unbundle bit_operations_syntax

section \<open>A small Windows\<close>

text \<open>Three windows, the second and the third below the first; a clock; one registry key.\<close>

record Desk =
  dk_shown :: "hwnd_u64 list"
  dk_front :: hwnd_u64
  dk_half_seconds :: int
  dk_values :: "(wide \<times> 32 word \<times> bytes) list"

definition desk_user :: "Desk User32" where
  "desk_user = \<lparr>to_utf8 = map (\<lambda>c. char_of (unat c)), from_utf8 = map (\<lambda>c. of_nat (code_of c)),
     enum_windows = (\<lambda>_. [1]), enum_child_windows = (\<lambda>h _. if h = 1 then [2, 3] else []), is_window = (\<lambda>h _. h \<in> {1, 2, 3}),
     parent_of = (\<lambda>h _. if h = 1 then 0 else 1), owner_of = (\<lambda>_ _. 0), first_child = (\<lambda>h _. if h = 1 then 2 else 0),
     next_sibling = (\<lambda>h _. if h = 2 then 3 else 0), window_text_length = (\<lambda>_ _. 1), window_text = (\<lambda>h _. [0x40 + ucast h]),
     class_name_of = (\<lambda>_ _. [0x43]), window_rect_of = (\<lambda>_ _. Some zero_rect), client_rect_of = (\<lambda>_ _. Some zero_rect),
     client_origin = (\<lambda>_ _. Some (0, 0)), thread_of = (\<lambda>_ _. 1), process_of = (\<lambda>_ _. 1), style_of = (\<lambda>_ _. 0),
     exstyle_of = (\<lambda>_ _. 0), is_visible = (\<lambda>h o'. h \<in> set (dk_shown o')), is_enabled = (\<lambda>_ _. True),
     is_iconic = (\<lambda>_ _. False), is_zoomed = (\<lambda>_ _. False), window_from_point = (\<lambda>_ _. 1),
     child_from_point = (\<lambda>_ _ _ _. 2), foreground_window = dk_front\<rparr>"

definition desk_input :: "Desk Input" where
  "desk_input = \<lparr>
     show_window = (\<lambda>h v o'. o'\<lparr>dk_shown := (if v then h # dk_shown o' else removeAll h (dk_shown o'))\<rparr>),
     set_foreground_window = (\<lambda>h o'. o'\<lparr>dk_front := h\<rparr>), set_topmost = (\<lambda>_ _ o'. (True, o')),
     set_exstyle = (\<lambda>_ _ o'. o'), set_alpha = (\<lambda>_ _ o'. (True, o')), post_message_w = (\<lambda>_ _ _ _ o'. (True, o')),
     send_inputs = (\<lambda>is o'. (length is, o')), screen_size = (\<lambda>_. (1920, 1080))\<rparr>"

definition desk_gdi :: "Desk Gdi32" where
  "desk_gdi = \<lparr>screen_dc = (\<lambda>_. True), draw_rectangle = (\<lambda>_ o'. o'), invalidate = (\<lambda>_ o'. o'), pixel_at = (\<lambda>_ _ _. 0),
     bitmap_stride = (\<lambda>w h _. Some (4 * w)), dib_bits = (\<lambda>r _. replicate (nat (bottom_edge r - top_edge r) * (3 * nat (right r - left r))) 0)\<rparr>"

definition desk_kernel :: "Desk Kernel32" where
  "desk_kernel = \<lparr>open_process = (\<lambda>_ _ _. True), image_name = (\<lambda>_ _. None), toolhelp_processes = (\<lambda>_. None),
     terminate_process = (\<lambda>_ o'. (False, o')), read_process_memory = (\<lambda>_ _ n _. Some (replicate n 7)),
     write_process_memory = (\<lambda>_ _ _ o'. (False, o')), current_process_id = 1, file_attributes = (\<lambda>_ _. None),
     open_file = (\<lambda>_ _. False), file_size = (\<lambda>_ _. 0), read_file = (\<lambda>_ _ _. [])\<rparr>"

definition desk_advapi :: "Desk Advapi32" where
  "desk_advapi = \<lparr>open_key = (\<lambda>_ _ _. True), key_names = (\<lambda>_ _ _. []), key_values = (\<lambda>_ _. dk_values),
     create_key = (\<lambda>_ _ o'. (True, o')),
     set_value = (\<lambda>_ _ n t bs o'. (True, o'\<lparr>dk_values := AList.update n (t, bs) (dk_values o')\<rparr>)),
     delete_key = (\<lambda>_ _ o'. (True, o')), delete_value = (\<lambda>_ _ _ o'. (False, o'))\<rparr>"

definition desk_clip :: "Desk Clipboard" where
  "desk_clip = \<lparr>open_clipboard = (\<lambda>_. False), clipboard_data = (\<lambda>_. None), empty_clipboard = (\<lambda>o'. o'),
     alloc_memory = (\<lambda>_ _. True), lock_memory = (\<lambda>_ _. True), set_clipboard_data = (\<lambda>_ o'. (True, o'))\<rparr>"

definition desk_scm :: "Desk Services" where
  "desk_scm = \<lparr>open_service_manager = (\<lambda>_. True), enum_services = (\<lambda>_. None), open_service = (\<lambda>_ _ _. True),
     service_state = (\<lambda>_ access _. if access AND 4 = 0 then None else Some 4), start_service = (\<lambda>_ o'. (True, o')),
     stop_service = (\<lambda>_ o'. (True, o')),
     wait_half_second = (\<lambda>o'. o'\<lparr>dk_half_seconds := dk_half_seconds o' + 1\<rparr>), seconds = (\<lambda>o'. dk_half_seconds o' div 2)\<rparr>"

definition desk_env :: "Desk Environment" where
  "desk_env = \<lparr>environment_block = (\<lambda>_. Some [0x41, 0x3D, 0x42, 0, 0]), set_environment = (\<lambda>_ _ o'. (False, o')),
     logical_drives = (\<lambda>_. 4), drive_type = (\<lambda>_ _. 3), dos_device = (\<lambda>_ _. None), open_mutex = (\<lambda>_ _. False),
     create_mutex = (\<lambda>_ _ o'. ((True, False), o')), close_mutex = (\<lambda>_ o'. o')\<rparr>"

definition desk_uia :: "(Desk, unit) Automation" where
  "desk_uia = \<lparr>create_automation = (\<lambda>_. True), element_from_handle = (\<lambda>_ _. None), true_condition = (\<lambda>_. True),
     uia_children = (\<lambda>_ _. []), uia_automation_id = (\<lambda>_ _. None), uia_name = (\<lambda>_ _. None), uia_class_name = (\<lambda>_ _. None),
     uia_control_type = (\<lambda>_ _. None), uia_rect = (\<lambda>_ _. None), uia_enabled = (\<lambda>_ _. None), uia_offscreen = (\<lambda>_ _. None),
     uia_find = (\<lambda>_ _ _. None), uia_invoke = (\<lambda>_ o'. (False, o'))\<rparr>"

definition desk_platform :: "Desk Platform" where
  "desk_platform = \<lparr>regex_compiles = (\<lambda>_. Ok ()), regex_search = (\<lambda>_ _. True), wine_get_version = None,
     rtl_version = Some (10, 0, 22631), release_reply = (\<lambda>_. None), http_server = (\<lambda>_ _. HttpFailed), file_creatable = (\<lambda>_. False),
     temp_path = (\<lambda>_. None), save_download = (\<lambda>_ o'. o')\<rparr>"

definition desk :: "(Desk, unit) Windows" where
  "desk = \<lparr>user = desk_user, input = desk_input, gdi = desk_gdi, kernel = desk_kernel, advapi = desk_advapi,
     clip = desk_clip, scm = desk_scm, env = desk_env, uia = desk_uia, platform = desk_platform\<rparr>"

lemmas desk_defs = desk_def desk_user_def desk_input_def desk_gdi_def desk_kernel_def desk_advapi_def desk_clip_def
  desk_scm_def desk_env_def desk_uia_def desk_platform_def

definition desk_state :: "Desk Win32" where
  "desk_state = new_win32 desk \<lparr>dk_shown = [1], dk_front = 1, dk_half_seconds = 0, dk_values = []\<rparr>"

lemma desk_grants: "granting desk" "clean_probes desk"
  by (simp_all add: granting_def clean_probes_def desk_def desk_user_def desk_input_def desk_advapi_def probe_registry_def)

section \<open>The contract\<close>


lemma desk_hide:
  "\<exists>s' lg'. handle (win32_backend desk) sample_engine (sample_request ''window.ensureVisible'' hide_params)
     \<lparr>top = [1]\<rparr> None (desk_state, new_logger) = (Ok (timed sample_engine (reply (changed_json True))), s', lg')"
proof -
  have "\<exists>s'. win32_ensure_visible desk 1 False desk_state = (Ok True, s')"
    by (simp add: win32_ensure_visible_def run_os_def desk_def desk_user_def desk_input_def desk_state_def
        desk_platform_def new_win32_def)
  then have "\<exists>s'. h_ensure_visible (win32_backend desk) (sample_request ''window.ensureVisible'' hide_params)
      \<lparr>top = [1]\<rparr> None desk_state = (Ok (reply (changed_json True)), s')"
    by (auto simp: h_ensure_visible_def sample_request_def hide_params_def get_str_def get_bool_def both_def
        andThen_def need_def ret_def need_hwnd_def parse_hwnd_to_string[of 1] win32_backend_def)
  then obtain s' where "h_ensure_visible (win32_backend desk) (sample_request ''window.ensureVisible'' hide_params)
      \<lparr>top = [1]\<rparr> None desk_state = (Ok (reply (changed_json True)), s')" ..
  from handle_accepts[where f = "h_ensure_visible (win32_backend desk)" and B = "win32_backend desk" and
      eng = sample_engine and lg = new_logger, OF _ this]
  show ?thesis by (auto simp: sample_request_def dispatch_ensure)
qed


section \<open>Events\<close>

text \<open>C17: the events between two snapshots are one \<open>window.created\<close> for each handle the new one has more
  often, and one \<open>window.destroyed\<close> for each the old one has more often, both in ascending order; nothing
  else is reported and the system is left alone.\<close>

theorem win32_events_exact:
  "poll_events (win32_backend A) old_snap new_snap s =
    (Ok (map (window_event ''window.created'') (sorted_list_of_multiset (mset (top new_snap) - mset (top old_snap))) @
         map (window_event ''window.destroyed'') (sorted_list_of_multiset (mset (top old_snap) - mset (top new_snap)))), s)"
  by (simp add: win32_backend_def win32_poll_events_def ret_def Let_def set_difference_sorted)

section \<open>The window tree\<close>

text \<open>
  \<open>chain A o' h hs\<close>: \<open>hs\<close> are the window \<open>h\<close> and the siblings after it. \<open>shows_window\<close>: every node of a tree
  has the title and the class of its window and the window's children in order.
\<close>

fun chain :: "('o, 'e) Windows \<Rightarrow> 'o \<Rightarrow> hwnd_u64 \<Rightarrow> hwnd_u64 list \<Rightarrow> bool" where
  "chain A o' h [] \<longleftrightarrow> h = 0"
| "chain A o' h (x # xs) \<longleftrightarrow> h \<noteq> 0 \<and> x = h \<and> chain A o' (next_sibling (user A) h o') xs"

fun shows_window :: "('o, 'e) Windows \<Rightarrow> 'o \<Rightarrow> WindowNode \<Rightarrow> bool" where
  "shows_window A o' (WindowNode h t c ns) \<longleftrightarrow>
     t = w2u8 A (get_window_text_w A h o') \<and> c = w2u8 A (get_class_name_w A h o') \<and>
     chain A o' (first_child (user A) h o') (map wn_hwnd ns) \<and> list_all (shows_window A o') ns"

lemma nodes_from_shows:
  "h \<in> Wellfounded.acc (walk_rel A o') \<Longrightarrow> nodes_from A o' h = Some ns \<Longrightarrow>
    chain A o' h (map wn_hwnd ns) \<and> list_all (shows_window A o') ns"
proof (induction h arbitrary: ns rule: acc.induct)
  case (accI h)
  show ?case
  proof (cases "h = 0")
    case False
    then have step: "(first_child (user A) h o', h) \<in> walk_rel A o'" "(next_sibling (user A) h o', h) \<in> walk_rel A o'"
      by (simp_all add: walk_rel_def)
    from False accI(3) show ?thesis
      by (subst (asm) nodes_from.simps) (auto simp: bind_eq_Some_conv dest: accI(2)[OF step(1)] accI(2)[OF step(2)])
  qed (use accI(3) in \<open>simp add: nodes_from.simps\<close>)
qed

text \<open>C16: the walk over a window's descendants returns exactly when the system's answers lead from no
  window back to itself, and then the tree shows every window below it, with its title, its class and its
  children in order. Otherwise the request never ends.\<close>

theorem window_tree_shown:
  assumes "h \<noteq> 0"
  shows "if first_child (user A) h (w32_os s) \<in> Wellfounded.acc (walk_rel A (w32_os s))
    then \<exists>t. get_window_tree (win32_backend A) snap h s = (Ok [t], s) \<and> wn_hwnd t = h \<and> shows_window A (w32_os s) t
    else get_window_tree (win32_backend A) snap h s = (Stuck, s)"
  using assms nodes_from_iff[of A "w32_os s" "first_child (user A) h (w32_os s)"]
  by (auto simp: win32_backend_def win32_get_window_tree_def win32_build_node_def andThen_def ask_os_def ret_def
      comp_simps dest: nodes_from_shows)

theorem window_tree_shown_witness:
  "\<exists>t. get_window_tree (win32_backend desk) \<lparr>top = [1]\<rparr> 1 desk_state = (Ok [t], desk_state) \<and>
     wn_hwnd t = 1 \<and> shows_window desk (w32_os desk_state) t"
proof -
  have "x \<in> Wellfounded.acc (walk_rel desk o')" if "x = 0 \<or> x = 3" for x o'
    by (rule accI) (use that in \<open>auto simp: walk_rel_def desk_def desk_user_def intro: accI\<close>)
  then have "2 \<in> Wellfounded.acc (walk_rel desk o')" for o'
    by (intro accI[of 2]) (auto simp: walk_rel_def desk_def desk_user_def)
  then show ?thesis using window_tree_shown[of 1 desk desk_state "\<lparr>top = [1]\<rparr>"] by (simp add: desk_def desk_user_def)
qed

section \<open>The screen\<close>

lemma normalize_coord_on_screen:
  "0 \<le> x \<Longrightarrow> x < extent \<Longrightarrow> normalize_coord x extent = (if 32768 < x then None else Some (x * 65535 div extent))"
  by (auto simp: normalize_coord_def cdiv_def sgn_if)

lemma div_below:
  assumes "0 < k" "a < b * k"
  shows "a div k < (b :: int)"
proof -
  have "a div k * k \<le> a"
    using pos_mod_sign[OF assms(1), of a] by (simp add: minus_mod_eq_div_mult[symmetric])
  also note assms(2)
  finally show ?thesis using assms(1) by (simp add: mult_less_cancel_right_pos)
qed

lemma scaled_coord_bounds:
  "0 \<le> x \<Longrightarrow> x < extent \<Longrightarrow> 0 \<le> x * 65535 div extent \<and> x * 65535 div extent < (65535 :: int)"
  by (simp add: div_below pos_imp_zdiv_nonneg_iff)

text \<open>A click on a point of the screen is sent as two events at the point's share of the 65536 units
  the system divides the screen into; the share is in range. On a point further than 32768 from the corner
  the product leaves \<open>int\<close> and the request has no defined result.\<close>

theorem click_on_screen:
  assumes "screen_size (input A) (w32_os s) = (sw, sh)" and "0 \<le> x" "x < sw" "0 \<le> y" "y < sh"
    and "click_flags button = Some (down, up)"
  defines "nx \<equiv> x * 65535 div sw" and "ny \<equiv> y * 65535 div sh"
  shows "nx \<in> {0..65535} \<and> ny \<in> {0..65535} \<and>
    send_mouse_click (win32_backend A) x y button s =
      (if 32768 < x \<or> 32768 < y then (Stuck, s)
       else let (n, o') = send_inputs (input A) [MouseInput nx ny down, MouseInput nx ny up] (w32_os s)
            in (Ok (n = 2), s\<lparr>w32_os := o'\<rparr>))"
  using assms(1,6) scaled_coord_bounds[OF assms(2,3)] scaled_coord_bounds[OF assms(4,5)]
    normalize_coord_on_screen[OF assms(2,3)] normalize_coord_on_screen[OF assms(4,5)]
  by (auto simp: win32_backend_def win32_send_mouse_click_def nx_def ny_def andThen_def ask_os_def run_os_def comp_simps
      split: prod.split)

theorem click_on_screen_witness:
  "click_flags 0 = Some (0x8003, 0x8004) \<and>
   send_mouse_click (win32_backend desk) 960 540 0 desk_state = (Ok True, desk_state)"
proof -
  have "click_flags 0 = Some (0x8003, 0x8004)" by (simp add: click_flags_def)
  with click_on_screen[of desk desk_state 1920 1080 960 540 0 "0x8003" "0x8004"]
  show ?thesis by (simp add: desk_def desk_input_def desk_state_def)
qed

text \<open>The fields of the bitmap's headers, read as a viewer reads them.\<close>

definition le_value :: "bytes \<Rightarrow> int" where
  "le_value bs = foldr (\<lambda>b v. uint b + 256 * v) bs 0"

definition bmp_field :: "nat \<Rightarrow> nat \<Rightarrow> bytes \<Rightarrow> int" where
  "bmp_field pos n file = le_value (take n (drop pos file))"

lemma le_bytes_Suc: "le_bytes (Suc n) i = word_of_int i # le_bytes n (i div 256)"
  by (auto simp: le_bytes_def upt_rec[of 0] map_Suc_upt[symmetric] div_mult2_eq power_add zdiv_zmult2_eq simp del: upt_Suc)

lemma length_le_bytes [simp]: "length (le_bytes n i) = n"
  by (simp add: le_bytes_def)

lemma le_value_bytes: "0 \<le> i \<Longrightarrow> i < 2 ^ (8 * n) \<Longrightarrow> le_value (le_bytes n i) = i"
proof (induction n arbitrary: i)
  case (Suc n)
  have "i div 256 < 2 ^ (8 * n)"
    using Suc(3) by (intro div_below) (simp_all add: power_add)
  then have "le_value (le_bytes n (i div 256)) = i div 256" using Suc(1,2) by simp
  moreover have "uint (word_of_int i :: 8 word) = i mod 256" by (simp add: uint_word_of_int)
  ultimately show ?case by (simp add: le_bytes_Suc le_value_def)
qed (simp add: le_bytes_def le_value_def)

text \<open>A capture of the screen is a bitmap file that can be read: the magic number, its own size, the
  offset of the pixels, width, height and depth are where a reader looks for them, the pixels the system
  delivered follow the headers, and the base64 text decodes to the file. Where the screen's own bitmap has
  fewer bytes than 24-bit rows need, the buffer is overrun.\<close>

theorem screen_capture_file:
  fixes region A s
  defines "w \<equiv> right region - left region" and "h \<equiv> bottom_edge region - top_edge region"
    and "bits \<equiv> dib_bits (gdi A) region (w32_os s)"
  assumes "0 < w" "w < 2 ^ 31" "0 < h" "h < 2 ^ 31"
    and "bitmap_stride (gdi A) w h (w32_os s) = Some stride" and "0 \<le> stride" "54 + stride * h < 2 ^ 31"
  shows "if stride * h < int (length bits) then capture_screen (win32_backend A) region s = (Stuck, s)
    else \<exists>sc file. capture_screen (win32_backend A) region s = (Ok (Some sc), s) \<and>
      sc_width sc = w \<and> sc_height sc = h \<and> decode (sc_data_b64 sc) = file \<and>
      take 2 file = [0x42, 0x4D] \<and> bmp_field 2 4 file = int (length file) \<and> bmp_field 10 4 file = 54 \<and>
      bmp_field 18 4 file = w \<and> bmp_field 22 4 file = h \<and> bmp_field 28 2 file = 24 \<and>
      take (length bits) (drop 54 file) = bits"
proof (cases "stride * h < int (length bits)")
  case True
  then show ?thesis
    using assms by (simp add: win32_backend_def win32_capture_screen_def int_range_def Let_def bmp_file_def andThen_def ask_os_def comp_simps)
next
  case False
  let ?n = "54 + stride * h"
  define out where "out = bmp_headers w h ?n @ bits @ replicate (nat ?n - 54 - length bits) 0"
  have nn: "0 \<le> stride * h" using assms by simp
  have "capture_screen (win32_backend A) region s = (Ok (Some \<lparr>sc_width = w, sc_height = h, sc_data_b64 = encode out\<rparr>), s)"
    using assms False nn
    by (simp add: out_def win32_backend_def win32_capture_screen_def int_range_def Let_def bmp_file_def andThen_def ask_os_def ret_def comp_simps)
  moreover have "length out = nat ?n" using False nn by (simp add: out_def bmp_headers_def)
  then have "bmp_field 2 4 out = int (length out)"
    using nn assms by (simp add: out_def bmp_field_def bmp_headers_def le_value_bytes)
  moreover have "take 2 out = [0x42, 0x4D]" by (simp add: out_def bmp_headers_def le_bytes_def upt_rec)
  moreover have "bmp_field 10 4 out = 54" "bmp_field 18 4 out = w" "bmp_field 22 4 out = h" "bmp_field 28 2 out = 24"
    using assms by (simp_all add: out_def bmp_field_def bmp_headers_def le_value_bytes)
  moreover have "take (length bits) (drop 54 out) = bits" by (simp add: out_def bmp_headers_def)
  ultimately show ?thesis using False by auto
qed

theorem screen_capture_file_witness:
  "\<exists>sc file. capture_screen (win32_backend desk) \<lparr>left = 0, top_edge = 0, right = 2, bottom_edge = 3\<rparr> desk_state = (Ok (Some sc), desk_state) \<and>
     decode (sc_data_b64 sc) = file \<and> bmp_field 18 4 file = 2 \<and> bmp_field 22 4 file = 3"
  using screen_capture_file[where region = "\<lparr>left = 0, top_edge = 0, right = 2, bottom_edge = 3\<rparr>" and A = desk and s = desk_state and stride = 8]
  by (auto simp: desk_def desk_gdi_def)

section \<open>The limits of the command line\<close>

lemma casts_of_int:
  "\<bar>i\<bar> < 2 ^ 31 \<Longrightarrow> cast_int (double_of_int i) = Some i"
  "0 \<le> i \<Longrightarrow> i < 2 ^ 31 \<Longrightarrow> cast_u64 (double_of_int i) = Some (word_of_int i)"
  by (auto simp: cast_int_def cast_u64_def cast_range_def dtrunc_double_of_int)

lemma win32_greets: "\<exists>ls o'. greeting (win32_backend A) s = (Ok ls, s\<lparr>w32_os := o'\<rparr>)"
proof -
  obtain caps o' where "win32_get_capabilities A s = (Ok caps, s\<lparr>w32_os := o'\<rparr>)"
    unfolding win32_get_capabilities_def case_prod_beta by blast
  then show ?thesis
    by (auto simp: greeting_def win32_backend_def win32_get_env_metadata_def env_metadata_def andThen_def obj_at_def as_str_def
        lift_res_def comp_simps)
qed

text \<open>C26: what the command line limits is limited. After the start on Windows no answer to \<open>mem.read\<close> has
  more bytes than \<open>--max-mem-read\<close>, services are waited for as long as \<open>--service-timeout\<close> says, and the
  depth of the UI Automation walk is \<open>--uia-depth\<close>. Without that option it is 5 on every system: the
  backend's own default of 50 is overwritten.\<close>

theorem options_reach_backend:
  assumes "0 \<le> op_max_mem_read o'" "op_max_mem_read o' < 2 ^ 31" "\<bar>op_uia_depth o'\<bar> < 2 ^ 31" "\<bar>op_service_timeout o'\<bar> < 2 ^ 31"
  shows "\<exists>d s. start_daemon files (win32_backend A) ts o' b = Ok d \<and> w_backend (d_world d) = s \<and>
    w32_uia_depth s = (if op_uia_depth o' = - 1 then 5 else op_uia_depth o') \<and>
    w32_service_timeout s = op_service_timeout o' \<and>
    (\<forall>pid addr n mr s'. mem_read (win32_backend A) pid addr n s = (Ok (Some mr), s') \<longrightarrow>
      length (decode (mr_data_b64 mr)) \<le> nat (op_max_mem_read o'))"
proof -
  define depth where "depth = (if op_uia_depth o' = - 1 then 5 else op_uia_depth o')"
  let ?b = "b\<lparr>w32_uia_depth := depth, w32_max_mem_read := word_of_int (op_max_mem_read o'), w32_service_timeout := op_service_timeout o'\<rparr>"
  have u: "uint (word_of_int (op_max_mem_read o') :: 64 word) = op_max_mem_read o'"
    using assms(1,2) by (simp add: uint_word_of_int)
  have d: "\<bar>depth\<bar> < 2 ^ 31" "uia_depth (configured_state o') = depth"
    using assms(3) by (simp_all add: depth_def configured_state_def new_server_state_def)
  have "backend_config (configured_state o') = obj_of [(''max_mem_read'', num_of_int (op_max_mem_read o')),
      (''uia_depth'', num_of_int depth), (''service_timeout'', num_of_int (op_service_timeout o'))]"
    by (simp add: backend_config_def d(2)) (simp add: configured_state_def u)
  then have "set_config (win32_backend A) (backend_config (configured_state o')) b = (Ok (), ?b)"
    using casts_of_int(1)[OF d(1)] casts_of_int(2)[OF assms(1,2)] casts_of_int(1)[OF assms(4)]
    by (simp add: win32_backend_def win32_set_config_def configured_def obj_at_def as_num_def lift_res_def andThen_def comp_simps)
  moreover obtain ls x where "greeting (win32_backend A) ?b = (Ok ls, ?b\<lparr>w32_os := x\<rparr>)" using win32_greets[of A ?b] by auto
  ultimately have "\<exists>d. start_daemon files (win32_backend A) ts o' b = Ok d \<and> w_backend (d_world d) = ?b\<lparr>w32_os := x\<rparr>"
    by (simp add: start_daemon_def Let_def andThen_def)
  then obtain d where "start_daemon files (win32_backend A) ts o' b = Ok d \<and> w_backend (d_world d) = ?b\<lparr>w32_os := x\<rparr>" ..
  moreover have "unat (word_of_int (op_max_mem_read o') :: 64 word) = nat (op_max_mem_read o')"
    by (simp add: unat_eq_nat_uint u)
  then have "\<forall>pid addr n mr s'. mem_read (win32_backend A) pid addr n (?b\<lparr>w32_os := x\<rparr>) = (Ok (Some mr), s') \<longrightarrow>
      length (decode (mr_data_b64 mr)) \<le> nat (op_max_mem_read o')"
    by (auto simp: win32_backend_def win32_mem_read_def Let_def not_less word_le_nat_alt split: if_splits option.splits)
  ultimately show ?thesis by (auto simp: depth_def)
qed

theorem options_reach_backend_witness:
  "\<exists>d. start_daemon (\<lambda>_. None) (win32_backend desk) ''t'' (default_options\<lparr>op_max_mem_read := 16\<rparr>) desk_state = Ok d \<and>
    w32_uia_depth (w_backend (d_world d)) = 5 \<and> w32_uia_depth desk_state = 50 \<and>
    (\<forall>pid addr n mr s'. mem_read (win32_backend desk) pid addr n (w_backend (d_world d)) = (Ok (Some mr), s') \<longrightarrow>
      length (decode (mr_data_b64 mr)) \<le> 16)"
proof -
  have "w32_uia_depth desk_state = 50" by (simp add: desk_state_def new_win32_def desk_def desk_platform_def)
  with options_reach_backend[of "default_options\<lparr>op_max_mem_read := 16\<rparr>" "\<lambda>_. None" desk "''t''" desk_state]
  show ?thesis unfolding default_options_def by auto
qed

section \<open>Services\<close>

text \<open>The clock goes on while the backend sleeps: two sleeps of half a second are a second.\<close>

definition ticking :: "('o, 'e) Windows \<Rightarrow> bool" where
  "ticking A \<longleftrightarrow> (\<forall>o'. seconds (scm A) o' \<le> seconds (scm A) (wait_half_second (scm A) o') \<and>
     seconds (scm A) o' < seconds (scm A) (wait_half_second (scm A) (wait_half_second (scm A) o')))"

text \<open>A service handle answers a query only when it was opened with \<open>SERVICE_QUERY_STATUS\<close>.\<close>

definition rights_checked :: "('o, 'e) Windows \<Rightarrow> bool" where
  "rights_checked A \<longleftrightarrow> (\<forall>n access o'. access AND 4 = 0 \<longrightarrow> service_state (scm A) n access o' = None)"

lemma await_state_returns:
  assumes "ticking A"
  shows "timeout - (seconds (scm A) o' - start) \<le> int k \<Longrightarrow>
    \<exists>o2. await_state A n access target start timeout o' = Some o2 \<and>
      (service_state (scm A) n access o2 = Some target \<or> timeout \<le> seconds (scm A) o2 - start)"
proof (induction k arbitrary: o')
  case 0
  then show ?case by (subst await_state.simps) auto
next
  case (Suc k)
  let ?o1 = "wait_half_second (scm A) o'"
  let ?o2 = "wait_half_second (scm A) ?o1"
  have "seconds (scm A) o' < seconds (scm A) ?o2" using assms by (simp add: ticking_def)
  then have "timeout - (seconds (scm A) ?o2 - start) \<le> int k" using Suc.prems by simp
  from Suc.IH[OF this] show ?case
    by (subst await_state.simps, subst await_state.simps) auto
qed

text \<open>A request to start or stop a service returns as long as the clock goes on. It reports success as
  soon as the system accepts the command, whether or not the service reaches the state; and a start is
  always waited for until the time is up, because the handle it polls was opened without the right to query.\<close>

theorem service_control_waits:
  assumes "ticking A" "rights_checked A"
  shows "\<exists>ok s'. service_control (win32_backend A) name action s = (Ok ok, s') \<and>
    (action = ''start'' \<longrightarrow> ok \<longrightarrow> (\<exists>o1. start_service (scm A) (c_wide (widen name)) (w32_os s) = (True, o1) \<and>
      w32_service_timeout s \<le> seconds (scm A) (w32_os s') - seconds (scm A) o1))"
proof -
  have wait: "\<exists>o2. await_state A n access target (seconds (scm A) o1) timeout o1 = Some o2 \<and>
      (service_state (scm A) n access o2 = Some target \<or> timeout \<le> seconds (scm A) o2 - seconds (scm A) o1)"
    for n access target timeout o1
    using await_state_returns[OF assms(1), of timeout o1 "seconds (scm A) o1" "nat timeout"] by simp
  have started: "\<exists>o2. await_state A n 16 4 (seconds (scm A) o1) timeout o1 = Some o2 \<and>
      timeout \<le> seconds (scm A) o2 - seconds (scm A) o1" for n timeout o1
    using wait[where n = n and access = 16 and target = 4 and timeout = timeout and ?o1.0 = o1] assms(2)
    by (auto simp: rights_checked_def)
  show ?thesis
  proof (cases "action = ''start''")
    case True
    obtain b o1 where "start_service (scm A) (c_wide (widen name)) (w32_os s) = (b, o1)" by fastforce
    with True started[where n = "c_wide (widen name)" and timeout = "w32_service_timeout s" and ?o1.0 = o1] show ?thesis
      by (auto simp: win32_backend_def win32_service_control_def Let_def andThen_def ask_os_def run_os_def ret_def control_access_def)
  next
    case False
    obtain b o1 where "stop_service (scm A) (c_wide (widen name)) (w32_os s) = (b, o1)" by fastforce
    with False wait[where n = "c_wide (widen name)" and access = "32 OR 4" and target = 1 and timeout = "w32_service_timeout s" and ?o1.0 = o1]
    show ?thesis
      by (auto simp: win32_backend_def win32_service_control_def Let_def andThen_def ask_os_def run_os_def ret_def control_access_def)
  qed
qed

theorem service_control_waits_witness:
  "\<exists>s'. service_control (win32_backend desk) ''spooler'' ''start'' desk_state = (Ok True, s') \<and>
    30 \<le> seconds (scm desk) (w32_os s') - seconds (scm desk) (w32_os desk_state)"
proof -
  have "ticking desk" "rights_checked desk"
    by (simp_all add: ticking_def rights_checked_def desk_def desk_scm_def zdiv_mono1)
  from service_control_waits[OF this, of "''spooler''" "''start''" desk_state]
  obtain ok s' where *: "service_control (win32_backend desk) ''spooler'' ''start'' desk_state = (Ok ok, s')"
    "ok \<Longrightarrow> w32_service_timeout desk_state \<le> seconds (scm desk) (w32_os s') - seconds (scm desk) (w32_os desk_state)"
    by (auto simp: desk_def desk_scm_def)
  moreover have "ok"
    using *(1) by (auto simp: win32_backend_def win32_service_control_def Let_def andThen_def ask_os_def run_os_def desk_def desk_scm_def
        split: option.splits)
  ultimately show ?thesis by (auto simp: desk_state_def new_win32_def desk_def desk_platform_def)
qed

section \<open>The environment\<close>

lemma c_wide_ended: "0 \<notin> set ws \<Longrightarrow> c_wide (ws @ 0 # rest) = ws"
  by (induction ws) (auto simp: c_wide_def)

lemma env_strings_block:
  "\<forall>s \<in> set ss. s \<noteq> [] \<and> 0 \<notin> set s \<Longrightarrow> env_strings (concat (map (\<lambda>s. s @ [0]) ss) @ [0]) = ss"
proof (induction ss)
  case Nil
  then show ?case by (simp add: c_wide_def)
next
  case (Cons s ss)
  then show ?case by (subst env_strings.simps) (simp add: c_wide_ended Let_def del: env_strings.simps)
qed

text \<open>The environment is read back: from a block that holds pairs of a name and a value, every pair is
  listed in order, converted to UTF-8; a value may contain further equals signs.\<close>

theorem environment_listed:
  assumes "\<forall>(n, v) \<in> set es. n \<noteq> [] \<and> 0 \<notin> set n \<and> 0x3D \<notin> set n \<and> 0 \<notin> set v"
    and "environment_block (env A) (w32_os s) = Some (concat (map (\<lambda>(n, v). n @ 0x3D # v @ [0]) es) @ [0])"
  shows "env_get_all (win32_backend A) s = (Ok (map (\<lambda>(n, v). \<lparr>ev_name = w2u8 A n, ev_value = w2u8 A v\<rparr>) es), s)"
proof -
  let ?ss = "map (\<lambda>(n, v). n @ 0x3D # v) es"
  have "concat (map (\<lambda>(n, v). n @ 0x3D # v @ [0]) es) = concat (map (\<lambda>s. s @ [0]) ?ss)"
    by (induction es) auto
  moreover have "env_strings (concat (map (\<lambda>s. s @ [0]) ?ss) @ [0]) = ?ss"
    using assms(1) by (intro env_strings_block) auto
  moreover have "List.map_filter (env_entry A) ?ss = map (\<lambda>(n, v). \<lparr>ev_name = w2u8 A n, ev_value = w2u8 A v\<rparr>) es"
    using assms(1)
  proof (induction es)
    case (Cons e es)
    obtain n v where e: "e = (n, v)" by fastforce
    have "takeWhile (\<lambda>c. c \<noteq> 0x3D) (n @ 0x3D # v) = n"
      using Cons.prems by (subst takeWhile_append2) (auto simp: e)
    then show ?case using Cons by (simp add: e env_entry_def Let_def List.map_filter_simps)
  qed (simp add: List.map_filter_simps)
  ultimately show ?thesis
    using assms(2) by (simp add: win32_backend_def win32_env_get_all_def ask_os_def del: env_strings.simps)
qed

theorem environment_listed_witness:
  "env_get_all (win32_backend desk) desk_state = (Ok [\<lparr>ev_name = ''A'', ev_value = ''B''\<rparr>], desk_state)"
proof -
  have "w2u8 desk [0x41] = ''A''" "w2u8 desk [0x42] = ''B''" by code_simp+
  with environment_listed[of "[([0x41], [0x42])]" desk desk_state] show ?thesis
    by (simp add: desk_def desk_env_def)
qed

section \<open>Styles\<close>

lemma flag_bit: "n < 64 \<Longrightarrow> (style AND (2 ^ n :: 64 word) = 2 ^ n) \<longleftrightarrow> bit style n"
  by (auto simp: bit_simps intro!: bit_word_eqI dest: arg_cong[where f = "\<lambda>w. bit w n"])

text \<open>A window's horizontal scroll bar is reported as a vertical one: \<open>WS_VSCROLL\<close> is listed when
  either style bit is set, and \<open>WS_HSCROLL\<close> never.\<close>

theorem scroll_bars_confused:
  "(''WS_VSCROLL'' \<in> set (parse_ws style) \<longleftrightarrow> bit style 21 \<or> bit style 20) \<and> ''WS_HSCROLL'' \<notin> set (parse_ws style)"
  using flag_bit[of 21 style] flag_bit[of 20 style] by (auto simp: parse_ws_def ws_flags_def)

end
