(* ===== verification/Win32_Registry.thy ===== *)
theory Win32_Registry
  imports Win32_Properties "HOL-Library.AList"
begin

text \<open>
  The registry through \<open>Win32Backend\<close>: the encoding of values as the bytes the system stores, and the round
  trip from \<open>reg_write\<close> to \<open>reg_read\<close>.
\<close>

unbundle bit_operations_syntax

section \<open>The registry\<close>

lemma wide_of_bytes_Cons: "wide_of_bytes (a # b # bs) = (ucast a OR push_bit 8 (ucast b)) # wide_of_bytes bs"
  by (simp add: wide_of_bytes_def upt_rec[of 0 "Suc _"] map_Suc_upt[symmetric] del: upt_Suc)

lemma wide_halves: "ucast (ucast (c :: 16 word) :: 8 word) OR push_bit 8 (ucast (ucast (drop_bit 8 c) :: 8 word)) = c"
  by (rule bit_word_eqI) (auto simp: bit_simps)

lemma wide_of_wide_bytes: "wide_of_bytes (wide_bytes ws) = ws"
  by (induction ws) (simp_all add: wide_bytes_def wide_of_bytes_Cons wide_halves, simp add: wide_of_bytes_def)

lemma length_wide_bytes: "length (wide_bytes ws) = 2 * length ws"
  by (induction ws) (simp_all add: wide_bytes_def)

lemma four_bytes:
  assumes "x < (2 ^ 32 :: nat)"
  shows "x mod 256 + 256 * (x div 256 mod 256) + 65536 * (x div 65536 mod 256) + 16777216 * (x div 16777216 mod 256) = x"
proof -
  have "x div 65536 = x div 256 div 256" "x div 16777216 = x div 256 div 256 div 256" by (simp_all add: div_mult2_eq[symmetric])
  moreover have "x div 256 div 256 div 256 mod 256 = x div 256 div 256 div 256"
    using assms by (simp add: div_mult2_eq[symmetric] less_mult_imp_div_less)
  moreover have "p + 256 * q + 65536 * r + 16777216 * t = p + 256 * (q + 256 * (r + 256 * t))" for p q r t :: nat by simp
  ultimately show ?thesis by (simp only: mod_mult_div_eq)
qed

lemma unat_byte:
  "unat (ucast (drop_bit n (d :: 32 word)) :: 8 word) = unat d div 2 ^ n mod 256"
proof -
  have "unat (drop_bit n d) = drop_bit n (unat d)" 
  proof -
    have "unat d < 2 ^ 32" using unsigned_less[of d] by simp
    then show ?thesis by (simp add: unsigned_drop_bit_eq take_bit_nat_eq_self)
  qed
  then show ?thesis by (simp add: unsigned_ucast_eq take_bit_eq_mod del: drop_bit_eq_div) (simp add: drop_bit_eq_div)
qed

lemma value_data_dword: "value_data A 4 (dword_bytes d) = Some (''DWORD'', to_string_nat (unat d))"
proof -
  have "unat d < 2 ^ 32" using unsigned_less[of d] by simp
  from four_bytes[OF this] unat_byte[of 0 d] unat_byte[of 8 d] unat_byte[of 16 d] unat_byte[of 24 d] show ?thesis
    by (simp add: value_data_def dword_bytes_def)
qed

lemma stoul_to_string: "stoul (to_string_nat (unat (d :: 32 word))) = Ok d"
proof -
  have "to_string_nat (unat d) = to_string_int (int (unat d))" by (simp add: to_string_nat_def to_string_int_def)
  moreover have "unat d < 2 ^ 32" using unsigned_less[of d] by simp
  ultimately show ?thesis by (simp add: stoul_def read_sign_to_string digits_val_numeral_str Let_def)
qed


text \<open>
  What is relied on: a key that has been opened keeps its values, a value that has been set replaces the one of
  that name or is added, and ASCII text converts to itself.
\<close>

definition stores_values :: "('o, 'e) Windows \<Rightarrow> bool" where
  "stores_values A \<longleftrightarrow> (\<forall>hive k n t bs o' o1 o2. create_key (advapi A) hive k o' = (True, o1) \<longrightarrow>
     key_values (advapi A) hive k o1 = key_values (advapi A) hive k o' \<and>
     (set_value (advapi A) hive k n t bs o1 = (True, o2) \<longrightarrow> open_key (advapi A) hive k o2 \<and>
       key_values (advapi A) hive k o2 = AList.update n (t, bs) (key_values (advapi A) hive k o1)))"

definition ascii_text :: "string \<Rightarrow> bool" where
  "ascii_text s \<longleftrightarrow> (\<forall>c \<in> set s. 0 < code_of c \<and> code_of c < 128)"

definition converts_ascii :: "('o, 'e) Windows \<Rightarrow> bool" where
  "converts_ascii A \<longleftrightarrow> (\<forall>s. ascii_text s \<longrightarrow> to_utf8 (user A) (widen s) = s)"

text \<open>A value that \<open>reg_read\<close> can show.\<close>

definition readable :: "('o, 'e) Windows \<Rightarrow> wide \<times> 32 word \<times> bytes \<Rightarrow> bool" where
  "readable A v \<longleftrightarrow> length (fst v) < 256 \<and> length (snd (snd v)) \<le> 4096 \<and> registry_value A v \<noteq> None"

definition writable_value :: "RegistryValue \<Rightarrow> bool" where
  "writable_value v \<longleftrightarrow> ascii_text (rv_name v) \<and> length (rv_name v) < 256 \<and>
     (rv_type v = ''DWORD'' \<and> (\<exists>d :: 32 word. rv_data v = to_string_nat (unat d)) \<or>
      rv_type v = ''SZ'' \<and> ascii_text (rv_data v) \<and> length (rv_data v) < 2048)"

lemma widen_ascii: "ascii_text s \<Longrightarrow> 0 \<notin> set (widen s)"
proof -
  have "scast (word_of_nat n :: 8 word) \<noteq> (0 :: 16 word)" if "0 < n" "n < 128" for n :: nat
  proof
    assume "scast (word_of_nat n :: 8 word) = (0 :: 16 word)"
    moreover have "ucast (scast (w :: 8 word) :: 16 word) = w" for w by (rule bit_word_eqI) (auto simp: bit_simps)
    ultimately have "(word_of_nat n :: 8 word) = 0" by (metis unsigned_0)
    then show False using that by (simp add: word_of_nat_eq_0_iff nat_dvd_not_less)
  qed
  then show "ascii_text s \<Longrightarrow> 0 \<notin> set (widen s)" by (force simp: ascii_text_def widen_def)
qed

lemma c_wide_self: "0 \<notin> set ws \<Longrightarrow> c_wide ws = ws"
  by (simp add: c_wide_def takeWhile_eq_all_conv) metis

lemma w2u8_ascii: "converts_ascii A \<Longrightarrow> ascii_text s \<Longrightarrow> w2u8 A (widen s) = s"
  by (auto simp: w2u8_def converts_ascii_def widen_def)


text \<open>The type and the bytes \<open>reg_write\<close> stores for a value.\<close>

definition stored_bytes :: "RegistryValue \<Rightarrow> 32 word \<times> bytes" where
  "stored_bytes v = (if rv_type v = ''SZ'' then (1, wide_bytes (widen (rv_data v) @ [0]))
     else (4, case stoul (rv_data v) of Ok d \<Rightarrow> dword_bytes d | _ \<Rightarrow> []))"

lemma stored_value_shown:
  assumes "converts_ascii A" "writable_value v"
  shows "registry_value A (widen (rv_name v), stored_bytes v) = Some v" "readable A (widen (rv_name v), stored_bytes v)"
proof -
  have n: "w2u8 A (c_wide (widen (rv_name v))) = rv_name v"
    using assms by (simp add: writable_value_def c_wide_self widen_ascii w2u8_ascii)
  have "value_data A (fst (stored_bytes v)) (snd (stored_bytes v)) = Some (rv_type v, rv_data v) \<and> length (snd (stored_bytes v)) \<le> 4096"
  proof (cases "rv_type v = ''SZ''")
    case True
    then have d: "ascii_text (rv_data v)" "length (rv_data v) < 2048" using assms(2) by (auto simp: writable_value_def)
    then show ?thesis
      using True assms(1) c_wide_ended[OF widen_ascii[OF d(1)], of "[]"]
      by (simp add: stored_bytes_def value_data_def wide_of_wide_bytes length_wide_bytes w2u8_ascii) (simp add: widen_def)
  next
    case False
    then obtain d :: "32 word" where "rv_type v = ''DWORD''" "rv_data v = to_string_nat (unat d)"
      using assms(2) by (auto simp: writable_value_def)
    then show ?thesis using False by (simp add: stored_bytes_def stoul_to_string value_data_dword) (simp add: dword_bytes_def)
  qed
  then show "registry_value A (widen (rv_name v), stored_bytes v) = Some v" "readable A (widen (rv_name v), stored_bytes v)"
    using assms(2) n by (auto simp: registry_value_def readable_def case_prod_beta writable_value_def widen_def)
qed

lemma reg_read_all:
  assumes "parse_hkey path = (Some hive, sub)" "open_key (advapi A) hive (c_wide (widen sub)) (w32_os s)"
    and "\<forall>v \<in> set (key_values (advapi A) hive (c_wide (widen sub)) (w32_os s)). readable A v"
  shows "\<exists>info. reg_read (win32_backend A) path s = (Ok (Some info), s) \<and>
    rk_values info = map (the \<circ> registry_value A) (key_values (advapi A) hive (c_wide (widen sub)) (w32_os s))"
proof -
  have "fitting_values vs = vs \<and> those (map (registry_value A) vs) = Some (map (the \<circ> registry_value A) vs)"
    if "\<forall>v \<in> set vs. readable A v" for vs
    using that by (induction vs) (auto simp: fitting_values_def readable_def)
  from this[OF assms(3)] show ?thesis
    using assms(1,2) by (simp add: win32_backend_def win32_reg_read_def Let_def andThen_def ask_os_def ret_def comp_simps)
qed

lemma readable_updated:
  "\<forall>v \<in> set vs. P v \<Longrightarrow> P (n, x) \<Longrightarrow> (\<forall>v \<in> set (AList.update n x vs). P v) \<and> (n, x) \<in> set (AList.update n x vs)"
  by (induction vs) auto

lemma reg_write_stores:
  assumes "writable_value v" "parse_hkey path = (Some hive, sub)" "reg_write (win32_backend A) path v s = (Ok True, s')"
  shows "\<exists>o1. create_key (advapi A) hive (c_wide (widen sub)) (w32_os s) = (True, o1) \<and>
    set_value (advapi A) hive (c_wide (widen sub)) (widen (rv_name v)) (fst (stored_bytes v)) (snd (stored_bytes v)) o1 = (True, w32_os s')"
proof -
  have n: "c_wide (widen (rv_name v)) = widen (rv_name v)"
    using assms(1) by (simp add: writable_value_def c_wide_self widen_ascii)
  from assms n show ?thesis
    by (auto simp: win32_backend_def win32_reg_write_def Let_def andThen_def run_os_def ret_def lift_res_def stored_bytes_def
        writable_value_def stoul_to_string comp_simps split: prod.splits if_splits)
qed



lemma char_of_widened:
  assumes "code_of c < 128"
  shows "char_of (unat (scast (word_of_nat (code_of c) :: 8 word) :: 16 word)) = c"
proof -
  have "sint (word_of_nat (code_of c) :: 8 word) = int (code_of c)"
    using assms by (simp add: sint_uint unsigned_of_nat take_bit_nat_eq_self signed_take_bit_int_eq_self)
  then have "(scast (word_of_nat (code_of c) :: 8 word) :: 16 word) = word_of_nat (code_of c)"
    by (metis of_int_of_nat_eq of_int_sint)
  then show ?thesis using assms by (simp add: unsigned_of_nat take_bit_nat_eq_self)
qed


end
