(* ===== verification/Uia_Extension.thy ===== *)
theory Uia_Extension
  imports Win32_System
begin

text \<open>
  The COM server of \<open>tools/wine-uia-extension/extension.cpp\<close>: reference counts of the two classes, the global
  count that keeps the library loaded, the exported functions and the registration. Clients are a step relation
  over what they hold, and the theorem is that the library offers to be unloaded exactly when nobody holds
  anything.
\<close>

unbundle bit_operations_syntax

section \<open>Objects\<close>

type_synonym guid = "32 word \<times> 16 word \<times> 16 word \<times> 8 word list"

definition CLSID_WineUIAExtension :: guid where
  "CLSID_WineUIAExtension = (0x12345678, 0x1234, 0x1234, [0x12, 0x34, 0x12, 0x34, 0x56, 0x78, 0x9A, 0xBC])"

definition IID_IUnknown :: guid where
  "IID_IUnknown = (0, 0, 0, [0xC0, 0, 0, 0, 0, 0, 0, 0x46])"

definition IID_IClassFactory :: guid where
  "IID_IClassFactory = (1, 0, 0, [0xC0, 0, 0, 0, 0, 0, 0, 0x46])"

datatype hresult = S_OK | S_FALSE | E_POINTER | E_NOINTERFACE | E_FAIL | CLASS_E_NOAGGREGATION | CLASS_E_CLASSNOTAVAILABLE

datatype com_class = CMyUIAProxy | CClassFactory

text \<open>The objects that are alive, each with its \<open>m_refCount\<close>; an address is never used twice.\<close>

record Com =
  com_objects :: "nat \<Rightarrow> (com_class \<times> 32 word) option"
  com_next :: nat
  g_refCount :: "32 word"
  g_hInst :: "nat option"

definition new_com :: Com where
  "new_com = \<lparr>com_objects = (\<lambda>_. None), com_next = 0, g_refCount = 0, g_hInst = None\<rparr>"

definition new_object :: "com_class \<Rightarrow> Com \<Rightarrow> nat \<times> Com" where
  "new_object k s = (com_next s, s\<lparr>com_objects := (com_objects s)(com_next s \<mapsto> (k, 1)), com_next := com_next s + 1,
     g_refCount := g_refCount s + 1\<rparr>)"

text \<open>A call on an object that has been deleted is undefined.\<close>

definition AddRef :: "nat \<Rightarrow> (Com, 32 word) comp" where
  "AddRef i = (\<lambda>s. case com_objects s i of None \<Rightarrow> (Stuck, s)
     | Some (k, c) \<Rightarrow> (Ok (c + 1), s\<lparr>com_objects := (com_objects s)(i \<mapsto> (k, c + 1))\<rparr>))"

definition Release :: "nat \<Rightarrow> (Com, 32 word) comp" where
  "Release i = (\<lambda>s. case com_objects s i of None \<Rightarrow> (Stuck, s)
     | Some (k, c) \<Rightarrow> (Ok (c - 1),
         if c - 1 = 0 then s\<lparr>com_objects := (com_objects s)(i := None), g_refCount := g_refCount s - 1\<rparr>
         else s\<lparr>com_objects := (com_objects s)(i \<mapsto> (k, c - 1))\<rparr>))"

definition interfaces :: "com_class \<Rightarrow> guid set" where
  "interfaces k = (case k of CMyUIAProxy \<Rightarrow> {IID_IUnknown} | CClassFactory \<Rightarrow> {IID_IUnknown, IID_IClassFactory})"

text \<open>\<open>out\<close> tells whether the caller passes a place for the pointer; the pointer is part of the result.\<close>

definition QueryInterface :: "nat \<Rightarrow> guid \<Rightarrow> bool \<Rightarrow> (Com, hresult \<times> nat option) comp" where
  "QueryInterface i riid out = (\<lambda>s. case com_objects s i of None \<Rightarrow> (Stuck, s)
     | Some (k, c) \<Rightarrow>
         if \<not> out then (Ok (E_POINTER, None), s)
         else if riid \<in> interfaces k then andThen (AddRef i) (\<lambda>_. ret (S_OK, Some i)) s
         else (Ok (E_NOINTERFACE, None), s))"

text \<open>A new object, asked for an interface, and given up by its creator.\<close>

definition make_object :: "com_class \<Rightarrow> guid \<Rightarrow> bool \<Rightarrow> (Com, hresult \<times> nat option) comp" where
  "make_object k riid out = (\<lambda>s. case new_object k s of (i, s1) \<Rightarrow>
     andThen (QueryInterface i riid out) (\<lambda>r. andThen (Release i) (\<lambda>_. ret r)) s1)"

definition CreateInstance :: "bool \<Rightarrow> guid \<Rightarrow> bool \<Rightarrow> (Com, hresult \<times> nat option) comp" where
  "CreateInstance aggregated riid out =
     (if aggregated then ret (CLASS_E_NOAGGREGATION, None) else make_object CMyUIAProxy riid out)"

definition LockServer :: "bool \<Rightarrow> (Com, hresult) comp" where
  "LockServer fLock = (\<lambda>s. (Ok S_OK, s\<lparr>g_refCount := (if fLock then g_refCount s + 1 else g_refCount s - 1)\<rparr>))"

section \<open>The exported functions\<close>

definition DllMain :: "nat \<Rightarrow> bool \<Rightarrow> (Com, bool) comp" where
  "DllMain hInst attach = (\<lambda>s. (Ok True, if attach then s\<lparr>g_hInst := Some hInst\<rparr> else s))"

definition DllGetClassObject :: "guid \<Rightarrow> guid \<Rightarrow> bool \<Rightarrow> (Com, hresult \<times> nat option) comp" where
  "DllGetClassObject rclsid riid out =
     (if rclsid = CLSID_WineUIAExtension then make_object CClassFactory riid out else ret (CLASS_E_CLASSNOTAVAILABLE, None))"

definition DllCanUnloadNow :: "Com \<Rightarrow> hresult" where
  "DllCanUnloadNow s = (if g_refCount s = 0 then S_OK else S_FALSE)"

text \<open>
  Registration under \<open>HKEY_CLASSES_ROOT\<close>. The registry, the path of the module and the text of a GUID are the
  system's.
\<close>

record 'o ClassesRoot =
  cr_create :: "wide \<Rightarrow> 'o \<Rightarrow> bool \<times> 'o"
  cr_set :: "wide \<Rightarrow> wide option \<Rightarrow> bytes \<Rightarrow> 'o \<Rightarrow> bool \<times> 'o"
  cr_delete_tree :: "wide \<Rightarrow> 'o \<Rightarrow> bool \<times> 'o"
  module_file_name :: "nat option \<Rightarrow> wide option"
  guid_text :: "guid \<Rightarrow> wide"

definition SetRegistryKey :: "'o ClassesRoot \<Rightarrow> wide \<Rightarrow> wide \<Rightarrow> wide \<Rightarrow> 'o \<Rightarrow> bool \<times> 'o" where
  "SetRegistryKey R sub_key value_name data o' = (case cr_create R (c_wide sub_key) o' of (ok, o1) \<Rightarrow>
     if \<not> ok then (False, o1)
     else cr_set R (c_wide sub_key) (if value_name = [] then None else Some (c_wide value_name)) (wide_bytes (data @ [0])) o1)"

definition class_key :: "'o ClassesRoot \<Rightarrow> wide" where
  "class_key R = widen (''CLSID'' @ [CHR 0x5C]) @ c_wide (guid_text R CLSID_WineUIAExtension)"

definition DllRegisterServer :: "'o ClassesRoot \<Rightarrow> Com \<Rightarrow> 'o \<Rightarrow> hresult \<times> 'o" where
  "DllRegisterServer R s o' = (case module_file_name R (g_hInst s) of None \<Rightarrow> (E_FAIL, o')
     | Some path \<Rightarrow>
         let key = class_key R; server = key @ widen ([CHR 0x5C] @ ''InProcServer32'') in
         (case SetRegistryKey R key [] (widen ''Wine UIA Extension'') o' of (ok1, o1) \<Rightarrow>
          if \<not> ok1 then (E_FAIL, o1)
          else case SetRegistryKey R server [] (c_wide path) o1 of (ok2, o2) \<Rightarrow>
          if \<not> ok2 then (E_FAIL, o2)
          else case SetRegistryKey R server (widen ''ThreadingModel'') (widen ''Both'') o2 of (ok3, o3) \<Rightarrow>
          (if ok3 then S_OK else E_FAIL, o3)))"

definition DllUnregisterServer :: "'o ClassesRoot \<Rightarrow> 'o \<Rightarrow> hresult \<times> 'o" where
  "DllUnregisterServer R o' = (S_OK, snd (cr_delete_tree R (class_key R) o'))"

section \<open>Clients\<close>

text \<open>
  What the clients of the library hold: how many references to each object, and how many locks. They call only
  what they hold, and give back only what they have.
\<close>

record Held =
  held_refs :: "nat \<Rightarrow> nat"
  held_locks :: nat

definition take_out :: "nat option \<Rightarrow> Held \<Rightarrow> Held" where
  "take_out p H = (case p of None \<Rightarrow> H | Some i \<Rightarrow> H\<lparr>held_refs := (held_refs H)(i := held_refs H i + 1)\<rparr>)"

inductive com_step :: "Com \<times> Held \<Rightarrow> Com \<times> Held \<Rightarrow> bool" where
  get_class: "DllGetClassObject clsid iid out s = (Ok (hr, p), s') \<Longrightarrow> com_step (s, H) (s', take_out p H)"
| create: "0 < held_refs H f \<Longrightarrow> com_objects s f = Some (CClassFactory, c) \<Longrightarrow>
    CreateInstance agg iid out s = (Ok (hr, p), s') \<Longrightarrow> com_step (s, H) (s', take_out p H)"
| query: "0 < held_refs H i \<Longrightarrow> QueryInterface i iid out s = (Ok (hr, p), s') \<Longrightarrow> com_step (s, H) (s', take_out p H)"
| add: "0 < held_refs H i \<Longrightarrow> AddRef i s = (Ok n, s') \<Longrightarrow> com_step (s, H) (s', take_out (Some i) H)"
| release: "0 < held_refs H i \<Longrightarrow> Release i s = (Ok n, s') \<Longrightarrow>
    com_step (s, H) (s', H\<lparr>held_refs := (held_refs H)(i := held_refs H i - 1)\<rparr>)"
| lock: "LockServer True s = (Ok hr, s') \<Longrightarrow> com_step (s, H) (s', H\<lparr>held_locks := held_locks H + 1\<rparr>)"
| unlock: "0 < held_locks H \<Longrightarrow> LockServer False s = (Ok hr, s') \<Longrightarrow>
    com_step (s, H) (s', H\<lparr>held_locks := held_locks H - 1\<rparr>)"
| main: "DllMain h a s = (Ok b, s') \<Longrightarrow> com_step (s, H) (s', H)"

inductive com_run :: "nat \<Rightarrow> Com \<times> Held \<Rightarrow> bool" where
  start: "com_run 0 (new_com, \<lparr>held_refs = (\<lambda>_. 0), held_locks = 0\<rparr>)"
| step: "com_run n t \<Longrightarrow> com_step t t' \<Longrightarrow> com_run (Suc n) t'"

section \<open>The counts\<close>

fun matched :: "(com_class \<times> 32 word) option \<Rightarrow> nat \<Rightarrow> bool" where
  "matched None n \<longleftrightarrow> n = 0"
| "matched (Some (k, c)) n \<longleftrightarrow> 0 < n \<and> c = of_nat n"

definition counted :: "Com \<Rightarrow> Held \<Rightarrow> bool" where
  "counted s H \<longleftrightarrow> (\<forall>i. matched (com_objects s i) (held_refs H i)) \<and>
     finite (dom (com_objects s)) \<and> (\<forall>i \<ge> com_next s. com_objects s i = None) \<and>
     g_refCount s = of_nat (card (dom (com_objects s)) + held_locks H)"

definition few :: "nat \<Rightarrow> Com \<Rightarrow> Held \<Rightarrow> bool" where
  "few n s H \<longleftrightarrow> (\<forall>i. held_refs H i \<le> n) \<and> card (dom (com_objects s)) + held_locks H \<le> n"

lemma counted_object:
  assumes "counted s H" "0 < held_refs H i"
  shows "\<exists>k. com_objects s i = Some (k, of_nat (held_refs H i))"
  using assms by (cases "com_objects s i") (auto simp: counted_def elim!: matched.elims dest!: spec[of _ i])

lemma counted_alive:
  assumes "counted s H" "com_objects s i = Some (k, c)"
  shows "0 < held_refs H i" "c = of_nat (held_refs H i)"
  using assms by (auto simp: counted_def dest!: spec[of _ i])

lemma counted_gone: "counted s H \<Longrightarrow> com_objects s i = None \<Longrightarrow> held_refs H i = 0"
  by (auto simp: counted_def dest!: spec[of _ i])

lemma counted_gone_iff: "counted s H \<Longrightarrow> com_objects s i = None \<longleftrightarrow> held_refs H i = 0"
  using counted_gone[of s H i] counted_alive(1)[of s H i] by (cases "com_objects s i") auto

lemma counted_next: "counted s H \<Longrightarrow> com_objects s i = Some x \<Longrightarrow> \<not> com_next s \<le> i"
  by (auto simp: counted_def)

lemma make_object_result:
  assumes "counted s H"
  shows "make_object k riid out s =
    (if out \<and> riid \<in> interfaces k
     then (Ok (S_OK, Some (com_next s)), s\<lparr>com_objects := (com_objects s)(com_next s \<mapsto> (k, 1)), com_next := com_next s + 1,
       g_refCount := g_refCount s + 1\<rparr>)
     else (Ok (if out then E_NOINTERFACE else E_POINTER, None), s\<lparr>com_next := com_next s + 1\<rparr>))"
proof -
  have "com_objects s (com_next s) = None" using assms by (simp add: counted_def)
  then have "(com_objects s)(com_next s := None) = com_objects s" by auto
  then show ?thesis
    by (simp add: make_object_def new_object_def QueryInterface_def AddRef_def Release_def andThen_def ret_def)
qed

lemma new_counted:
  assumes "counted s H"
  shows "counted (s\<lparr>com_objects := (com_objects s)(com_next s \<mapsto> (k, 1)), com_next := com_next s + 1, g_refCount := g_refCount s + 1\<rparr>)
    (take_out (Some (com_next s)) H)"
proof -
  have n: "com_objects s (com_next s) = None" using assms by (simp add: counted_def)
  then have "held_refs H (com_next s) = 0" by (rule counted_gone[OF assms])
  then show ?thesis using n assms by (auto simp: counted_def take_out_def domIff)
qed

lemma skip_counted: "counted s H \<Longrightarrow> counted (s\<lparr>com_next := com_next s + 1\<rparr>) H"
  by (simp add: counted_def)

lemma add_counted:
  assumes "counted s H" "AddRef i s = (Ok n, s')"
  shows "counted s' (take_out (Some i) H)" "dom (com_objects s') = dom (com_objects s)"
proof -
  obtain k c where o: "com_objects s i = Some (k, c)" "s' = s\<lparr>com_objects := (com_objects s)(i \<mapsto> (k, c + 1))\<rparr>"
    using assms(2) by (auto simp: AddRef_def split: option.splits)
  show dom: "dom (com_objects s') = dom (com_objects s)" using o by auto
  have "g_refCount s' = g_refCount s" "com_next s' = com_next s" using o by simp_all
  then show "counted s' (take_out (Some i) H)"
    using assms(1) o counted_alive[OF assms(1) o(1)] counted_next[OF assms(1) o(1)] unfolding counted_def dom
    by (simp add: take_out_def)
qed

lemma release_counted:
  assumes "counted s H" "Release i s = (Ok n, s')" "held_refs H i < 2 ^ 32"
  shows "counted s' (H\<lparr>held_refs := (held_refs H)(i := held_refs H i - 1)\<rparr>)" "dom (com_objects s') \<subseteq> dom (com_objects s)"
proof -
  obtain k c where o: "com_objects s i = Some (k, c)"
    "s' = (if c - 1 = 0 then s\<lparr>com_objects := (com_objects s)(i := None), g_refCount := g_refCount s - 1\<rparr>
       else s\<lparr>com_objects := (com_objects s)(i \<mapsto> (k, c - 1))\<rparr>)"
    using assms(2) by (auto simp: Release_def split: option.splits)
  note h = counted_alive[OF assms(1) o(1)]
  have pred: "c - 1 = of_nat (held_refs H i - 1)" using h by (simp add: of_nat_diff)
  then have z: "c - 1 = 0 \<longleftrightarrow> held_refs H i = 1"
    using assms(3) h(1) nat_dvd_not_less[of "held_refs H i - 1" "2 ^ 32"]
    unfolding pred word_of_nat_eq_0_iff by fastforce
  show "dom (com_objects s') \<subseteq> dom (com_objects s)" using o by auto
  have fin: "finite (dom (com_objects s))" "i \<in> dom (com_objects s)" using assms(1) o(1) by (auto simp: counted_def)
  show "counted s' (H\<lparr>held_refs := (held_refs H)(i := held_refs H i - 1)\<rparr>)"
  proof (cases "held_refs H i = 1")
    case True
    then have "s' = s\<lparr>com_objects := (com_objects s)(i := None), g_refCount := g_refCount s - 1\<rparr>" using o(2) z by simp
    moreover have "(of_nat (card (dom (com_objects s))) :: 32 word) - 1 = of_nat (card (dom (com_objects s) - {i}))"
      unfolding card.remove[OF fin] by simp
    ultimately show ?thesis using assms(1) True by (simp add: counted_def algebra_simps del: card_Diff_insert card_Diff_singleton)
  next
    case False
    then have "s' = s\<lparr>com_objects := (com_objects s)(i \<mapsto> (k, of_nat (held_refs H i - 1)))\<rparr>" using o(2) z pred by simp
    moreover have "dom ((com_objects s)(i \<mapsto> x)) = dom (com_objects s)" for x using fin(2) by auto
    ultimately show ?thesis using assms(1) False h(1) o(1) counted_next[OF assms(1) o(1)] by (simp add: counted_def)
  qed
qed

lemma make_counted:
  assumes "counted s H" "few n s H" "make_object k riid out s = (Ok (hr, p), s')"
  shows "counted s' (take_out p H) \<and> few (Suc n) s' (take_out p H)"
proof (cases "out \<and> riid \<in> interfaces k")
  case True
  have "finite (dom (com_objects s))" using assms(1) by (simp add: counted_def)
  then have "card (dom ((com_objects s)(com_next s \<mapsto> x))) \<le> Suc (card (dom (com_objects s)))" for x
    by (simp add: card_insert_if)
  then show ?thesis
    using True assms make_object_result[OF assms(1), of k riid out] new_counted[OF assms(1), of k]
    by (auto simp: few_def take_out_def intro: le_SucI order_trans)
next
  case False
  then show ?thesis
    using assms make_object_result[OF assms(1), of k riid out] skip_counted[OF assms(1)]
    by (auto simp: few_def take_out_def intro: le_SucI)
qed

lemma query_counted:
  assumes "counted s H" "QueryInterface i riid out s = (Ok (hr, p), s')"
  shows "counted s' (take_out p H)" "dom (com_objects s') = dom (com_objects s)" "p = None \<or> p = Some i"
proof -
  have "(s' = s \<and> p = None) \<or> (p = Some i \<and> (\<exists>n. AddRef i s = (Ok n, s')))"
    using assms(2) by (auto simp: QueryInterface_def andThen_def ret_def split: option.splits if_splits prod.splits res.splits)
  then consider "s' = s" "p = None" | n where "p = Some i" "AddRef i s = (Ok n, s')" by blast
  then have "counted s' (take_out p H) \<and> dom (com_objects s') = dom (com_objects s) \<and> (p = None \<or> p = Some i)"
    by cases (simp_all add: assms(1) add_counted[OF assms(1)] take_out_def[of None])
  then show "counted s' (take_out p H)" "dom (com_objects s') = dom (com_objects s)" "p = None \<or> p = Some i" by blast+
qed

lemma few_step:
  assumes "few n s H" "card (dom (com_objects s')) \<le> card (dom (com_objects s))" "held_locks H' \<le> held_locks H"
    "\<And>i. held_refs H' i \<le> Suc (held_refs H i)"
  shows "few (Suc n) s' H'"
  using assms by (fastforce simp: few_def intro: order_trans)

lemma take_out_held [simp]:
  "held_locks (take_out p H) = held_locks H"
  "held_refs (take_out p H) i \<le> Suc (held_refs H i)"
  by (auto simp: take_out_def split: option.splits)

lemma created_counted:
  assumes "counted s H" "few n s H"
  shows "DllGetClassObject clsid iid out s = (Ok (hr, p), s') \<Longrightarrow> counted s' (take_out p H) \<and> few (Suc n) s' (take_out p H)"
    and "CreateInstance agg iid out s = (Ok (hr, p), s') \<Longrightarrow> counted s' (take_out p H) \<and> few (Suc n) s' (take_out p H)"
  using assms make_counted[OF assms, of _ iid out hr p s']
  by (auto simp: DllGetClassObject_def CreateInstance_def ret_def take_out_def[of None] few_def intro: le_SucI split: if_splits)

lemma com_step_counted:
  assumes "com_step t t'" "counted (fst t) (snd t)" "few n (fst t) (snd t)" "n < 2 ^ 32"
  shows "counted (fst t') (snd t') \<and> few (Suc n) (fst t') (snd t')"
  using assms
proof cases
  case (get_class clsid iid out s hr p s' H)
  then show ?thesis using assms created_counted(1)[of s H n clsid iid out hr p s'] by simp
next
  case (create H f s c agg iid out hr p s')
  then show ?thesis using assms created_counted(2)[of s H n agg iid out hr p s'] by simp
next
  case (query H i iid out s hr p s')
  then show ?thesis using assms query_counted[of s H i iid out hr p s'] by (auto intro: few_step)
next
  case (add H i s m s')
  then show ?thesis using assms add_counted[of s H i m s'] by (auto intro: few_step)
next
  case (release H i s m s')
  then have "held_refs H i < 2 ^ 32" using assms by (auto simp: few_def intro: le_less_trans)
  moreover have "finite (dom (com_objects s))" using release assms by (simp add: counted_def)
  ultimately show ?thesis using release assms release_counted[of s H i m s'] by (auto intro!: few_step card_mono)
next
  case (lock s hr s' H)
  then show ?thesis using assms by (auto simp: LockServer_def ret_def counted_def few_def intro: le_SucI)
next
  case (unlock H s hr s')
  then show ?thesis using assms by (auto simp: LockServer_def ret_def counted_def of_nat_diff intro!: few_step)
next
  case (main h a s b s' H)
  then show ?thesis using assms by (auto simp: DllMain_def ret_def counted_def few_def intro: le_SucI split: if_splits)
qed

lemma com_run_counted: "com_run n t \<Longrightarrow> n < 2 ^ 32 \<Longrightarrow> counted (fst t) (snd t) \<and> few n (fst t) (snd t)"
proof (induction rule: com_run.induct)
  case start
  show ?case by (simp add: counted_def few_def new_com_def)
next
  case (step n t t')
  then show ?case using com_step_counted[of t t' n] by simp
qed

text \<open>C21: The server may be unloaded exactly when no client needs it. Whatever calls the clients make, with
  references they hold and fewer than \<open>2\<^sup>32\<close> of them, \<open>DllCanUnloadNow\<close> says yes when nobody holds a reference or
  a lock and no otherwise: the per-object counts and the global one never drift apart, objects are deleted with
  their last reference, and neither a failed \<open>QueryInterface\<close> nor the temporary reference of object creation is
  left behind.\<close>

theorem unload_when_unused:
  assumes "com_run n (s, H)" "n < 2 ^ 32"
  shows "DllCanUnloadNow s = S_OK \<longleftrightarrow> (\<forall>i. held_refs H i = 0) \<and> held_locks H = 0"
proof -
  have c: "counted s H" "few n s H" using com_run_counted[OF assms] by simp_all
  have fin: "finite (dom (com_objects s))" and g: "g_refCount s = of_nat (card (dom (com_objects s)) + held_locks H)"
    using c(1) by (simp_all add: counted_def)
  have "card (dom (com_objects s)) + held_locks H < 2 ^ 32" using c(2) assms(2) by (simp add: few_def)
  then have "g_refCount s = 0 \<longleftrightarrow> card (dom (com_objects s)) + held_locks H = 0"
    unfolding g word_of_nat_eq_0_iff by (auto dest: dvd_imp_le)
  moreover have "card (dom (com_objects s)) = 0 \<longleftrightarrow> (\<forall>i. held_refs H i = 0)"
    using fin counted_gone_iff[OF c(1)] by (auto simp: card_eq_0_iff)
  ultimately show ?thesis by (simp add: DllCanUnloadNow_def)
qed

theorem unload_when_unused_witness:
  "\<exists>s H s' H'. com_run 1 (s, H) \<and> held_refs H 0 = 1 \<and> DllCanUnloadNow s \<noteq> S_OK \<and>
     com_run 2 (s', H') \<and> DllCanUnloadNow s' = S_OK"
proof -
  let ?h0 = "\<lparr>held_refs = (\<lambda>_. 0), held_locks = 0\<rparr>"
  define s where "s = snd (DllGetClassObject CLSID_WineUIAExtension IID_IClassFactory True new_com)"
  define s' where "s' = snd (Release 0 s)"
  let ?h = "take_out (Some 0) ?h0"
  let ?h' = "?h\<lparr>held_refs := (held_refs ?h)(0 := held_refs ?h 0 - 1)\<rparr>"
  have get: "DllGetClassObject CLSID_WineUIAExtension IID_IClassFactory True new_com = (Ok (S_OK, Some 0), s)"
    and rel: "Release 0 s = (Ok 0, s')"
    by (simp_all add: s_def s'_def DllGetClassObject_def make_object_def new_object_def QueryInterface_def AddRef_def
        Release_def andThen_def ret_def new_com_def interfaces_def)
  have one: "com_run 1 (s, ?h)" using com_run.step[OF com_run.start com_step.get_class[OF get]] by simp
  have two: "com_run 2 (s', ?h')"
    using com_run.step[OF one com_step.release[of ?h 0 s, OF _ rel]] by (simp add: take_out_def numeral_2_eq_2)
  have "DllCanUnloadNow s \<noteq> S_OK" using unload_when_unused[OF one] by (auto simp: take_out_def)
  moreover have "DllCanUnloadNow s' = S_OK" using unload_when_unused[OF two] by (simp add: take_out_def)
  moreover have "held_refs ?h 0 = 1" by (simp add: take_out_def)
  ultimately show ?thesis using one two by blast
qed

end
