(* ===== verification/Survey_Uia.thy ===== *)
theory Survey_Uia
  imports Win32_Api
begin

text \<open>
  The UI Automation survey of \<open>tools/survey-uia/survey_uia.cpp\<close>: a sequence of checks, each recorded with whether it
  passed, and a report printed as JSON by hand. The calls to UI Automation are values of the record \<open>Survey\<close>: the
  \<open>HRESULT\<close> and whether an object came back. The theorem is that the report is a document that the parser of
  \<open>tinyjson.hpp\<close> reads back to exactly the recorded checks.
\<close>

section \<open>Strings\<close>

definition json_escape :: "string \<Rightarrow> string" where
  "json_escape s = foldl (\<lambda>out c. out @
     (if c = dquote then [backslash, dquote]
      else if c = backslash then [backslash, backslash]
      else if c = CHR 0x08 then [backslash, CHR ''b'']
      else if c = CHR 0x0C then [backslash, CHR ''f'']
      else if c = CHR 0x0A then [backslash, CHR ''n'']
      else if c = CHR 0x0D then [backslash, CHR ''r'']
      else if c = CHR 0x09 then [backslash, CHR ''t'']
      else if code_of c < 0x20 then unicode_escape (code_of c)
      else [c])) [] s"

definition bstr_to_utf8 :: "('o, 'e) Windows \<Rightarrow> wide option \<Rightarrow> string" where
  "bstr_to_utf8 A bstr = (case bstr of None \<Rightarrow> [] | Some ws \<Rightarrow> w2u8 A ws)"

section \<open>The checks\<close>

record CheckResult =
  cr_name :: string
  cr_passed :: bool
  cr_details :: string

record Survey =
  create_instance :: "int \<times> bool"
  root_element :: "int \<times> bool"
  root_name :: "wide option"
  true_condition :: bool
  find_children :: "int \<times> bool"
  children_length :: int
  first_child :: bool
  child_name :: "wide option"
  child_pattern :: "int \<times> bool"
  desktop_element :: "int \<times> bool"

definition add_result :: "string \<Rightarrow> bool \<Rightarrow> string \<Rightarrow> CheckResult list \<Rightarrow> CheckResult list" where
  "add_result nm passed details results = results @ [\<lparr>cr_name = nm, cr_passed = passed, cr_details = details\<rparr>]"

abbreviation succeeded :: "int \<Rightarrow> bool" where "succeeded hr \<equiv> 0 \<le> hr"

definition hr_details :: "int \<Rightarrow> string" where
  "hr_details hr = (if succeeded hr then [] else ''HRESULT: '' @ to_string_int hr)"

text \<open>The innermost block: the first child of the root.\<close>

definition check_child :: "('o, 'e) Windows \<Rightarrow> Survey \<Rightarrow> CheckResult list \<Rightarrow> CheckResult list" where
  "check_child A S r =
     (if \<not> first_child S then r
      else let r1 = add_result ''Child[0].CurrentName'' True
             (case child_name S of None \<Rightarrow> ''(null)'' | Some ws \<Rightarrow> bstr_to_utf8 A (Some ws)) r;
           (hr, pPattern) = child_pattern S in
        add_result ''Child[0].LegacyIAccessiblePattern'' (succeeded hr \<and> pPattern) [] r1)"

definition check_children :: "('o, 'e) Windows \<Rightarrow> Survey \<Rightarrow> CheckResult list \<Rightarrow> CheckResult list" where
  "check_children A S r =
     (if \<not> true_condition S then r
      else let (hr, pChildren) = find_children S;
           r1 = add_result ''Root.FindAll(Children)'' (succeeded hr) (hr_details hr) r in
        if succeeded hr \<and> pChildren then
          let count = children_length S;
              r2 = add_result ''Root.Children.Count'' True (to_string_int count) r1 in
          if 0 < count then check_child A S r2 else r2
        else r1)"

definition check_root :: "('o, 'e) Windows \<Rightarrow> Survey \<Rightarrow> CheckResult list \<Rightarrow> CheckResult list" where
  "check_root A S r =
     (let (hr, pRoot) = root_element S;
          r1 = add_result ''GetRootElement'' (succeeded hr \<and> pRoot) (hr_details hr) r in
      if pRoot then
        check_children A S (add_result ''Root.CurrentName'' (root_name S \<noteq> None)
          (case root_name S of None \<Rightarrow> ''NULL'' | Some ws \<Rightarrow> bstr_to_utf8 A (Some ws)) r1)
      else r1)"

definition survey_checks :: "('o, 'e) Windows \<Rightarrow> Survey \<Rightarrow> CheckResult list" where
  "survey_checks A S =
     (let (hr, pAutomation) = create_instance S;
          r1 = add_result ''CoCreateInstance(CLSID_CUIAutomation)'' (succeeded hr) (hr_details hr) [] in
      if succeeded hr \<and> pAutomation then
        let r2 = check_root A S r1; (hr2, pFromHandle) = desktop_element S in
        add_result ''ElementFromHandle(Desktop)'' (succeeded hr2 \<and> pFromHandle) [] r2
      else r1)"

section \<open>The report\<close>

abbreviation endl :: string where "endl \<equiv> [CHR 0x0A]"

text \<open>A string literal of the source with its escaped quotes.\<close>

definition quoted :: "string \<Rightarrow> string" where
  "quoted s = [dquote] @ s @ [dquote]"

definition print_result :: "CheckResult \<Rightarrow> string \<Rightarrow> string" where
  "print_result c sep =
     ''    {'' @ endl @
     ''      '' @ quoted ''name'' @ '': '' @ quoted (json_escape (cr_name c)) @ '','' @ endl @
     ''      '' @ quoted ''passed'' @ '': '' @ (if cr_passed c then ''true'' else ''false'') @ '','' @ endl @
     ''      '' @ quoted ''details'' @ '': '' @ quoted (json_escape (cr_details c)) @ endl @
     ''    }'' @ sep @ endl"

text \<open>The loop over \<open>results\<close>: every entry but the last is followed by a comma.\<close>

fun print_results :: "CheckResult list \<Rightarrow> string" where
  "print_results [] = []"
| "print_results (c # cs) = print_result c (if cs \<noteq> [] then '','' else []) @ print_results cs"

definition print_report :: "CheckResult list \<Rightarrow> string" where
  "print_report results =
     ''{'' @ endl @ ''  '' @ quoted ''results'' @ '': ['' @ endl @ print_results results @ ''  ]'' @ endl @ ''}'' @ endl"

definition survey_main :: "('o, 'e) Windows \<Rightarrow> Survey \<Rightarrow> string" where
  "survey_main A S = print_report (survey_checks A S)"

section \<open>Reading the report\<close>

definition result_value :: "CheckResult \<Rightarrow> Value" where
  "result_value c = Obj (obj_of [(''name'', Str (cr_name c)), (''passed'', Bool (cr_passed c)), (''details'', Str (cr_details c))])"

lemma json_escape_dump: "json_escape s = concat (map dump_char s)"
proof -
  have "foldl (\<lambda>out c. out @ dump_char c) acc s = acc @ concat (map dump_char s)" for acc
    by (induction s arbitrary: acc) simp_all
  then show ?thesis unfolding json_escape_def dump_char_def by simp
qed

lemma parse_quoted: "parse_string (dquote # json_escape s @ dquote # t) = Ok (s, t)"
  by (simp add: json_escape_dump parse_string_dump)

lemma skip_blank [simp]: "skip_ws (CHR '' '' # t) = skip_ws t" "skip_ws (CHR 0x0A # t) = skip_ws t"
  by (simp_all add: skip_ws_def isspace_def)

lemma parse_member:
  assumes "skip_ws s = dquote # k' @ dquote # CHR '':'' # CHR '' '' # t" "parse_string (dquote # k' @ dquote # CHR '':'' # CHR '' '' # t) = Ok (k, CHR '':'' # CHR '' '' # t)"
    "skip_ws t = t'" "parse_value t' = Ok (v, r)"
  shows "skip_ws r = CHR ''}'' # r' \<Longrightarrow> parse_members m s = Ok (om_emplace k v m, r')"
    and "skip_ws r = CHR '','' # r' \<Longrightarrow> parse_members m s = parse_members (om_emplace k v m) (skip_ws r')"
  using assms by (subst parse_members.simps, simp)+

lemma parse_text: "parse_value (dquote # json_escape s @ dquote # t) = Ok (Str s, t)"
  by (subst parse_value.simps) (simp add: parse_quoted)

lemma parse_bool: "parse_value ((if b then ''true'' else ''false'') @ t) = Ok (Bool b, t)"
  by (subst parse_value.simps) (simp add: parse_true_def parse_false_def)

lemma skip_bool: "skip_ws ((if b then ''true'' else ''false'') @ t) = (if b then ''true'' else ''false'') @ t"
  by (simp add: skip_ws_def isspace_def)

lemma parse_members_skip: "parse_members m (skip_ws s) = parse_members m s"
  by (subst (1 2) parse_members.simps) (simp add: skip_ws_def)

lemma parse_elems_skip:
  "parse_elems m (skip_ws s) = parse_elems m s" "parse_elems m (CHR 0x0A # s) = parse_elems m s"
  by (subst (1 2) parse_elems.simps, simp add: skip_ws_def isspace_def)+

lemma parse_object:
  "peek (skip_ws t) \<noteq> CHR ''}'' \<Longrightarrow> parse_members [] t = Ok (m, r) \<Longrightarrow> parse_value (CHR ''{'' # t) = Ok (Obj m, r)"
  by (subst parse_value.simps) (simp add: parse_members_skip)

lemma read_result: "parse_value (skip_ws (print_result c sep @ t)) = Ok (result_value c, sep @ endl @ t)"
proof -
  let ?e = "sep @ endl @ t"
  let ?d = "endl @ ''      '' @ dquote # ''details'' @ dquote # CHR '':'' # CHR '' '' # dquote # json_escape (cr_details c) @ dquote # endl @ ''    }'' @ ?e"
  let ?p = "endl @ ''      '' @ dquote # ''passed'' @ dquote # CHR '':'' # CHR '' '' # (if cr_passed c then ''true'' else ''false'') @ '','' @ ?d"
  let ?n = "endl @ ''      '' @ dquote # ''name'' @ dquote # CHR '':'' # CHR '' '' # dquote # json_escape (cr_name c) @ dquote # '','' @ ?p"
  have "parse_members m ?d = Ok (om_emplace ''details'' (Str (cr_details c)) m, ?e)" for m
    by (rule parse_member(1)[where k' = "''details''", OF _ _ skip_ws_punct(5) parse_text], (simp add: parse_string_def parse_chars_Cons)+)
  moreover have "parse_members m ?p = parse_members (om_emplace ''passed'' (Bool (cr_passed c)) m) (skip_ws ?d)" for m
    by (rule parse_member(2)[where k' = "''passed''", OF _ _ skip_bool parse_bool], (simp add: parse_string_def parse_chars_Cons)+)
  moreover have "parse_members m ?n = parse_members (om_emplace ''name'' (Str (cr_name c)) m) (skip_ws ?p)" for m
    by (rule parse_member(2)[where k' = "''name''", OF _ _ skip_ws_punct(5) parse_text], (simp add: parse_string_def parse_chars_Cons)+)
  ultimately have "parse_members [] ?n = Ok (om_emplace ''details'' (Str (cr_details c))
      (om_emplace ''passed'' (Bool (cr_passed c)) (om_emplace ''name'' (Str (cr_name c)) [])), ?e)"
    by (simp only: parse_members_skip)
  moreover have "om_emplace ''details'' x (om_emplace ''passed'' y (om_emplace ''name'' z [])) =
      obj_of [(''name'', z), (''passed'', y), (''details'', x)]" for x y z :: Value
    by code_simp
  ultimately have "parse_members [] ?n = Ok (obj_of [(''name'', Str (cr_name c)), (''passed'', Bool (cr_passed c)),
      (''details'', Str (cr_details c))], ?e)" by simp
  then have "parse_value (CHR ''{'' # ?n) = Ok (result_value c, ?e)"
    unfolding result_value_def by (rule parse_object[rotated]) simp
  then show ?thesis by (simp add: print_result_def quoted_def skip_ws_Cons[of "CHR ''{''"] isspace_def)
qed

lemma print_results_read: "cs \<noteq> [] \<Longrightarrow> parse_elems a (print_results cs @ CHR '' '' # CHR '' '' # CHR '']'' # t) = Ok (a @ map result_value cs, t)"
proof (induction cs arbitrary: a)
  case (Cons c cs)
  show ?case
  proof (cases "cs = []")
    case True
    then show ?thesis by (subst parse_elems.simps) (simp add: read_result)
  next
    case False
    have e: "parse_elems a (print_results (c # cs) @ CHR '' '' # CHR '' '' # CHR '']'' # t) =
        parse_elems (a @ [result_value c]) (print_results cs @ CHR '' '' # CHR '' '' # CHR '']'' # t)"
      using False by (subst parse_elems.simps) (simp add: read_result parse_elems_skip)
    show ?thesis unfolding e Cons.IH[OF False] by simp
  qed
qed simp

lemma print_results_start:
  "cs \<noteq> [] \<Longrightarrow> peek (skip_ws (print_results cs @ t)) = CHR ''{''"
  by (cases cs) (simp_all add: print_result_def skip_ws_Cons[of "CHR ''{''"] isspace_def)

lemma read_array: "parse_value (CHR ''['' # endl @ print_results cs @ CHR '' '' # CHR '' '' # CHR '']'' # t) =
    Ok (Arr (map result_value cs), t)"
proof (cases "cs = []")
  case False
  then show ?thesis using print_results_read[OF False, of "[]" t] print_results_start[OF False]
    by (subst parse_value.simps) (simp add: parse_elems_skip)
qed (subst parse_value.simps, simp)

text \<open>C28: The report the survey prints is well formed whatever the checks found, and reading it gives them back. The
  parser of the daemon reads the text, written piece by piece with separators placed by hand, to an object with one
  member, the list of the checks in order, each with its name, verdict and details; no window title can break it,
  since every quote, backslash and control character is escaped.\<close>

theorem survey_report_read:
  "parse (survey_main A S) = Ok (Obj [(''results'', Arr (map result_value (survey_checks A S)))])"
proof -
  let ?cs = "survey_checks A S"
  let ?a = "CHR ''['' # endl @ print_results ?cs @ CHR '' '' # CHR '' '' # CHR '']'' # endl @ ''}'' @ endl"
  have "parse_members [] (endl @ ''  '' @ dquote # ''results'' @ dquote # CHR '':'' # CHR '' '' # ?a) =
      Ok (om_emplace ''results'' (Arr (map result_value ?cs)) [], endl)"
    by (rule parse_member(1)[where k' = "''results''", OF _ _ skip_ws_Cons read_array],
        (simp add: parse_string_def parse_chars_Cons isspace_def)+)
  then have "parse_value (CHR ''{'' # endl @ ''  '' @ dquote # ''results'' @ dquote # CHR '':'' # CHR '' '' # ?a) =
      Ok (Obj [(''results'', Arr (map result_value ?cs))], endl)"
    by (intro parse_object) (simp_all add: om_emplace_def)
  then show ?thesis
    by (simp add: parse_def survey_main_def print_report_def quoted_def skip_ws_Cons[of "CHR ''{''"] isspace_def)
qed

end
