(* ===== verification/Tray.thy ===== *)
theory Tray
  imports Prelude
begin

text \<open>
  The tray icon of the daemon, \<open>daemon/src/tray.cpp\<close>, and the end of \<open>main\<close> in \<open>daemon/src/server.cpp\<close> that runs
  it: \<open>TrayManager\<close> with its window procedure, menu and message loop, the callback that ends the process, and the
  two places that start the TCP server. What the shell shows is part of the state; which of the calls that set
  the icon up succeed, and which messages arrive, are arguments.
\<close>

section \<open>The tray manager\<close>

text \<open>The members of the class, and what it has made the shell show.\<close>

record TrayManager =
  tm_hwnd :: bool
  tm_running :: bool
  tm_icon :: bool
  tm_window :: bool
  tm_class :: bool
  tm_menus :: nat
  tm_offered :: "(nat \<times> string) list list"
  tm_abouts :: nat

definition new_tray :: TrayManager where
  "new_tray = \<lparr>tm_hwnd = False, tm_running = False, tm_icon = False, tm_window = False, tm_class = False,
     tm_menus = 0, tm_offered = [], tm_abouts = 0\<rparr>"

abbreviation ID_TRAY_EXIT :: nat where "ID_TRAY_EXIT \<equiv> 1001"
abbreviation ID_TRAY_ABOUT :: nat where "ID_TRAY_ABOUT \<equiv> 1002"

abbreviation WM_LBUTTONUP :: nat where "WM_LBUTTONUP \<equiv> 0x202"
abbreviation WM_RBUTTONUP :: nat where "WM_RBUTTONUP \<equiv> 0x205"

text \<open>Which of \<open>RegisterClassExW\<close>, \<open>CreateWindowExW\<close> and \<open>Shell_NotifyIconW\<close> succeed.\<close>

record Shell =
  registers :: bool
  creates :: bool
  notifies :: bool

definition tray_init :: "Shell \<Rightarrow> TrayManager \<Rightarrow> bool \<times> TrayManager" where
  "tray_init h t =
     (if \<not> registers h then (False, t)
      else let t1 = t\<lparr>tm_class := True, tm_hwnd := creates h, tm_window := creates h\<rparr> in
        if \<not> creates h then (False, t1)
        else (notifies h, t1\<lparr>tm_icon := notifies h\<rparr>))"

definition tray_stop :: "TrayManager \<Rightarrow> TrayManager" where
  "tray_stop t =
     (let t1 = if tm_hwnd t then t\<lparr>tm_icon := False, tm_window := False, tm_hwnd := False\<rparr> else t in
      t1\<lparr>tm_running := False\<rparr>)"

text \<open>
  The menu lives until the popup is closed; what is chosen arrives later as a \<open>WM_COMMAND\<close>. The argument says
  whether \<open>CreatePopupMenu\<close> succeeds.
\<close>

definition showContextMenu :: "bool \<Rightarrow> TrayManager \<Rightarrow> TrayManager" where
  "showContextMenu made t =
     (if made then
        let t1 = t\<lparr>tm_menus := tm_menus t + 1\<rparr>;
            t2 = t1\<lparr>tm_offered := tm_offered t1 @ [[(ID_TRAY_ABOUT, ''About''), (0, []), (ID_TRAY_EXIT, ''Exit'')]]\<rparr> in
        t2\<lparr>tm_menus := tm_menus t2 - 1\<rparr>
      else t)"

definition handleTrayMessage :: "bool \<Rightarrow> nat \<Rightarrow> TrayManager \<Rightarrow> TrayManager" where
  "handleTrayMessage made lParam t =
     (if lParam = WM_RBUTTONUP \<or> lParam = WM_LBUTTONUP then showContextMenu made t else t)"

text \<open>
  The messages of the loop. \<open>WM_NCCREATE\<close> arrives while the window is being created, so every message of the loop
  finds the pointer to the manager. \<open>WM_QUIT\<close> makes \<open>GetMessage\<close> return zero.
\<close>

datatype tray_msg = WM_TRAYICON bool nat | TRAY_COMMAND nat | TRAY_OTHER | WM_QUIT

definition LOWORD :: "nat \<Rightarrow> nat" where "LOWORD w = w mod 2 ^ 16"

text \<open>
  The callback \<open>onExit_\<close> acts on the rest of the process; it answers whether it returned, since \<open>exit\<close> does not.
\<close>

type_synonym 'p callback = "'p \<Rightarrow> bool \<times> 'p"

definition windowProc :: "'p callback \<Rightarrow> tray_msg \<Rightarrow> 'p \<times> TrayManager \<Rightarrow> bool \<times> 'p \<times> TrayManager" where
  "windowProc onExit m = (\<lambda>(p, t). case m of
     WM_TRAYICON made l \<Rightarrow> (True, p, handleTrayMessage made l t)
   | TRAY_COMMAND w \<Rightarrow>
       (if LOWORD w = ID_TRAY_EXIT then
          case onExit p of (returned, p') \<Rightarrow> if returned then (True, p', tray_stop t) else (False, p', t)
        else if LOWORD w = ID_TRAY_ABOUT then (True, p, t\<lparr>tm_abouts := tm_abouts t + 1\<rparr>)
        else (True, p, t))
   | _ \<Rightarrow> (True, p, t))"

text \<open>
  The loop on the messages that arrive: \<open>None\<close> while it waits for more, otherwise whether the loop returned or the
  process ended inside it.
\<close>

fun tray_loop :: "'p callback \<Rightarrow> tray_msg list \<Rightarrow> 'p \<times> TrayManager \<Rightarrow> bool option \<times> 'p \<times> TrayManager" where
  "tray_loop onExit ms (p, t) =
     (if \<not> tm_running t then (Some True, p, t)
      else case ms of [] \<Rightarrow> (None, p, t)
        | m # ms' \<Rightarrow> if m = WM_QUIT then (Some True, p, t)
            else case windowProc onExit m (p, t) of (alive, p', t') \<Rightarrow>
              if alive then tray_loop onExit ms' (p', t') else (Some False, p', t'))"

definition tray_run :: "'p callback \<Rightarrow> tray_msg list \<Rightarrow> 'p \<times> TrayManager \<Rightarrow> bool option \<times> 'p \<times> TrayManager" where
  "tray_run onExit ms = (\<lambda>(p, t). tray_loop onExit ms (p, t\<lparr>tm_running := True\<rparr>))"

section \<open>The end of main\<close>

text \<open>The flag the threads watch, the TCP server, the log, and whether the process has ended.\<close>

record Process =
  pr_running :: bool
  pr_starts :: nat
  pr_stopped :: bool
  pr_lines :: "string list"
  pr_exit :: "nat option"

definition new_process :: Process where
  "new_process = \<lparr>pr_running = True, pr_starts = 0, pr_stopped = False, pr_lines = [], pr_exit = None\<rparr>"

definition on_exit :: "Process callback" where
  "on_exit p = (False, p\<lparr>pr_lines := pr_lines p @ [''Shutdown requested via tray.''], pr_running := False,
     pr_stopped := True, pr_exit := Some 0\<rparr>)"

text \<open>
  \<open>tcp->start\<close> on the main thread, which may serve for ever, return, or throw; in the last two cases \<open>main\<close>
  returns.
\<close>

datatype tcp_outcome = Serving | Returned | Failed

definition start_tcp_here :: "tcp_outcome \<Rightarrow> Process \<Rightarrow> Process" where
  "start_tcp_here e p =
     p\<lparr>pr_starts := pr_starts p + 1, pr_lines := pr_lines p @ (if e = Failed then [''TCP Server fatal error.''] else []),
       pr_exit := (if e = Serving then pr_exit p else Some 0)\<rparr>"

definition main_tail :: "bool \<Rightarrow> Shell \<Rightarrow> tray_msg list \<Rightarrow> tcp_outcome \<Rightarrow> Process \<Rightarrow> Process \<times> TrayManager" where
  "main_tail headless h ms e p =
     (if headless then (start_tcp_here e p, new_tray)
      else case tray_init h new_tray of (ready, t) \<Rightarrow>
        if ready then
          (case tray_run on_exit ms (p\<lparr>pr_starts := pr_starts p + 1\<rparr>, t) of
             (Some True, p', t') \<Rightarrow> (start_tcp_here e p', tray_stop t')
           | (_, p', t') \<Rightarrow> (p', t'))
        else (start_tcp_here e p, tray_stop t))"

section \<open>Properties\<close>

definition asks_exit :: "tray_msg \<Rightarrow> bool" where
  "asks_exit m \<longleftrightarrow> (case m of TRAY_COMMAND w \<Rightarrow> LOWORD w = ID_TRAY_EXIT | _ \<Rightarrow> False)"

text \<open>What the shell shows while the icon is up: a window, the icon and no menu.\<close>

definition tray_up :: "TrayManager \<Rightarrow> bool" where
  "tray_up t \<longleftrightarrow> tm_hwnd t \<and> tm_window t \<and> tm_icon t \<and> tm_menus t = 0 \<and> tm_running t"

lemma menu_closed [simp]:
  "tm_menus (showContextMenu made t) = tm_menus t" "tm_hwnd (showContextMenu made t) = tm_hwnd t"
  "tm_window (showContextMenu made t) = tm_window t" "tm_icon (showContextMenu made t) = tm_icon t"
  "tm_running (showContextMenu made t) = tm_running t"
  by (simp_all add: showContextMenu_def Let_def)

lemma message_keeps_up:
  assumes "tray_up t" "\<not> asks_exit m"
  shows "\<exists>t'. windowProc onExit m (p, t) = (True, p, t') \<and> tray_up t'"
  using assms by (cases m) (auto simp: windowProc_def handleTrayMessage_def tray_up_def asks_exit_def)

lemma messages_keep_up:
  assumes "tray_up t" "\<And>m. m \<in> set ms \<Longrightarrow> m \<noteq> WM_QUIT \<and> \<not> asks_exit m"
  shows "\<exists>t'. tray_up t' \<and> tray_loop onExit (ms @ rest) (p, t) = tray_loop onExit rest (p, t')"
  using assms
proof (induction ms arbitrary: t)
  case (Cons m ms)
  obtain t' where t': "windowProc onExit m (p, t) = (True, p, t')" "tray_up t'"
    using message_keeps_up[OF Cons.prems(1), of m onExit p] Cons.prems(2)[of m] by auto
  have "tray_loop onExit ((m # ms) @ rest) (p, t) = tray_loop onExit (ms @ rest) (p, t')"
    using Cons.prems t' by (auto simp: tray_up_def)
  then show ?case using Cons.IH[OF t'(2)] Cons.prems(2) by auto
qed (auto simp del: tray_loop.simps)

text \<open>
  With a callback that returns, as the class expects, choosing \<open>Exit\<close> leaves nothing behind: the icon and the
  window go and the loop returns, whatever came before.
\<close>

lemma exit_removes_icon:
  assumes "tray_up t" "\<And>m. m \<in> set ms \<Longrightarrow> m \<noteq> WM_QUIT \<and> \<not> asks_exit m" "asks_exit x" "onExit p = (True, p')"
  shows "\<exists>t'. tray_run onExit (ms @ x # rest) (p, t) = (Some True, p', t') \<and> \<not> tm_icon t' \<and> \<not> tm_window t' \<and>
    \<not> tm_hwnd t' \<and> tm_menus t' = 0"
proof -
  have "t\<lparr>tm_running := True\<rparr> = t" using assms(1) by (simp add: tray_up_def)
  then obtain t' where t': "tray_up t'" "tray_run onExit (ms @ x # rest) (p, t) = tray_loop onExit (x # rest) (p, t')"
    using messages_keep_up[OF assms(1,2), of ms onExit "x # rest" p] by (auto simp: tray_run_def simp del: tray_loop.simps)
  moreover have "tray_loop onExit (x # rest) (p, t') = (Some True, p', tray_stop t')"
    using t'(1) assms(3,4) by (cases x) (auto simp: asks_exit_def windowProc_def tray_up_def tray_stop_def)
  ultimately show ?thesis by (auto simp: tray_stop_def tray_up_def)
qed

lemma stop_twice: "tray_stop (tray_stop t) = tray_stop t"
  by (simp add: tray_stop_def)

lemma init_failed_clean: "tray_init h new_tray = (False, t) \<Longrightarrow> \<not> tm_icon (tray_stop t) \<and> \<not> tm_window (tray_stop t)"
  by (auto simp: tray_init_def tray_stop_def new_tray_def Let_def split: if_splits)

text \<open>C39: Choosing \<open>Exit\<close> in the tray menu ends the daemon, and leaves its icon. Whatever clicks and other messages came
  before, the callback of \<open>main\<close> clears the running flag, stops the TCP server, which had been started once, and
  exits with code 0; but since it calls \<open>exit\<close> it never returns to the window procedure, so the code after it that
  removes the icon from the notification area and destroys the window is not reached.\<close>

theorem tray_exit_leaves_icon:
  assumes "registers h" "creates h" "notifies h" "\<forall>m \<in> set ms. m \<noteq> WM_QUIT \<and> \<not> asks_exit m" "asks_exit x"
  shows "\<exists>t. main_tail False h (ms @ x # rest) e new_process =
      (\<lparr>pr_running = False, pr_starts = 1, pr_stopped = True, pr_lines = [''Shutdown requested via tray.''], pr_exit = Some 0\<rparr>, t)
    \<and> tm_icon t \<and> tm_window t"
proof -
  obtain t0 where init: "tray_init h new_tray = (True, t0)" and "tm_hwnd t0" "tm_window t0" "tm_icon t0" "tm_menus t0 = 0"
    using assms(1-3) by (simp add: tray_init_def new_tray_def Let_def)
  moreover define t where "t = t0\<lparr>tm_running := True\<rparr>"
  ultimately have up: "tray_up t" by (simp add: tray_up_def)
  let ?p = "new_process\<lparr>pr_starts := 1\<rparr>"
  obtain t' where t': "tray_up t'" "tray_loop on_exit (ms @ x # rest) (?p, t) = tray_loop on_exit (x # rest) (?p, t')"
    using messages_keep_up[OF up, of ms on_exit "x # rest" ?p] assms(4) by blast
  have "tray_loop on_exit (x # rest) (?p, t') = (Some False, snd (on_exit ?p), t')"
    using t'(1) assms(5) by (cases x) (auto simp: asks_exit_def windowProc_def tray_up_def on_exit_def)
  then have "main_tail False h (ms @ x # rest) e new_process = (snd (on_exit ?p), t')"
    using t' init by (simp add: main_tail_def tray_run_def t_def new_process_def del: tray_loop.simps)
  then show ?thesis using t'(1) by (simp add: on_exit_def new_process_def tray_up_def)
qed

theorem tray_exit_leaves_icon_witness:
  "\<exists>t. main_tail False \<lparr>registers = True, creates = True, notifies = True\<rparr>
      [WM_TRAYICON True 0x205, TRAY_COMMAND 1002, TRAY_COMMAND 1001] Serving new_process =
      (\<lparr>pr_running = False, pr_starts = 1, pr_stopped = True, pr_lines = [''Shutdown requested via tray.''], pr_exit = Some 0\<rparr>, t)
    \<and> tm_icon t \<and> tm_window t"
  using tray_exit_leaves_icon[of "\<lparr>registers = True, creates = True, notifies = True\<rparr>" "[WM_TRAYICON True 0x205, TRAY_COMMAND 1002]"
      "TRAY_COMMAND 1001" "[]" Serving]
  by (simp add: asks_exit_def LOWORD_def del: tray_loop.simps)

end
