(* ===== verification/Listeners.thy ===== *)
theory Listeners
  imports Daemon_Main
begin

text \<open>
  The three loops that wait for clients: \<open>TcpServer::start\<close> with \<open>stop\<close> of \<open>tcp_server.cpp\<close>, \<open>run_server\<close> and
  \<open>run_discovery_responder\<close> of \<open>server.cpp\<close>. What the sockets and pipes answer is an argument; which handles have
  been closed, and which were passed on to a client thread, is part of the state. The lines the loops log are kept
  beside the daemon. The accepted clients are those of \<open>daemon_step\<close>, so whatever holds of every run of the daemon
  holds under these loops.
\<close>

section \<open>The TCP listener\<close>

text \<open>
  \<open>start\<close> is cut where \<open>stop\<close>, called by the tray on another thread, can come between; \<open>ts_listen_sock\<close> is the
  member both use, and 0 when it is not set.
\<close>

datatype start_at = NotStarted | HasSocket nat | Accepting nat | Finished "nat option"

record 's TcpServer =
  ts_listen_sock :: nat
  ts_at :: start_at
  ts_bound :: "(string \<times> nat) option"
  ts_closed :: "nat list"
  ts_lines :: "(LogLevel \<times> string) list"
  ts_daemon :: "'s Daemon"

definition new_tcp_server :: "'s Daemon \<Rightarrow> 's TcpServer" where
  "new_tcp_server d = \<lparr>ts_listen_sock = 0, ts_at = NotStarted, ts_bound = None, ts_closed = [], ts_lines = [], ts_daemon = d\<rparr>"

definition tcp_log :: "LogLevel \<Rightarrow> string \<Rightarrow> 's TcpServer \<Rightarrow> 's TcpServer" where
  "tcp_log l m t = t\<lparr>ts_lines := ts_lines t @ [(l, m)]\<rparr>"

definition tcp_stop :: "'s TcpServer \<Rightarrow> 's TcpServer" where
  "tcp_stop t = (if ts_listen_sock t \<noteq> 0 \<and> ts_listen_sock t \<noteq> 2 ^ 64 - 1
     then t\<lparr>ts_closed := ts_closed t @ [ts_listen_sock t], ts_listen_sock := 0\<rparr> else t)"

text \<open>Up to the creation of the socket, which is either a handle or an error.\<close>

definition tcp_socket :: "bool \<Rightarrow> nat + int \<Rightarrow> 's TcpServer \<Rightarrow> 's TcpServer" where
  "tcp_socket wsa_ok created t =
     (if \<not> wsa_ok then (tcp_log ERR ''TCP Server: Winsock not initialized.'' t)\<lparr>ts_at := Finished None\<rparr>
      else let t1 = tcp_log DEBUG ''TCP Server: Creating socket...'' t in
        case created of
          Inr e \<Rightarrow> (tcp_log ERR (''TCP Server: socket() failed: '' @ to_string_int e) t1)\<lparr>ts_at := Finished None\<rparr>
        | Inl s \<Rightarrow> t1\<lparr>ts_listen_sock := s, ts_at := HasSocket s\<rparr>)"

text \<open>The address: the cast to \<open>u_short\<close> keeps the last 16 bits of the port, the log shows the whole number.\<close>

abbreviation tcp_host :: "bool \<Rightarrow> string" where
  "tcp_host bind_public \<equiv> (if bind_public then ''0.0.0.0'' else ''127.0.0.1'')"

definition tcp_bind :: "bool \<Rightarrow> int \<Rightarrow> int option \<Rightarrow> bool \<Rightarrow> nat \<Rightarrow> 's TcpServer \<Rightarrow> 's TcpServer" where
  "tcp_bind bind_public port bind_error listens s t =
     (let name = tcp_host bind_public @ '':'' @ to_string_int port;
          t1 = tcp_log DEBUG (''TCP Server: Binding to '' @ name @ ''...'') t in
      case bind_error of
        Some e \<Rightarrow> (tcp_log ERR (''TCP Server: Bind failed: '' @ to_string_int e) t1)\<lparr>ts_closed := ts_closed t1 @ [s], ts_at := Finished (Some s)\<rparr>
      | None \<Rightarrow> let t2 = tcp_log INFO (''TCP Server listening on '' @ name) (t1\<lparr>ts_bound := Some (tcp_host bind_public, nat (port mod 2 ^ 16))\<rparr>) in
          if listens then t2\<lparr>ts_at := Accepting s\<rparr>
          else t2\<lparr>ts_closed := ts_closed t2 @ [s], ts_at := Finished (Some s)\<rparr>)"

text \<open>One round of the accept loop.\<close>

datatype accepted = Client | WouldBlock | AcceptError

definition tcp_accept :: "bool \<Rightarrow> accepted \<Rightarrow> nat \<Rightarrow> 's TcpServer \<Rightarrow> 's TcpServer" where
  "tcp_accept running a s t =
     (if \<not> running \<or> a = AcceptError then t\<lparr>ts_closed := ts_closed t @ [s], ts_at := Finished (Some s)\<rparr>
      else if a = WouldBlock then t
      else t\<lparr>ts_daemon := accept_tcp (ts_daemon t)\<rparr>)"

text \<open>
  All interleavings of one \<open>start\<close> with any number of \<open>stop\<close>. The system's handles are neither 0 nor
  \<open>INVALID_SOCKET\<close>.
\<close>

inductive listener_run :: "bool \<Rightarrow> int \<Rightarrow> 's Daemon \<Rightarrow> 's TcpServer \<Rightarrow> bool"
  for bind_public :: bool and port :: int and d :: "'s Daemon" where
  fresh: "listener_run bind_public port d (new_tcp_server d)"
| socket: "listener_run bind_public port d t \<Longrightarrow> ts_at t = NotStarted \<Longrightarrow> (\<forall>s. created = Inl s \<longrightarrow> s \<noteq> 0 \<and> s \<noteq> 2 ^ 64 - 1) \<Longrightarrow>
    listener_run bind_public port d (tcp_socket wsa_ok created t)"
| bind: "listener_run bind_public port d t \<Longrightarrow> ts_at t = HasSocket s \<Longrightarrow>
    listener_run bind_public port d (tcp_bind bind_public port e listens s t)"
| accept: "listener_run bind_public port d t \<Longrightarrow> ts_at t = Accepting s \<Longrightarrow>
    listener_run bind_public port d (tcp_accept running a s t)"
| stop: "listener_run bind_public port d t \<Longrightarrow> listener_run bind_public port d (tcp_stop t)"

section \<open>The pipe server\<close>

text \<open>
  One round of \<open>run_server\<close>: the pipe instance could not be created, no client connected to it, or one did. A
  client over the limit is disconnected.
\<close>

datatype pipe_round = NotCreated int | NotConnected nat | Connected nat Tick

record 's PipeServer =
  ps_closed :: "nat list"
  ps_served :: "nat list"
  ps_lines :: "(LogLevel \<times> string) list"
  ps_daemon :: "'s Daemon"

fun pipe_rounds :: "(bool \<times> pipe_round) list \<Rightarrow> 's PipeServer \<Rightarrow> 's PipeServer" where
  "pipe_rounds [] p = p"
| "pipe_rounds ((running, r) # rs) p =
     (if \<not> running then p
      else case r of
        NotCreated e \<Rightarrow> p\<lparr>ps_lines := ps_lines p @ [(ERR, ''Failed to create Named Pipe: '' @ to_string_int e)]\<rparr>
      | NotConnected h \<Rightarrow> pipe_rounds rs (p\<lparr>ps_closed := ps_closed p @ [h]\<rparr>)
      | Connected h tk \<Rightarrow>
          let p1 = p\<lparr>ps_daemon := accept_pipe tk (ps_daemon p)\<rparr> in
          pipe_rounds rs (if max_connections (d_st (ps_daemon p)) \<le> active_connections (d_st (ps_daemon p))
            then p1\<lparr>ps_closed := ps_closed p1 @ [h]\<rparr> else p1\<lparr>ps_served := ps_served p1 @ [h]\<rparr>))"

definition run_server :: "string \<Rightarrow> (bool \<times> pipe_round) list \<Rightarrow> 's Daemon \<Rightarrow> 's PipeServer" where
  "run_server pipe_name rs d = pipe_rounds rs \<lparr>ps_closed = [], ps_served = [],
     ps_lines = [(INFO, ''Named Pipe server starting on: '' @ pipe_name)], ps_daemon = d\<rparr>"

section \<open>The discovery responder\<close>

text \<open>
  The loop over what \<open>recvfrom\<close> delivers, \<open>None\<close> for an error: the answers sent, and the exception that ends the
  process if the environment lacks an entry.
\<close>

fun discovery_loop ::
  "'s IBackend \<Rightarrow> Options \<Rightarrow> string \<Rightarrow> (bool \<times> string \<times> string option) list \<Rightarrow> 's World \<Rightarrow> string list res \<times> 's World" where
  "discovery_loop B o' hostname [] w = (Ok [], w)"
| "discovery_loop B o' hostname ((running, ts, r) # rs) w =
     (if \<not> running then (Ok [], w)
      else case r of None \<Rightarrow> discovery_loop B o' hostname rs w
        | Some msg \<Rightarrow> (case discovery_datagram B o' hostname ts msg w of
            (Ok answer, w') \<Rightarrow> (case discovery_loop B o' hostname rs w' of
               (Ok replies, w'') \<Rightarrow> (Ok ((case answer of None \<Rightarrow> [] | Some text \<Rightarrow> [text]) @ replies), w'') | x \<Rightarrow> x)
          | (Throw e, w') \<Rightarrow> (Throw e, w') | (Stuck, w') \<Rightarrow> (Stuck, w')))"

definition run_discovery_responder ::
  "'s IBackend \<Rightarrow> Options \<Rightarrow> string \<Rightarrow> bool \<Rightarrow> bool \<Rightarrow> string \<Rightarrow> (bool \<times> string \<times> string option) list \<Rightarrow> 's World \<Rightarrow> string list res \<times> 's World" where
  "run_discovery_responder B o' hostname created bound ts rs w =
     (if \<not> created \<or> \<not> bound then (Ok [], w)
      else discovery_loop B o' hostname rs (w\<lparr>w_log := log_at INFO ts
        (''Discovery responder listening on UDP '' @ to_string_int (discovery_port (w_st w))) (w_log w)\<rparr>))"

section \<open>Sockets and handles\<close>

definition listener_ok :: "'s TcpServer \<Rightarrow> bool" where
  "listener_ok t \<longleftrightarrow> (case ts_at t of
     NotStarted \<Rightarrow> ts_listen_sock t = 0 \<and> ts_closed t = []
   | Finished None \<Rightarrow> ts_listen_sock t = 0 \<and> ts_closed t = []
   | Finished (Some s) \<Rightarrow> s \<noteq> 0 \<and> s \<noteq> 2 ^ 64 - 1 \<and> (ts_listen_sock t = s \<and> ts_closed t = [s] \<or> ts_listen_sock t = 0 \<and> ts_closed t = [s, s])
   | HasSocket s \<Rightarrow> s \<noteq> 0 \<and> s \<noteq> 2 ^ 64 - 1 \<and> (ts_listen_sock t = s \<and> ts_closed t = [] \<or> ts_listen_sock t = 0 \<and> ts_closed t = [s])
   | Accepting s \<Rightarrow> s \<noteq> 0 \<and> s \<noteq> 2 ^ 64 - 1 \<and> (ts_listen_sock t = s \<and> ts_closed t = [] \<or> ts_listen_sock t = 0 \<and> ts_closed t = [s]))"

lemma tcp_log_frame [simp]:
  "ts_at (tcp_log l m t) = ts_at t" "ts_listen_sock (tcp_log l m t) = ts_listen_sock t" "ts_closed (tcp_log l m t) = ts_closed t"
  "ts_daemon (tcp_log l m t) = ts_daemon t"
  by (simp_all add: tcp_log_def)

lemma listener_run_ok: "listener_run bind_public port d t \<Longrightarrow> listener_ok t"
proof (induction rule: listener_run.induct)
  case fresh
  show ?case by (simp add: listener_ok_def new_tcp_server_def)
next
  case (socket t created wsa_ok)
  then show ?case by (auto simp: listener_ok_def tcp_socket_def Let_def split: sum.splits)
next
  case (bind t s e listens)
  then show ?case by (auto simp: listener_ok_def tcp_bind_def Let_def split: option.splits)
next
  case (accept t s running a)
  then show ?case by (auto simp: listener_ok_def tcp_accept_def)
next
  case (stop t)
  then show ?case by (auto simp: listener_ok_def tcp_stop_def split: start_at.splits option.splits)
qed

lemma daemon_run_one: "daemon_step cfg B d d' \<Longrightarrow> daemon_run cfg B (Suc 0) d d'"
  using daemon_run.run_step[OF daemon_run.run_refl] .

lemma listener_daemon: "listener_run bind_public port d t \<Longrightarrow> \<exists>n. daemon_run cfg B n d (ts_daemon t)"
proof (induction rule: listener_run.induct)
  case (accept t s running a)
  then obtain n where "daemon_run cfg B n d (ts_daemon t)" by blast
  then have "daemon_run cfg B (Suc n) d (accept_tcp (ts_daemon t))" by (rule daemon_run.run_step) (rule daemon_step.accept_socket)
  with \<open>daemon_run cfg B n d (ts_daemon t)\<close> show ?case by (auto simp: tcp_accept_def)
qed (auto simp: new_tcp_server_def tcp_socket_def tcp_bind_def tcp_stop_def Let_def
    intro: daemon_run.run_refl split: sum.splits option.splits)



text \<open>The rounds of the pipe server that are run: up to the one in which the flag is cleared or no pipe can be created.\<close>

definition pipe_run :: "(bool \<times> pipe_round) list \<Rightarrow> pipe_round list" where
  "pipe_run rs = map snd (takeWhile (\<lambda>(running, r). running \<and> (\<forall>e. r \<noteq> NotCreated e)) rs)"

fun round_handle :: "pipe_round \<Rightarrow> nat option" where
  "round_handle (NotCreated e) = None"
| "round_handle (NotConnected h) = Some h"
| "round_handle (Connected h tk) = Some h"

lemma accept_pipe_clients:
  "length (d_clients (accept_pipe tk d)) =
     length (d_clients d) + (if max_connections (d_st d) \<le> active_connections (d_st d) then 0 else 1)"
  by (simp add: accept_pipe_def Let_def w_logged_def)

lemma pipe_rounds_accounted:
  "mset (ps_closed (pipe_rounds rs p)) + mset (ps_served (pipe_rounds rs p)) =
     mset (ps_closed p) + mset (ps_served p) + mset (List.map_filter round_handle (pipe_run rs)) \<and>
   length (d_clients (ps_daemon (pipe_rounds rs p))) + length (ps_served p) =
     length (d_clients (ps_daemon p)) + length (ps_served (pipe_rounds rs p))"
proof (induction rs arbitrary: p)
  case (Cons x rs)
  obtain running r where x: "x = (running, r)" by fastforce
  show ?case
  proof (cases running)
    case False
    then show ?thesis by (simp add: x pipe_run_def List.map_filter_def)
  next
    case True
    then show ?thesis
    proof (cases r)
      case (Connected h tk)
      then show ?thesis using True
        Cons.IH[of "p\<lparr>ps_daemon := accept_pipe tk (ps_daemon p), ps_closed := ps_closed p @ [h]\<rparr>"]
        Cons.IH[of "p\<lparr>ps_daemon := accept_pipe tk (ps_daemon p), ps_served := ps_served p @ [h]\<rparr>"]
        by (auto simp: x pipe_run_def List.map_filter_simps Let_def accept_pipe_clients)
    next
      case (NotConnected h)
      then show ?thesis using True Cons.IH[of "p\<lparr>ps_closed := ps_closed p @ [h]\<rparr>"]
        by (simp add: x pipe_run_def List.map_filter_simps)
    qed (simp add: x pipe_run_def List.map_filter_def)
  qed
qed (simp add: pipe_run_def List.map_filter_def)

lemma pipe_rounds_daemon: "daemon_run cfg B n d (ps_daemon p) \<Longrightarrow> \<exists>m. daemon_run cfg B m d (ps_daemon (pipe_rounds rs p))"
proof (induction rs arbitrary: p n)
  case (Cons x rs)
  obtain running r where x: "x = (running, r)" by fastforce
  have "daemon_run cfg B (Suc n) d (accept_pipe tk (ps_daemon p))" for tk
    using Cons.prems by (rule daemon_run.run_step) (rule daemon_step.accept)
  then show ?case
    using Cons.prems Cons.IH[of n "p\<lparr>ps_closed := ps_closed p @ [h]\<rparr>" for h]
      Cons.IH[of "Suc n" "p\<lparr>ps_daemon := accept_pipe tk (ps_daemon p), ps_closed := ps_closed p @ [h]\<rparr>" for tk h]
      Cons.IH[of "Suc n" "p\<lparr>ps_daemon := accept_pipe tk (ps_daemon p), ps_served := ps_served p @ [h]\<rparr>" for tk h]
    by (auto simp: x Let_def split: pipe_round.split)
qed auto

text \<open>Every pipe instance the server creates has one owner. Over any sequence of rounds, the handles created are
  exactly those closed by the loop and those passed on to a client thread, none twice and none in both, and one
  client thread is started for each handle passed on; a handle is closed when nobody connected or the daemon
  is full.\<close>

lemma pipe_handles_accounted:
  "mset (ps_closed (run_server pipe_name rs d)) + mset (ps_served (run_server pipe_name rs d)) =
     mset (List.map_filter round_handle (pipe_run rs)) \<and>
   length (d_clients (ps_daemon (run_server pipe_name rs d))) = length (d_clients d) + length (ps_served (run_server pipe_name rs d))"
  using pipe_rounds_accounted[of rs "\<lparr>ps_closed = [], ps_served = [],
     ps_lines = [(INFO, ''Named Pipe server starting on: '' @ pipe_name)], ps_daemon = d\<rparr>"]
  by (simp add: run_server_def)

section \<open>Discovery\<close>

text \<open>The messages that arrive before the flag is cleared.\<close>

definition arrived :: "(bool \<times> string \<times> string option) list \<Rightarrow> string list" where
  "arrived rs = List.map_filter (\<lambda>(running, ts, r). r) (takeWhile fst rs)"

lemma discovery_loop_answers:
  assumes env: "\<And>b. \<exists>b'. get_env_metadata B b = (Ok env, b')" "map_of env ''os'' = Some (Str os_name)" "map_of env ''is_wine'' = Some (Bool wine)"
  shows "\<exists>w'. discovery_loop B o' hostname rs w =
    (Ok (replicate (count_list (arrived rs) ''WININSPECT_DISCOVER'') (dumps (Obj (announcement o' os_name wine hostname)))), w')"
proof (induction rs arbitrary: w)
  case (Cons x rs)
  obtain running ts r where x: "x = (running, ts, r)" by (metis prod_cases3)
  have dg: "\<exists>w'. discovery_datagram B o' hostname ts msg w = (Ok (if msg = ''WININSPECT_DISCOVER''
      then Some (dumps (Obj (announcement o' os_name wine hostname))) else None), w')" for msg w
  proof -
    obtain b' where "get_env_metadata B (w_backend w) = (Ok env, b')" using env(1) by blast
    then show ?thesis using env(2,3)
      by (auto simp: discovery_datagram_def discovery_reply_def andThen_def obj_at_def as_str_def as_bool_def lift_res_def comp_simps)
  qed
  show ?case
  proof (cases "running \<and> r \<noteq> None")
    case True
    then obtain msg where r: "r = Some msg" "running" by auto
    obtain w1 where w1: "discovery_datagram B o' hostname ts msg w = (Ok (if msg = ''WININSPECT_DISCOVER''
      then Some (dumps (Obj (announcement o' os_name wine hostname))) else None), w1)" using dg by blast
    then show ?thesis using Cons.IH[of w1] r by (auto simp: x arrived_def List.map_filter_simps)
  next
    case False
    then show ?thesis using Cons.IH[of w] by (auto simp: x arrived_def List.map_filter_simps)
  qed
qed (simp add: arrived_def List.map_filter_simps)

text \<open>The discovery responder answers each question once. Over any sequence of datagrams, receive errors included,
  it sends one announcement for every datagram that is exactly its word, the same one each time, and nothing
  for any other; a client that parses it finds the TCP port, the system, the name of the pipe, and the host
  name exactly when \<open>--include-hostname\<close> was given.\<close>

theorem responder_answers:
  assumes "\<forall>b. \<exists>b'. get_env_metadata B b = (Ok env, b')" "map_of env ''os'' = Some (Str os_name)" "map_of env ''is_wine'' = Some (Bool wine)"
    and "op_pipe_name o' = pipe_prefix @ pipe" "CHR 0x5C \<notin> set pipe" "- (2 ^ 31) \<le> op_tcp_port o'" "op_tcp_port o' < 2 ^ 31"
  shows "\<exists>answer m w'. run_discovery_responder B o' hostname True True ts rs w =
      (Ok (replicate (count_list (arrived rs) ''WININSPECT_DISCOVER'') answer), w') \<and> parse answer = Ok (Obj m) \<and>
    get_num m ''port'' = Some (double_of_int (op_tcp_port o')) \<and> get_str m ''os'' = Some os_name \<and>
    get_bool m ''is_wine'' = Some wine \<and> get_str m ''pipe_name'' = Some pipe \<and>
    get_str m ''hostname'' = (if op_include_hostname o' then Some hostname else None)"
proof -
  let ?m = "announcement o' os_name wine hostname"
  have "\<exists>w'. run_discovery_responder B o' hostname True True ts rs w =
      (Ok (replicate (count_list (arrived rs) ''WININSPECT_DISCOVER'') (dumps (Obj ?m))), w')"
    unfolding run_discovery_responder_def using discovery_loop_answers[OF spec[OF assms(1)] assms(2,3)] by simp
  moreover have "parse (dumps (Obj ?m)) = Ok (Obj ?m)"
    using wire_announcement assms(6,7) by (intro wire_round_trip) simp
  moreover have "get_num ?m ''port'' = Some (double_of_int (op_tcp_port o'))" "get_str ?m ''os'' = Some os_name"
    "get_bool ?m ''is_wine'' = Some wine" "get_str ?m ''pipe_name'' = Some pipe"
    "get_str ?m ''hostname'' = (if op_include_hostname o' then Some hostname else None)"
    using assms(4,5) by (auto simp: announcement_def get_num_def get_str_def get_bool_def short_name)
  ultimately show ?thesis by blast
qed

theorem responder_answers_witness:
  "\<forall>w :: FakeBackend World. \<exists>answer m w'. run_discovery_responder fake_backend (default_options\<lparr>op_include_hostname := True\<rparr>) ''box'' True True ''t''
      [(True, ''t'', Some ''hello''), (True, ''t'', Some ''WININSPECT_DISCOVER''), (True, ''t'', None)] w = (Ok [answer], w') \<and>
    parse answer = Ok (Obj m) \<and> get_str m ''pipe_name'' = Some ''wininspectd'' \<and> get_str m ''hostname'' = Some ''box''"
proof
  fix w :: "FakeBackend World"
  show "\<exists>answer m w'. run_discovery_responder fake_backend (default_options\<lparr>op_include_hostname := True\<rparr>) ''box'' True True ''t''
      [(True, ''t'', Some ''hello''), (True, ''t'', Some ''WININSPECT_DISCOVER''), (True, ''t'', None)] w = (Ok [answer], w') \<and>
    parse answer = Ok (Obj m) \<and> get_str m ''pipe_name'' = Some ''wininspectd'' \<and> get_str m ''hostname'' = Some ''box''"
    using responder_answers[of fake_backend _ "os fake_caps" "is_wine fake_caps"
        "default_options\<lparr>op_include_hostname := True\<rparr>" "''wininspectd''" "''box''" "''t''"
        "[(True, ''t'', Some ''hello''), (True, ''t'', Some ''WININSPECT_DISCOVER''), (True, ''t'', None)]" w]
    by (simp add: fake_get_env_metadata_def comp_simps default_options_def arrived_def List.map_filter_simps del: discovery_loop.simps) blast
qed

end
