(* ===== verification/Discovery.thy ===== *)
theory Discovery
  imports Listeners Cli_Main
begin

text \<open>
  Discovery from end to end: \<open>discover\<close> of the command line client (\<open>cli.cpp\<close>) against the discovery responder of the
  daemon (\<open>server.cpp\<close>). The network between them may lose any of the three questions and deliver other datagrams
  to the daemon.
\<close>

section \<open>The client's side\<close>

text \<open>The three questions, with the addresses they go to.\<close>

definition discover_sends :: "int \<Rightarrow> (string \<times> nat \<times> string) list" where
  "discover_sends disc_port =
     map (\<lambda>host. (host, nat (disc_port mod 2 ^ 16), ''WININSPECT_DISCOVER'')) [''255.255.255.255'', ''127.0.0.1'', ''0.0.0.0'']"

section \<open>From question to answer\<close>

text \<open>The text of a document holds no zero byte, so printing it as a C string shows all of it.\<close>

lemma unicode_escape_no_zero: "CHR 0x00 \<notin> set (unicode_escape n)"
proof -
  have z: "hex_digit_lower d \<noteq> CHR 0x00" if "d < 16" for d
  proof
    assume "hex_digit_lower d = CHR 0x00"
    then have "hexval (CHR 0x00) = int d" using hexval_hex_digit_lower[OF that] by simp
    then show False by (simp add: hexval_def)
  qed
  have "CHR 0x00 \<noteq> hex_digit_lower (k mod 16)" for k using z[of "k mod 16"] by (simp add: eq_commute)
  then show ?thesis by (simp add: unicode_escape_def)
qed

lemma dump_char_no_zero: "CHR 0x00 \<notin> set (dump_char c)"
  using unicode_escape_no_zero[of "code_of c"] by (auto simp: dump_char_def)

lemma dump_string_no_zero: "CHR 0x00 \<notin> set out \<Longrightarrow> CHR 0x00 \<notin> set (dump_string out s)"
  using dump_char_no_zero by (auto simp: dump_string_append)

lemma dump_number_no_zero:
  assumes "wf_double d" "integral d"
  shows "CHR 0x00 \<notin> set (dump_number d)"
proof -
  obtain n where "dmag d = of_nat n" using assms by (rule integral_nat)
  then show ?thesis using dec_str_isdigit[of "CHR 0x00" n] by (auto simp: dump_number_integral isdigit_def)
qed

lemma dump_no_zero:
  "wf_value v \<Longrightarrow> integral_value v \<Longrightarrow> CHR 0x00 \<notin> set out \<Longrightarrow> CHR 0x00 \<notin> set (dump out v)"
  "\<forall>v \<in> set vs. wf_value v \<and> integral_value v \<Longrightarrow> CHR 0x00 \<notin> set out \<Longrightarrow> CHR 0x00 \<notin> set (dump_arr first out vs)"
  "\<forall>p \<in> set m. wf_value (snd p) \<and> integral_value (snd p) \<Longrightarrow> CHR 0x00 \<notin> set out \<Longrightarrow> CHR 0x00 \<notin> set (dump_obj first out m)"
  by (induction out v and first out vs and first out m rule: dump_dump_arr_dump_obj.induct)
    (auto simp: dump_string_no_zero dump_number_no_zero)

lemma dumps_no_zero: "wire_value v \<Longrightarrow> takeWhile (\<lambda>c. c \<noteq> CHR 0x00) (dumps v) = dumps v"
  using dump_no_zero(1)[of v "[]"] by (auto simp: wire_value_def dumps_def takeWhile_eq_all_conv)

text \<open>C25: discovery works. When \<open>k\<close> of the three questions reach a daemon, whatever other datagrams and errors its
  socket sees, the client prints its heading and one line for each of the \<open>k\<close> answers, with the sender's
  address and a document that parses to the daemon's port, system and pipe name; the answer has to fit the client's buffer
  of 1023 bytes.\<close>

theorem discover_finds_daemon:
  assumes "\<forall>b. \<exists>b'. get_env_metadata B b = (Ok env, b')" "map_of env ''os'' = Some (Str os_name)" "map_of env ''is_wine'' = Some (Bool wine)"
    and "op_pipe_name o' = pipe_prefix @ pipe" "CHR 0x5C \<notin> set pipe" "- (2 ^ 31) \<le> op_tcp_port o'" "op_tcp_port o' < 2 ^ 31"
    and "length (dumps (Obj (announcement o' os_name wine hostname))) \<le> 1023"
    and "filter ((=) ''WININSPECT_DISCOVER'') (arrived rs) = take k (map (snd \<circ> snd) (discover_sends port))" "k \<le> 3"
  shows "\<exists>answers w' answer m. run_discovery_responder B o' hostname True True ts rs w = (Ok answers, w') \<and>
    discover_output port (map (Pair ip) answers) = ''Scanning for WinInspect daemons on port '' @ to_string_int port @ ''...'' @ [CHR 0x0A] @
      concat (replicate k (''['' @ ip @ ''] '' @ answer @ [CHR 0x0A])) \<and>
    parse answer = Ok (Obj m) \<and> get_num m ''port'' = Some (double_of_int (op_tcp_port o')) \<and> get_str m ''os'' = Some os_name \<and>
    get_str m ''pipe_name'' = Some pipe"
proof -
  let ?m = "announcement o' os_name wine hostname"
  have "length (filter ((=) ''WININSPECT_DISCOVER'') (arrived rs)) = k"
    using assms(9,10) by (simp add: discover_sends_def)
  then have "count_list (arrived rs) ''WININSPECT_DISCOVER'' = k" by (simp add: count_list_eq_length_filter)
  then obtain w' where r: "run_discovery_responder B o' hostname True True ts rs w = (Ok (replicate k (dumps (Obj ?m))), w')"
    unfolding run_discovery_responder_def using discovery_loop_answers[OF spec[OF assms(1)] assms(2,3)] by fastforce
  have wire: "wire_value (Obj ?m)" using wire_announcement assms(6,7) by simp
  then have p: "parse (dumps (Obj ?m)) = Ok (Obj ?m)" by (rule wire_round_trip)
  have "dumps (Obj ?m) \<noteq> []" by (simp add: dumps_def dump_aggregates(2) del: dump.simps)
  then have "discover_line (ip, dumps (Obj ?m)) = ''['' @ ip @ ''] '' @ dumps (Obj ?m) @ [CHR 0x0A]"
    using assms(8) dumps_no_zero[OF wire] by (simp add: discover_line_def)
  moreover have "get_num ?m ''port'' = Some (double_of_int (op_tcp_port o'))" "get_str ?m ''os'' = Some os_name" "get_str ?m ''pipe_name'' = Some pipe"
    using assms(4,5) by (auto simp: announcement_def get_num_def get_str_def short_name)
  ultimately show ?thesis using r p by (intro exI[of _ "replicate k (dumps (Obj ?m))"] exI[of _ w'] exI[of _ "dumps (Obj ?m)"] exI[of _ ?m])
      (simp add: discover_output_def)
qed

lemma sample_announcement:
  "obj_of [(''type'', Str ''announcement''), (''port'', x), (''os'', y), (''is_wine'', z), (''pipe_name'', u)] =
     [(''is_wine'', z), (''os'', y), (''pipe_name'', u), (''port'', x), (''type'', Str ''announcement'')]"
  by code_simp

theorem discover_finds_daemon_witness:
  "\<forall>w :: FakeBackend World. \<exists>answers w' answer m. run_discovery_responder fake_backend default_options ''box'' True True ''t''
      [(True, ''t'', Some ''hello''), (True, ''t'', Some ''WININSPECT_DISCOVER''), (True, ''t'', None), (True, ''t'', Some ''WININSPECT_DISCOVER'')] w = (Ok answers, w') \<and>
    discover_output 1986 (map (Pair ''127.0.0.1'') answers) = ''Scanning for WinInspect daemons on port '' @ to_string_int 1986 @ ''...'' @ [CHR 0x0A] @
      concat (replicate 2 (''[127.0.0.1] '' @ answer @ [CHR 0x0A])) \<and>
    parse answer = Ok (Obj m) \<and> get_str m ''pipe_name'' = Some ''wininspectd''"
proof
  fix w :: "FakeBackend World"
  let ?rs = "[(True, ''t'', Some ''hello''), (True, ''t'', Some ''WININSPECT_DISCOVER''), (True, ''t'', None), (True, ''t'', Some ''WININSPECT_DISCOVER'')]"
  have len: "length (dumps (Obj (announcement default_options (os fake_caps) (is_wine fake_caps) ''box''))) \<le> 1023"
  proof -
    have "dmag (double_of_int 1985) = of_nat 1985" using rnd64_int_exact[of 1985] by (simp add: double_of_int_def)
    moreover have "dec_str 1985 = ''1985''" by code_simp
    ultimately have n: "length (dump_number (double_of_int 1985)) \<le> 5" using dump_number_integral[of "double_of_int 1985" 1985] by simp
    have "announcement default_options (os fake_caps) (is_wine fake_caps) ''box'' = [(''is_wine'', Bool False), (''os'', Str ''windows 10 (fake)''),
        (''pipe_name'', Str ''wininspectd''), (''port'', num_of_int 1985), (''type'', Str ''announcement'')]"
      using short_name[of "''wininspectd''"] by (simp add: announcement_def default_options_def sample_announcement fake_caps_def)
    then show ?thesis using n by (simp add: dumps_def dump_string_append dump_char_def)
  qed
  have arr: "filter ((=) ''WININSPECT_DISCOVER'') (arrived ?rs) = take 2 (map (snd \<circ> snd) (discover_sends 1986))"
    by (simp add: arrived_def List.map_filter_simps discover_sends_def numeral_2_eq_2)
  show "\<exists>answers w' answer m. run_discovery_responder fake_backend default_options ''box'' True True ''t'' ?rs w = (Ok answers, w') \<and>
    discover_output 1986 (map (Pair ''127.0.0.1'') answers) = ''Scanning for WinInspect daemons on port '' @ to_string_int 1986 @ ''...'' @ [CHR 0x0A] @
      concat (replicate 2 (''[127.0.0.1] '' @ answer @ [CHR 0x0A])) \<and>
    parse answer = Ok (Obj m) \<and> get_str m ''pipe_name'' = Some ''wininspectd''"
    using discover_finds_daemon[OF _ _ _ _ _ _ _ len arr, of fake_backend _ "''wininspectd''" "''t''" w "''127.0.0.1''"]
    by (simp add: fake_get_env_metadata_def comp_simps default_options_def del: discovery_loop.simps) blast
qed

end
