(* ===== verification/Util_Win32.thy ===== *)
theory Util_Win32
  imports Prelude "HOL-Library.Multiset"
begin

text \<open>
  The owners of system resources in \<open>util_win32.hpp\<close>: \<open>SafeHandle\<close>, \<open>HKey\<close> and \<open>ScHandle\<close>, which can be moved but
  not copied, and \<open>ComPtr\<close>, which counts references. A program is a list of constructions, moves, assignments and
  destructions of such objects; the objects are the cells of a list, \<open>None\<close> outside their lifetime. The locale
  \<open>owning_handle\<close> is what the three move-only classes have in common, and each of them is an instance: whatever
  order objects are made, moved and destroyed in, every resource is given back exactly once.
\<close>

section \<open>Move-only owners\<close>

record Owners =
  ow_cells :: "nat option list"
  ow_closed :: "nat list"
  ow_lost :: "nat list"

datatype owner_op = Construct nat nat | MoveConstruct nat nat | MoveAssign nat nat | Destroy nat | Receive nat nat

text \<open>An operation outside an object's lifetime is undefined.\<close>

definition alive :: "'a option list \<Rightarrow> nat \<Rightarrow> bool" where
  "alive cells i \<longleftrightarrow> i < length cells \<and> cells ! i \<noteq> None"

definition unused :: "'a option list \<Rightarrow> nat \<Rightarrow> bool" where
  "unused cells i \<longleftrightarrow> i < length cells \<and> cells ! i = None"

definition close_handle :: "(nat \<Rightarrow> bool) \<Rightarrow> nat \<Rightarrow> Owners \<Rightarrow> Owners" where
  "close_handle closes i s = (if closes (the (ow_cells s ! i)) then s\<lparr>ow_closed := ow_closed s @ [the (ow_cells s ! i)]\<rparr> else s)"

text \<open>
  The members the three classes share but for the handles they close, \<open>closes\<close>, and the one an object is left
  with when it has been moved from, \<open>none\<close>.
\<close>

fun owner_step :: "(nat \<Rightarrow> bool) \<Rightarrow> nat \<Rightarrow> owner_op \<Rightarrow> Owners \<Rightarrow> Owners option" where
  "owner_step closes none (Construct i h) s =
     (if unused (ow_cells s) i then Some (s\<lparr>ow_cells := (ow_cells s)[i := Some h]\<rparr>) else None)"
| "owner_step closes none (MoveConstruct i j) s =
     (if unused (ow_cells s) i \<and> alive (ow_cells s) j
      then Some (s\<lparr>ow_cells := (ow_cells s)[i := ow_cells s ! j, j := Some none]\<rparr>) else None)"
| "owner_step closes none (MoveAssign i j) s =
     (if alive (ow_cells s) i \<and> alive (ow_cells s) j
      then if i \<noteq> j then let s1 = close_handle closes i s in
             Some (s1\<lparr>ow_cells := (ow_cells s1)[i := ow_cells s1 ! j, j := Some none]\<rparr>)
           else Some s
      else None)"
| "owner_step closes none (Destroy i) s =
     (if alive (ow_cells s) i
      then let s1 = close_handle closes i s in Some (s1\<lparr>ow_cells := (ow_cells s1)[i := None]\<rparr>) else None)"
| "owner_step closes none (Receive i h) s = None"

text \<open>
  What a call does that is passed the address of the handle inside an object: a handle that was there is
  overwritten, and no object owns it any more.
\<close>

definition receive :: "(nat \<Rightarrow> bool) \<Rightarrow> nat \<Rightarrow> nat \<Rightarrow> Owners \<Rightarrow> Owners option" where
  "receive closes i h s =
     (if alive (ow_cells s) i
      then Some (s\<lparr>ow_cells := (ow_cells s)[i := Some h],
        ow_lost := ow_lost s @ (if closes (the (ow_cells s ! i)) then [the (ow_cells s ! i)] else [])\<rparr>) else None)"

abbreviation INVALID_HANDLE_VALUE :: nat where "INVALID_HANDLE_VALUE \<equiv> 2 ^ 64 - 1"

definition closes_handle :: "nat \<Rightarrow> bool" where
  "closes_handle h \<longleftrightarrow> h \<noteq> INVALID_HANDLE_VALUE \<and> h \<noteq> 0"

definition SafeHandle :: "owner_op \<Rightarrow> Owners \<Rightarrow> Owners option" where
  "SafeHandle = owner_step closes_handle INVALID_HANDLE_VALUE"

text \<open>The predefined keys, which are sign-extended constants, are never closed.\<close>

definition predefined_keys :: "nat set" where
  "predefined_keys = {0xFFFFFFFF80000000, 0xFFFFFFFF80000001, 0xFFFFFFFF80000002, 0xFFFFFFFF80000003}"

definition closes_key :: "nat \<Rightarrow> bool" where
  "closes_key h \<longleftrightarrow> h \<noteq> 0 \<and> h \<notin> predefined_keys"

definition HKey :: "owner_op \<Rightarrow> Owners \<Rightarrow> Owners option" where
  "HKey x = (case x of Receive i h \<Rightarrow> receive closes_key i h | _ \<Rightarrow> owner_step closes_key 0 x)"

definition ScHandle :: "owner_op \<Rightarrow> Owners \<Rightarrow> Owners option" where
  "ScHandle = owner_step (\<lambda>h. 0 < h) 0"

fun run_ops :: "('op \<Rightarrow> 's \<Rightarrow> 's option) \<Rightarrow> 'op list \<Rightarrow> 's \<Rightarrow> 's option" where
  "run_ops step [] s = Some s"
| "run_ops step (x # xs) s = (case step x s of None \<Rightarrow> None | Some s' \<Rightarrow> run_ops step xs s')"

definition no_owners :: "nat \<Rightarrow> Owners" where
  "no_owners n = \<lparr>ow_cells = replicate n None, ow_closed = [], ow_lost = []\<rparr>"

section \<open>Every handle is closed once\<close>

text \<open>The handles a program takes over, and those its objects own, as multisets.\<close>

definition weight :: "(nat \<Rightarrow> bool) \<Rightarrow> nat option \<Rightarrow> nat multiset" where
  "weight closes c = (case c of Some h \<Rightarrow> if closes h then {#h#} else {#} | None \<Rightarrow> {#})"

definition owned :: "(nat \<Rightarrow> bool) \<Rightarrow> nat option list \<Rightarrow> nat multiset" where
  "owned closes cells = sum_list (map (weight closes) cells)"

fun taken :: "(nat \<Rightarrow> bool) \<Rightarrow> owner_op list \<Rightarrow> nat multiset" where
  "taken closes [] = {#}"
| "taken closes (Construct i h # ops) = weight closes (Some h) + taken closes ops"
| "taken closes (Receive i h # ops) = weight closes (Some h) + taken closes ops"
| "taken closes (x # ops) = taken closes ops"

lemma weight_None [simp]: "weight closes None = {#}"
  by (simp add: weight_def)

lemma sum_list_update_add:
  fixes f :: "'a \<Rightarrow> 'b :: comm_monoid_add"
  shows "i < length xs \<Longrightarrow> sum_list (map f (xs[i := v])) + f (xs ! i) = sum_list (map f xs) + f v"
proof (induction xs arbitrary: i)
  case (Cons x xs)
  show ?case
  proof (cases i)
    case (Suc k)
    then have "sum_list (map f (xs[k := v])) + f (xs ! k) = sum_list (map f xs) + f v" using Cons by simp
    then show ?thesis using Suc by (simp add: add.assoc)
  qed (simp add: ac_simps)
qed simp

lemma owned_update: "i < length cells \<Longrightarrow> owned closes (cells[i := v]) + weight closes (cells ! i) = owned closes cells + weight closes v"
  unfolding owned_def by (rule sum_list_update_add)

lemma closed_weight:
  "alive (ow_cells s) i \<Longrightarrow> mset (ow_closed (close_handle closes i s)) = mset (ow_closed s) + weight closes (ow_cells s ! i)"
  by (auto simp: close_handle_def alive_def weight_def)

lemma close_frame [simp]: "ow_cells (close_handle closes i s) = ow_cells s" "ow_lost (close_handle closes i s) = ow_lost s"
  by (simp_all add: close_handle_def)

text \<open>
  What a class of owners promises of one operation: the handles owned, closed and lost are those there were
  before and those the operation takes over.
\<close>

definition ledger :: "(nat \<Rightarrow> bool) \<Rightarrow> Owners \<Rightarrow> nat multiset" where
  "ledger closes s = owned closes (ow_cells s) + mset (ow_closed s) + mset (ow_lost s)"

locale owning_handle =
  fixes closes :: "nat \<Rightarrow> bool" and step :: "owner_op \<Rightarrow> Owners \<Rightarrow> Owners option"
  assumes step_ledger: "step x s = Some s' \<Longrightarrow> ledger closes s' = ledger closes s + taken closes [x]"
    and step_length: "step x s = Some s' \<Longrightarrow> length (ow_cells s') = length (ow_cells s)"
begin

lemma run_ledger:
  "run_ops step ops s = Some s' \<Longrightarrow> ledger closes s' = ledger closes s + taken closes ops \<and> length (ow_cells s') = length (ow_cells s)"
proof (induction ops arbitrary: s)
  case (Cons x ops)
  then obtain s1 where s1: "step x s = Some s1" "run_ops step ops s1 = Some s'" by (auto split: option.splits)
  have "taken closes (x # ops) = taken closes [x] + taken closes ops" by (cases x) simp_all
  then show ?case using Cons.IH[OF s1(2)] step_ledger[OF s1(1)] step_length[OF s1(1)] by (simp add: ac_simps)
qed simp

lemma all_closed:
  assumes "run_ops step ops (no_owners n) = Some s" "set (ow_cells s) \<subseteq> {None}"
  shows "mset (ow_closed s) + mset (ow_lost s) = taken closes ops"
proof -
  have "set xs \<subseteq> {None} \<Longrightarrow> owned closes xs = {#}" for xs by (induction xs) (simp_all add: owned_def)
  then have "owned closes (ow_cells s) = {#}" "owned closes (ow_cells (no_owners n)) = {#}"
    using assms(2) by (simp_all add: no_owners_def set_replicate_conv_if)
  then show ?thesis using run_ledger[OF assms(1)] by (simp add: ledger_def no_owners_def)
qed

end

lemma owned_moved:
  assumes "\<not> closes none" "i < length cells" "j < length cells" "i \<noteq> j"
  shows "owned closes (cells[i := cells ! j, j := Some none]) + weight closes (cells ! i) = owned closes cells"
proof -
  have "owned closes (cells[i := cells ! j, j := Some none]) + weight closes (cells ! j) = owned closes (cells[i := cells ! j])"
    using owned_update[of j "cells[i := cells ! j]" closes "Some none"] assms by (simp add: weight_def)
  moreover have "owned closes (cells[i := cells ! j]) + weight closes (cells ! i) = owned closes cells + weight closes (cells ! j)"
    using assms(2) by (rule owned_update)
  ultimately have "owned closes (cells[i := cells ! j, j := Some none]) + weight closes (cells ! i) + weight closes (cells ! j) =
      owned closes cells + weight closes (cells ! j)" by (metis add.assoc add.commute)
  then show ?thesis by simp
qed

lemma owner_step_ledger:
  assumes "\<not> closes none" "owner_step closes none x s = Some s'"
  shows "ledger closes s' = ledger closes s + taken closes [x]"
proof (cases x)
  case (Construct i h)
  then show ?thesis using assms(2) owned_update[of i "ow_cells s" closes "Some h"]
    by (auto simp: ledger_def unused_def ac_simps split: if_splits)
next
  case (MoveConstruct i j)
  then have "unused (ow_cells s) i" "alive (ow_cells s) j" "i \<noteq> j" "s' = s\<lparr>ow_cells := (ow_cells s)[i := ow_cells s ! j, j := Some none]\<rparr>"
    using assms(2) by (auto simp: unused_def alive_def split: if_splits)
  then show ?thesis using MoveConstruct owned_moved[of closes none i "ow_cells s" j] assms(1) by (simp add: ledger_def unused_def alive_def)
next
  case (MoveAssign i j)
  then show ?thesis using assms(2) owned_moved[of closes none i "ow_cells s" j] assms(1) closed_weight[of s i closes]
    by (auto simp: ledger_def alive_def Let_def ac_simps split: if_splits)
next
  case (Destroy i)
  then show ?thesis using assms(2) owned_update[of i "ow_cells s" closes None] closed_weight[of s i closes]
    by (auto simp: ledger_def alive_def Let_def ac_simps split: if_splits)
qed (use assms(2) in simp)

lemma owner_step_length: "owner_step closes none x s = Some s' \<Longrightarrow> length (ow_cells s') = length (ow_cells s)"
  by (cases x) (auto simp: Let_def split: if_splits)

lemma receive_ledger:
  assumes "receive closes i h s = Some s'"
  shows "ledger closes s' = ledger closes s + weight closes (Some h)"
proof -
  have a: "i < length (ow_cells s)" "ow_cells s ! i \<noteq> None" using assms by (auto simp: receive_def alive_def split: if_splits)
  have "mset (ow_lost s') = mset (ow_lost s) + weight closes (ow_cells s ! i)" "ow_closed s' = ow_closed s"
    "ow_cells s' = (ow_cells s)[i := Some h]"
    using assms a by (auto simp: receive_def weight_def split: if_splits)
  then show ?thesis using owned_update[OF a(1), of closes "Some h"] by (simp add: ledger_def ac_simps)
qed

interpretation safe_handle: owning_handle closes_handle SafeHandle
  unfolding SafeHandle_def by unfold_locales (erule owner_step_ledger[rotated] owner_step_length, (simp add: closes_handle_def)?)+

interpretation sc_handle: owning_handle "\<lambda>h. 0 < h" ScHandle
  unfolding ScHandle_def by unfold_locales (erule owner_step_ledger[rotated] owner_step_length, simp?)+

interpretation registry_key: owning_handle closes_key HKey
proof
  show "ledger closes_key s' = ledger closes_key s + taken closes_key [x]" if "HKey x s = Some s'" for x s s'
    using that owner_step_ledger[of closes_key 0 x s s'] receive_ledger[of closes_key _ _ s s']
    by (cases x) (auto simp: HKey_def closes_key_def)
  show "length (ow_cells s') = length (ow_cells s)" if "HKey x s = Some s'" for x s s'
    using that owner_step_length[of closes_key 0 x s s'] by (cases x) (auto simp: HKey_def receive_def split: if_splits)
qed

text \<open>C22: Every handle is given back exactly once. Take any sequence of constructions, moves, assignments, calls that
  store a handle into an object and destructions, in which objects are used only during their lifetimes and no
  handle is stored over another: once all objects are destroyed, the handles closed are exactly those taken
  over, with their multiplicities, except for null, invalid and predefined ones, which are never closed. An
  assignment of an object to itself, and objects that have been moved from, close nothing.\<close>

theorem handles_closed_once:
  assumes "(closes, step) \<in> {(closes_handle, SafeHandle), (closes_key, HKey), (\<lambda>h. 0 < h, ScHandle)}"
    and "run_ops step ops (no_owners n) = Some s" "set (ow_cells s) \<subseteq> {None}" "ow_lost s = []"
  shows "mset (ow_closed s) = taken closes ops"
  using assms safe_handle.all_closed[of ops n s] registry_key.all_closed[of ops n s] sc_handle.all_closed[of ops n s] by auto

theorem handles_closed_once_witness:
  "\<exists>s. run_ops HKey [Construct 0 0, Receive 0 7, Construct 1 9, MoveAssign 0 1, MoveAssign 0 0, Destroy 1, Destroy 0] (no_owners 2) = Some s \<and>
     mset (ow_closed s) = {#7, 9#}"
proof -
  let ?ops = "[Construct 0 0, Receive 0 7, Construct 1 9, MoveAssign 0 1, MoveAssign 0 0, Destroy 1, Destroy 0]"
  let ?s = "\<lparr>ow_cells = [None, None], ow_closed = [7, 9], ow_lost = []\<rparr>"
  have r: "run_ops HKey ?ops (no_owners 2) = Some ?s"
    by (simp add: HKey_def no_owners_def receive_def close_handle_def alive_def unused_def closes_key_def predefined_keys_def numeral_2_eq_2)
  moreover have "mset (ow_closed ?s) = taken closes_key ?ops" by (rule handles_closed_once[OF _ r]) simp_all
  then have "mset (ow_closed ?s) = {#7, 9#}" by (simp add: weight_def closes_key_def predefined_keys_def)
  ultimately show ?thesis by blast
qed

section \<open>Counted pointers\<close>

text \<open>
  \<open>ComPtr\<close>: a cell holds a pointer, 0 for null; the calls to \<open>AddRef\<close> and \<open>Release\<close> are recorded in order, and so
  are the references that calls hand over through the address of the pointer, which they store without a look
  at what was there.
\<close>

record Pointers =
  cp_cells :: "nat option list"
  cp_added :: "nat list"
  cp_released :: "nat list"
  cp_received :: "nat list"

definition add_ref :: "nat \<Rightarrow> Pointers \<Rightarrow> Pointers" where
  "add_ref p s = (if p \<noteq> 0 then s\<lparr>cp_added := cp_added s @ [p]\<rparr> else s)"

definition release_ref :: "nat \<Rightarrow> Pointers \<Rightarrow> Pointers" where
  "release_ref p s = (if p \<noteq> 0 then s\<lparr>cp_released := cp_released s @ [p]\<rparr> else s)"

datatype pointer_op = Wrap nat nat | Copy nat nat | Assign nat nat | Drop nat | Fill nat nat

fun ComPtr :: "pointer_op \<Rightarrow> Pointers \<Rightarrow> Pointers option" where
  "ComPtr (Wrap i p) s =
     (if unused (cp_cells s) i then Some (add_ref p (s\<lparr>cp_cells := (cp_cells s)[i := Some p]\<rparr>)) else None)"
| "ComPtr (Copy i j) s =
     (if unused (cp_cells s) i \<and> alive (cp_cells s) j
      then Some (add_ref (the (cp_cells s ! j)) (s\<lparr>cp_cells := (cp_cells s)[i := cp_cells s ! j]\<rparr>)) else None)"
| "ComPtr (Assign i j) s =
     (if alive (cp_cells s) i \<and> alive (cp_cells s) j
      then if i \<noteq> j then let s1 = release_ref (the (cp_cells s ! i)) s;
               s2 = s1\<lparr>cp_cells := (cp_cells s1)[i := cp_cells s1 ! j]\<rparr> in
             Some (add_ref (the (cp_cells s2 ! i)) s2)
           else Some s
      else None)"
| "ComPtr (Drop i) s =
     (if alive (cp_cells s) i
      then Some ((release_ref (the (cp_cells s ! i)) s)\<lparr>cp_cells := (cp_cells s)[i := None]\<rparr>) else None)"
| "ComPtr (Fill i p) s =
     (if alive (cp_cells s) i then Some (s\<lparr>cp_cells := (cp_cells s)[i := Some p],
        cp_received := cp_received s @ (if p \<noteq> 0 then [p] else [])\<rparr>) else None)"

definition no_pointers :: "nat \<Rightarrow> Pointers" where
  "no_pointers n = \<lparr>cp_cells = replicate n None, cp_added = [], cp_released = [], cp_received = []\<rparr>"

text \<open>Every use of the address in the sources is on a pointer that is still null.\<close>

fun fills_null :: "pointer_op \<Rightarrow> Pointers \<Rightarrow> bool" where
  "fills_null (Fill i p) s \<longleftrightarrow> alive (cp_cells s) i \<longrightarrow> cp_cells s ! i = Some 0"
| "fills_null x s \<longleftrightarrow> True"

definition checked_ptr :: "pointer_op \<Rightarrow> Pointers \<Rightarrow> Pointers option" where
  "checked_ptr x s = (if fills_null x s then ComPtr x s else None)"

definition not_null :: "nat \<Rightarrow> bool" where
  "not_null p \<longleftrightarrow> p \<noteq> 0"

definition balanced :: "Pointers \<Rightarrow> bool" where
  "balanced s \<longleftrightarrow> owned not_null (cp_cells s) + mset (cp_released s) = mset (cp_added s) + mset (cp_received s)"

lemma ref_counts [simp]:
  "mset (cp_added (add_ref p s)) = mset (cp_added s) + weight not_null (Some p)"
  "mset (cp_released (release_ref p s)) = mset (cp_released s) + weight not_null (Some p)"
  "cp_cells (add_ref p s) = cp_cells s" "cp_released (add_ref p s) = cp_released s" "cp_received (add_ref p s) = cp_received s"
  "cp_cells (release_ref p s) = cp_cells s" "cp_added (release_ref p s) = cp_added s" "cp_received (release_ref p s) = cp_received s"
  by (auto simp: add_ref_def release_ref_def weight_def not_null_def)

lemma ComPtr_balanced:
  assumes "balanced s" "ComPtr x s = Some s'" "fills_null x s"
  shows "balanced s' \<and> length (cp_cells s') = length (cp_cells s)"
proof -
  let ?O = "owned not_null" and ?w = "weight not_null"
  have b: "?O (cp_cells s) + mset (cp_released s) = mset (cp_added s) + mset (cp_received s)"
    using assms(1) by (simp add: balanced_def)
  note up = owned_update[of _ "cp_cells s" not_null]
  show ?thesis
  proof (cases x)
    case (Wrap i p)
    then show ?thesis using assms(2) b up[of i "Some p"] by (auto simp: balanced_def unused_def ac_simps split: if_splits)
  next
    case (Copy i j)
    then show ?thesis using assms(2) b up[of i "cp_cells s ! j"]
      by (auto simp: balanced_def unused_def alive_def ac_simps split: if_splits)
  next
    case (Assign i j)
    show ?thesis
    proof (cases "i = j")
      case False
      then obtain p q where pq: "i < length (cp_cells s)" "cp_cells s ! i = Some p" "cp_cells s ! j = Some q"
        using assms(2) Assign by (auto simp: alive_def split: if_splits)
      have "?O ((cp_cells s)[i := Some q]) + (mset (cp_released s) + ?w (Some p)) = (mset (cp_added s) + ?w (Some q)) + mset (cp_received s)"
        using up[OF pq(1), of "Some q"] b pq(2) by (metis add.assoc add.commute)
      then show ?thesis using assms(2) Assign False pq by (auto simp: balanced_def alive_def Let_def split: if_splits)
    qed (use assms Assign in \<open>auto split: if_splits\<close>)
  next
    case (Drop i)
    then show ?thesis using assms(2) b up[of i None] by (auto simp: balanced_def alive_def ac_simps split: if_splits)
  next
    case (Fill i p)
    then have "alive (cp_cells s) i" "cp_cells s ! i = Some 0" "s' = s\<lparr>cp_cells := (cp_cells s)[i := Some p],
        cp_received := cp_received s @ (if p \<noteq> 0 then [p] else [])\<rparr>" using assms(2,3) by (auto split: if_splits)
    then show ?thesis using b up[of i "Some p"] by (auto simp: balanced_def alive_def weight_def not_null_def)
  qed
qed

lemma pointers_balanced:
  "balanced s \<Longrightarrow> run_ops checked_ptr ops s = Some s' \<Longrightarrow> balanced s' \<and> length (cp_cells s') = length (cp_cells s)"
proof (induction ops arbitrary: s)
  case (Cons x ops)
  then obtain s1 where "checked_ptr x s = Some s1" and rest: "run_ops checked_ptr ops s1 = Some s'" by (auto split: option.splits)
  then have s1: "ComPtr x s = Some s1" "fills_null x s" "run_ops checked_ptr ops s1 = Some s'"
    by (auto simp: checked_ptr_def[of x s] split: if_splits)
  then show ?case using ComPtr_balanced[OF Cons.prems(1) s1(1,2)] Cons.IH[OF _ s1(3)] by simp
qed simp

text \<open>
  Every reference is given back: when the pointers of a program are gone, each object has been released as often
  as it was referenced and handed over.
\<close>

lemma references_released:
  assumes "run_ops checked_ptr ops (no_pointers n) = Some s" "set (cp_cells s) \<subseteq> {None}"
  shows "mset (cp_released s) = mset (cp_added s) + mset (cp_received s)"
proof -
  have none: "set xs \<subseteq> {None} \<Longrightarrow> owned not_null xs = {#}" for xs by (induction xs) (simp_all add: owned_def)
  have "balanced (no_pointers n)" by (simp add: balanced_def no_pointers_def none set_replicate_conv_if)
  then have "balanced s" using pointers_balanced assms(1) by blast
  then show ?thesis using none[OF assms(2)] by (simp add: balanced_def)
qed

end
