(* ===== verification/Portable_Client.thy ===== *)
theory Portable_Client
  imports Core_Contract
begin

text \<open>
  The requests of the portable client, \<open>clients/portable/main.go\<close>: the table of commands and the parameters
  \<open>runCommand\<close> makes of the arguments, met with the engine that answers them.
\<close>

section \<open>Requests\<close>

definition portable_methods :: "(string \<times> string) list" where
  "portable_methods =
     [(''capture'', ''snapshot.capture''),
      (''top'', ''window.listTop''),
      (''info'', ''window.getInfo''),
      (''children'', ''window.listChildren''),
      (''tree'', ''window.getTree''),
      (''pick'', ''window.pickAtPoint''),
      (''status'', ''daemon.status''),
      (''health'', ''daemon.health''),
      (''highlight'', ''window.highlight''),
      (''set-prop'', ''window.setProperty''),
      (''control-click'', ''window.controlClick''),
      (''control-send'', ''window.controlSend''),
      (''get-pixel'', ''screen.getPixel''),
      (''pixel-search'', ''screen.pixelSearch''),
      (''capture-region'', ''screen.capture''),
      (''ps'', ''process.list''),
      (''kill'', ''process.kill''),
      (''file-info'', ''file.getInfo''),
      (''file-read'', ''file.read''),
      (''find-regex'', ''window.findRegex''),
      (''reg-read'', ''reg.read''),
      (''reg-write'', ''reg.write''),
      (''reg-delete'', ''reg.delete''),
      (''clip-read'', ''clipboard.read''),
      (''clip-write'', ''clipboard.write''),
      (''svc-list'', ''service.list''),
      (''svc-status'', ''service.status''),
      (''svc-control'', ''service.control''),
      (''env-get'', ''env.get''),
      (''env-set'', ''env.set''),
      (''wine-drives'', ''wine.drives''),
      (''wine-overrides'', ''wine.overrides''),
      (''mutex-check'', ''sync.checkMutex''),
      (''mutex-create'', ''sync.createMutex''),
      (''mem-read'', ''mem.read''),
      (''mem-write'', ''mem.write'')]"

text \<open>
  The \<open>switch\<close> over the command: which parameter is filled from which argument. Too few arguments are an error, more
  are ignored, and a command without a case has no parameters.
\<close>

definition portable_args :: "string \<Rightarrow> nat \<Rightarrow> string + (string \<times> nat) list" where
  "portable_args cmd n =
     (if cmd \<in> {''info'', ''children'', ''tree'', ''highlight''} then Inr (if 0 < n then [(''hwnd'', 0)] else [])
      else if cmd \<in> {''pick'', ''get-pixel''} then
        if n < 2 then Inl ''missing x y'' else Inr [(''x'', 0), (''y'', 1)]
      else if cmd = ''set-prop'' then
        if n < 3 then Inl ''missing hwnd name value'' else Inr [(''hwnd'', 0), (''name'', 1), (''value'', 2)]
      else if cmd = ''control-click'' then
        if n < 3 then Inl ''missing hwnd x y'' else Inr [(''hwnd'', 0), (''x'', 1), (''y'', 2)]
      else if cmd = ''control-send'' then
        if n < 2 then Inl ''missing hwnd text'' else Inr [(''hwnd'', 0), (''text'', 1)]
      else if cmd \<in> {''reg-read'', ''file-info'', ''file-read'', ''svc-status'', ''mutex-check'', ''mutex-create''} then
        if n < 1 then Inl ''missing argument'' else Inr [(''path'', 0), (''name'', 0)]
      else if cmd = ''reg-write'' then
        if n < 4 then Inl ''missing path name type data'' else Inr [(''path'', 0), (''name'', 1), (''type'', 2), (''data'', 3)]
      else Inr [])"

text \<open>Every argument is sent as a string; the keys of a Go map are written in order.\<close>

definition portable_params :: "(string \<times> nat) list \<Rightarrow> string list \<Rightarrow> Object" where
  "portable_params kvs args = obj_of ((''canonical'', Bool True) # map (\<lambda>(k, i). (k, Str (args ! i))) kvs)"

definition portable_request :: "string \<Rightarrow> string list \<Rightarrow> string + CoreRequest" where
  "portable_request cmd args = (case map_of portable_methods cmd of
     None \<Rightarrow> Inl (''unknown command: '' @ cmd)
   | Some m \<Rightarrow> (case portable_args cmd (length args) of Inl e \<Rightarrow> Inl e
       | Inr kvs \<Rightarrow> Inr \<lparr>req_id = ''p-1'', req_method = m, req_params = portable_params kvs args\<rparr>))"

section \<open>Commands the engine refuses\<close>

text \<open>
  Commands whose method does not exist, whose parameters are never sent, or whose numbers are sent as strings.
\<close>

definition refused_commands :: "string list" where
  "refused_commands = [''status'', ''pick'', ''get-pixel'', ''control-click'', ''pixel-search'', ''capture-region'', ''kill'',
     ''reg-delete'', ''clip-write'', ''svc-control'', ''env-set'', ''mem-read'', ''mem-write'']"

lemma refused_by_handler:
  assumes "\<And>logs. map_of (dispatch_table B eng logs) (req_method req) = Some f" "\<And>s. \<exists>e. f req snap old s = (Throw e, s)"
  shows "\<exists>r lg'. handle B eng req snap old (s, lg) = (Ok r, s, lg') \<and> \<not> resp_ok r"
proof -
  obtain e where e: "f req snap old s = (Throw e, s)" using assms(2) by blast
  have "\<exists>r lg'. handle B eng req snap old (s, lg) = (Ok r, s, lg') \<and> r = (with_error (base_response req) ''E_BAD_REQUEST'' (what e))
      \<lparr>metrics := [(''duration_ms'', num_of_int (clk_duration eng))]\<rparr>"
    using handle_run[OF assms(1), of snap old s lg] e by (cases "handle B eng req snap old (s, lg)") auto
  then show ?thesis by (auto simp: with_error_def)
qed

lemma params_no_num: "get_num (portable_params kvs args) k = None"
proof -
  have "set (portable_params kvs args) \<subseteq> set ((''canonical'', Bool True) # map (\<lambda>(k, i). (k, Str (args ! i))) kvs)"
    unfolding portable_params_def by (rule set_obj_of)
  then have "\<And>v. (k, v) \<in> set (portable_params kvs args) \<Longrightarrow> (\<exists>x. v = Str x) \<or> v = Bool True" by auto
  then have "\<And>v. map_of (portable_params kvs args) k = Some v \<Longrightarrow> (\<exists>x. v = Str x) \<or> v = Bool True" by (auto dest: map_of_SomeD)
  then show ?thesis by (cases "map_of (portable_params kvs args) k") (fastforce simp: get_num_def)+
qed

lemma params_bare: "get_str (portable_params [] args) k = None"
  by (simp add: portable_params_def get_str_def)

definition refused_handlers :: "'s IBackend \<Rightarrow> (string \<times> string \<times> 's handler) list" where
  "refused_handlers B =
     [(''pick'', ''window.pickAtPoint'', h_pick_at_point B), (''get-pixel'', ''screen.getPixel'', h_get_pixel B),
      (''control-click'', ''window.controlClick'', h_control_click B), (''pixel-search'', ''screen.pixelSearch'', h_pixel_search B),
      (''capture-region'', ''screen.capture'', h_screen_capture B), (''kill'', ''process.kill'', h_process_kill B),
      (''mem-read'', ''mem.read'', h_mem_read B), (''mem-write'', ''mem.write'', h_mem_write B),
      (''reg-delete'', ''reg.delete'', h_reg_delete B), (''clip-write'', ''clipboard.write'', h_clipboard_write B),
      (''svc-control'', ''service.control'', h_service_control B), (''env-set'', ''env.set'', h_env_set B)]"

lemma refused_methods_met: "list_all (\<lambda>(c, m, f). map_of portable_methods c = Some m) (refused_handlers B)"
  by (simp add: refused_handlers_def portable_methods_def)

lemma refused_handlers_met: "list_all (\<lambda>(c, m, f). map_of (dispatch_table B eng logs) m = Some f) (refused_handlers B)"
  unfolding refused_handlers_def list.pred_inject(2) prod.case
  by (intro conjI; (rule map_of_is_SomeI[OF dispatch_distinct])?; simp add: dispatch_table_def)

lemma both_None [simp]: "both x None = None" "both None y = None"
  by (auto simp: both_def split: option.splits)

lemma need_None [simp]: "andThen (need None msg) g s = (Throw (RuntimeError msg), s)"
  by (simp add: need_def throw_def andThen_def)

lemma args_bare:
  "portable_args ''reg-delete'' n = Inr []" "portable_args ''clip-write'' n = Inr []"
  "portable_args ''svc-control'' n = Inr []" "portable_args ''env-set'' n = Inr []"
  by (simp_all add: portable_args_def)

lemma refused_handlers_throw:
  assumes "portable_args c n = Inr kvs"
  shows "(c, m, f) \<in> set (refused_handlers B) \<Longrightarrow>
    \<exists>e. f \<lparr>req_id = i, req_method = m, req_params = portable_params kvs args\<rparr> snap old s = (Throw e, s)"
proof -
  let ?r = "\<lambda>m. \<lparr>req_id = i, req_method = m, req_params = portable_params kvs args\<rparr>"
  have "list_all (\<lambda>(c', m, f). c' = c \<longrightarrow> (\<exists>e. f (?r m) snap old s = (Throw e, s))) (refused_handlers B)"
    unfolding refused_handlers_def list.pred_inject prod.case
  proof (intro conjI TrueI impI)
    assume "''reg-delete'' = c"
    then have "kvs = []" using args_bare[of n] assms by auto
    then show "\<exists>e. h_reg_delete B (?r ''reg.delete'') snap old s = (Throw e, s)" by (simp add: h_reg_delete_def params_bare)
  next
    assume "''clip-write'' = c"
    then have "kvs = []" using args_bare[of n] assms by auto
    then show "\<exists>e. h_clipboard_write B (?r ''clipboard.write'') snap old s = (Throw e, s)" by (simp add: h_clipboard_write_def params_bare)
  next
    assume "''svc-control'' = c"
    then have "kvs = []" using args_bare[of n] assms by auto
    then show "\<exists>e. h_service_control B (?r ''service.control'') snap old s = (Throw e, s)" by (simp add: h_service_control_def params_bare)
  next
    assume "''env-set'' = c"
    then have "kvs = []" using args_bare[of n] assms by auto
    then show "\<exists>e. h_env_set B (?r ''env.set'') snap old s = (Throw e, s)" by (simp add: h_env_set_def params_bare)
  qed (simp_all add: h_pick_at_point_def h_get_pixel_def h_control_click_def h_pixel_search_def h_screen_capture_def
      h_process_kill_def h_mem_read_def h_mem_write_def params_no_num)
  then show "(c, m, f) \<in> set (refused_handlers B) \<Longrightarrow> \<exists>e. f (?r m) snap old s = (Throw e, s)"
    by (auto simp: list_all_iff)
qed

text \<open>C37: Thirteen of the thirty-six commands of the portable client can never succeed. Whatever arguments are given, the
  engine refuses the request without touching the backend: \<open>status\<close> names a method that does not exist, the
  coordinates of \<open>pick\<close>, \<open>get-pixel\<close> and \<open>control-click\<close> are sent as strings where numbers are read, and the
  arguments of the other nine are not sent at all.\<close>

theorem portable_commands_refused:
  assumes "cmd \<in> set refused_commands" "portable_request cmd args = Inr req"
  shows "\<exists>r lg'. handle B eng req snap old (s, lg) = (Ok r, s, lg') \<and> \<not> resp_ok r"
proof -
  obtain m kvs where m: "map_of portable_methods cmd = Some m" and kvs: "portable_args cmd (length args) = Inr kvs"
    and req: "req = \<lparr>req_id = ''p-1'', req_method = m, req_params = portable_params kvs args\<rparr>"
    using assms(2) by (auto simp: portable_request_def split: option.splits sum.splits)
  show ?thesis
  proof (cases "cmd = ''status''")
    case True
    then have "m = ''daemon.status''" using m by (simp add: portable_methods_def)
    then have "map_of (dispatch_table B eng logs) (req_method req) = None" for logs by (simp add: req dispatch_table_def)
    from handle_unknown[OF this, of snap old s lg] show ?thesis
      by (cases "handle B eng req snap old (s, lg)") (auto simp: with_error_def)
  next
    case False
    then have "cmd \<in> fst ` set (refused_handlers B)" using assms(1) by (auto simp: refused_commands_def refused_handlers_def)
    then obtain m' f where f: "(cmd, m', f) \<in> set (refused_handlers B)" by force
    then have m': "m' = m" using refused_methods_met[of B] m by (auto simp: list_all_iff)
    then have "map_of (dispatch_table B eng logs) m = Some f" for logs
      using f refused_handlers_met[of B eng logs] by (auto simp: list_all_iff)
    then show ?thesis
      using refused_handlers_throw[OF kvs f] m' by (intro refused_by_handler[of B eng _ f]) (simp_all add: req)
  qed
qed

theorem portable_commands_refused_witness:
  "\<forall>B :: FakeBackend IBackend. \<forall>eng s lg. \<exists>req r lg'. portable_request ''pick'' [''10'', ''20''] = Inr req \<and>
     handle B eng req \<lparr>top = []\<rparr> None (s, lg) = (Ok r, s, lg') \<and> \<not> resp_ok r"
proof (intro allI)
  fix B :: "FakeBackend IBackend" and eng s lg
  obtain req where req: "portable_request ''pick'' [''10'', ''20''] = Inr req"
    by (simp add: portable_request_def portable_methods_def portable_args_def)
  then show "\<exists>req r lg'. portable_request ''pick'' [''10'', ''20''] = Inr req \<and>
     handle B eng req \<lparr>top = []\<rparr> None (s, lg) = (Ok r, s, lg') \<and> \<not> resp_ok r"
    using portable_commands_refused[OF _ req, of B eng "\<lparr>top = []\<rparr>" None s lg] by (auto simp: refused_commands_def)
qed

end
