(* ===== verification/Spec2Isabelle.thy ===== *)
theory Spec2Isabelle
  imports Core_Contract Core_Invariant Daemon_Properties Connection_Properties Update
    Daemon_Liveness Cli_Properties Gui_Main Win32_Registry Uia_Extension Survey_Uia Tray
    Discovery Util_Win32 Portable_Client
begin

text \<open>
  \<^bold>\<open>WinInspect, verified parts.\<close> WinInspect lets programs look at and act on the windows of a
  desktop. A daemon (\<open>src/daemon\<close>) serves clients over a named pipe and over TCP; each request is
  a JSON object that the core engine (\<open>src/core/src/core.cpp\<close>) dispatches to a backend, either the
  Windows API or a deterministic fake; the command line client, the graphical client and the portable
  client (\<open>src/clients\<close>) are the other end, and \<open>src/tools\<close> holds two helpers around UI Automation. This library models the program as executable functions
  translated from the sources and proves what makes it correct. The theories, bottom up:

  \<^item> \<open>Prelude\<close>: results that can also be exceptions or get stuck, computations over a state,
    \<open>std::map\<close> as an ordered association list behind the locale \<open>std_map\<close>, string helpers.
  \<^item> \<open>Cpp_Numbers\<close>: \<open>double\<close> as exact binary64 values, \<open>std::to_string\<close>, \<open>stod\<close>,
    \<open>stoi\<close>, \<open>stoull\<close> and the casts to integer types, undefined where C++ leaves them so.
  \<^item> \<open>Tinyjson\<close> (\<open>tinyjson.hpp\<close>) and \<open>Base64\<close> (\<open>base64.hpp\<close>): parsers, printers, round trips.
  \<^item> \<open>Types\<close> (\<open>types.hpp\<close>), \<open>Logger\<close> (\<open>logger.cpp\<close>), \<open>Backend\<close> (\<open>backend.hpp\<close>): the records of the
    program, the ring of recent log lines, and the interface \<open>IBackend\<close> with its contract as the
    locales \<open>inspecting_backend\<close> and \<open>ensuring_backend\<close>.
  \<^item> \<open>Fake_Backend\<close> (\<open>fake_backend.cpp\<close>): the deterministic backend, an instance of both.
  \<^item> \<open>Core_Json\<close>, \<open>Core_Handlers\<close>, \<open>Core\<close> (\<open>core.cpp\<close>): parameters and JSON of the data, the 51
    handlers, the dispatch table and \<open>handle\<close>. \<open>Core_Contract\<close> and \<open>Core_Invariant\<close> show what
    the engine guarantees: inspection has no side effects, desired-state actions settle, which
    responses carry identifiers, secrets are redacted, requests are answered, and whatever all
    methods of a backend preserve the engine preserves.
  \<^item> \<open>Server_State\<close> (\<open>server_state.hpp\<close>, the locked blocks of \<open>server.cpp\<close>): the store of
    snapshots with pins and eviction, sessions; the locale \<open>snapshot_store\<close> is what both servers
    need of it.
  \<^item> \<open>Server\<close> and \<open>Tcp_Server\<close>: the request loops of the pipe and the TCP server, cut into the pieces
    between which other threads can run (\<open>phase\<close>, \<open>pipe_step\<close>, \<open>tcp_step\<close>).
  \<^item> \<open>Daemon\<close>: all threads interleaved (\<open>daemon_step\<close>, \<open>daemon_run\<close>); the locale
    \<open>thread_invariant\<close> lifts what each piece of code keeps to every reachable state.
    \<open>Daemon_Contract\<close> has its instances, \<open>Daemon_Properties\<close> the properties: stored snapshots do
    not change, pins have holders, captures end, sessions are isolated, messages are answered,
    read-only mode and authentication on the pipe.
  \<^item> \<open>Transport\<close> (\<open>pipe_win32.cpp\<close>, the socket loops, \<open>Conn\<close> of the client): messages on byte
    streams that are cut arbitrarily; the locale \<open>message_channel\<close>.
  \<^item> \<open>Crypto\<close> (\<open>crypto.cpp\<close>): key agreement, packets and signatures over the primitives of the
    operating system, an argument of every definition. \<open>Tcp_Handshake\<close>, \<open>Tcp_Connection\<close>:
    authentication and whole connections; \<open>Connection_Properties\<close>: a conversation from end to end.
  \<^item> \<open>Command_Line\<close>, \<open>Daemon_Main\<close> (\<open>main\<close> and the discovery responder of \<open>server.cpp\<close>): options, the
    start of the daemon, announcements. \<open>Daemon_Liveness\<close>: from a command line to every message being
    answered. \<open>Listeners\<close> (\<open>TcpServer::start\<close> and \<open>stop\<close>, \<open>run_server\<close>, \<open>run_discovery_responder\<close>): the loops that
    accept clients, whose effects on the daemon are steps of \<open>daemon_step\<close>, and the sockets and pipes they own.
    \<open>Discovery\<close>: a client looking for daemons and a daemon answering.
    \<open>Tray\<close> (\<open>tray.cpp\<close>, the end of \<open>main\<close>): the tray icon and the way the daemon ends.
  \<^item> \<open>Cli\<close>, \<open>Cli_Main\<close> (\<open>cli.cpp\<close>): the command line client from its arguments to the line it prints.
    \<open>Cli_Properties\<close>: its requests are typed, an exchange over the pipe, authentication, the usage text.
  \<^item> \<open>Viewmodel\<close> (\<open>viewmodel.cpp\<close>): the state behind the graphical client; the locale
    \<open>inspection_service\<close> is what it needs of a transport, and the daemon's pipe provides it. \<open>Gui_Main\<close>
    (\<open>gui_main.cpp\<close>): the window around it, with its tree, list and messages.
  \<^item> \<open>Portable_Client\<close> (\<open>portable/main.go\<close>): the requests of the portable client, and which of them the engine
    can never accept.
  \<^item> \<open>Win32_Api\<close>: the calls of \<open>win32_backend.cpp\<close> into Windows as a record of functions of an abstract
    system, the argument \<open>A\<close> of everything after it. \<open>Win32_Windows\<close>, \<open>Win32_System\<close>: the methods of
    \<open>Win32Backend\<close>. \<open>Win32_Backend\<close>: the class as an \<open>IBackend\<close> that meets the contract. \<open>Win32_Properties\<close>,
    \<open>Win32_Registry\<close>: events, the window tree, clicks, screen captures, limits, services, the environment,
    the registry.
  \<^item> \<open>Util_Win32\<close> (\<open>util_win32.hpp\<close>): the owners of handles, keys, services and COM references; the locale
    \<open>owning_handle\<close> is what the move-only ones promise, and each of the three is an instance.
  \<^item> \<open>Uia_Extension\<close> (\<open>wine-uia-extension/extension.cpp\<close>): the COM server, its counts and its clients as a step
    relation. \<open>Survey_Uia\<close> (\<open>survey-uia/survey_uia.cpp\<close>): the checks and the report, which parses back to them.
  \<^item> \<open>Update\<close> (\<open>update.cpp\<close>): versions, looking for a release, downloads.

  \<^bold>\<open>Conventions.\<close> A value of type \<open>'a res\<close> is a result, a thrown exception, or \<open>Stuck\<close> for
  undefined behaviour and for calls that never return. Clocks, random bytes, what the operating
  system delivers and whether the watchdog fired are arguments. Integers have the width of the source
  where wrapping can be observed.

  \<^bold>\<open>Bounds.\<close> The window tree of the fake backend is explored to a depth of one more than the number
  of windows, which is shown to be enough. The properties of runs assume fewer than \<open>2^64 - 1\<close> steps,
  the range of the snapshot counter; those of the COM server fewer than \<open>2^32\<close> calls, the range of its counts.

  The tree walk of \<open>Win32Backend\<close> and its wait for a service are partial functions, and it is shown when
  they return.

  \<^bold>\<open>Not modelled.\<close> What Windows does: sockets, pipes, UI Automation, the shell and the registry answer through
  arguments, and drawing, styles and timeouts of calls do not appear. The network part of the portable client, a
  scaffold around the packages of Go. \<open>check_uia.cpp\<close>, two calls and a line printed after each; \<open>gui_stub.cpp\<close> and
  \<open>main.cpp\<close>, which do nothing; \<open>test_discovery.cpp\<close>, a test. The stubs of \<open>win32_backend.cpp\<close> and \<open>crypto.cpp\<close> for
  other platforms, which no supported build contains. Scripts. The TLA+ models under \<open>src/formal\<close> are
  specifications, not implementation.
\<close>

end
